theory Spec2Isabelle
  imports Main "HOL-Library.AList" "HOL-Library.Multiset" "HOL-Library.Sublist"
begin

section \<open>Documents of the persistent store\<close>

text \<open>
  The three Mongoose schemas of \<^verbatim>\<open>server/models\<close>. A field of type \<^verbatim>\<open>Map\<close> is an
  association list in insertion order; a field whose schema default is \<^verbatim>\<open>null\<close> is an
  option. Dates are milliseconds on the server clock. The \<^verbatim>\<open>createdAt\<close>/\<^verbatim>\<open>updatedAt\<close> pair
  that the schema option \<^verbatim>\<open>timestamps\<close> adds is read by no handler and is left out; the
  explicit \<^verbatim>\<open>createdAt\<close> paths of User and Room are kept.
\<close>

record user =
  u_socketId :: string
  u_username :: string
  u_currentRoom :: string
  u_isOnline :: bool
  u_lastSeen :: nat
  u_unreadCount :: int
  u_createdAt :: nat

record room =
  r_roomId :: string
  r_name :: string
  r_description :: string
  r_users :: "(string \<times> string) list"
  r_messageCount :: int
  r_isPrivate :: bool
  r_createdBy :: string
  r_createdAt :: nat

record message =
  m_id :: nat
  m_sender :: string
  m_senderId :: string
  m_message :: string
  m_room :: string
  m_fileName :: "string option"
  m_fileUrl :: "string option"
  m_fileType :: "string option"
  m_isFile :: bool
  m_isPrivate :: bool
  m_recipient :: "string option"
  m_delivered :: bool
  m_read :: bool
  m_reactions :: "(string \<times> string) list"
  m_timestamp :: nat

text \<open>The schema defaults of a Message; \<^verbatim>\<open>Message.create\<close> starts from them, the payload
  overrides them, and the store assigns \<^verbatim>\<open>_id\<close>. The two required paths \<^verbatim>\<open>sender\<close> and
  \<^verbatim>\<open>senderId\<close> have no default: every handler sets them, to a non-empty name
  (\<^verbatim>\<open>|| 'Anonymous'\<close>) and to the socket's id.\<close>

definition Message_defaults :: "nat \<Rightarrow> message" where
  "Message_defaults now =
     \<lparr>m_id = 0, m_sender = [], m_senderId = [], m_message = [], m_room = ''general'',
      m_fileName = None, m_fileUrl = None, m_fileType = None, m_isFile = False,
      m_isPrivate = False, m_recipient = None, m_delivered = True, m_read = False,
      m_reactions = [], m_timestamp = now\<rparr>"

text \<open>The schema defaults of a Room, for the three paths \<^verbatim>\<open>Room.create\<close> is called with.\<close>

definition Room_defaults :: "nat \<Rightarrow> room" where
  "Room_defaults now =
     \<lparr>r_roomId = [], r_name = [], r_description = [], r_users = [], r_messageCount = 0,
      r_isPrivate = False, r_createdBy = ''system'', r_createdAt = now\<rparr>"

section \<open>Events sent to clients\<close>

datatype notice_kind = In_room string | Is_private | Is_file

text \<open>A message id as a client sends it: the hexadecimal digits of an ObjectId, here the
  number they stand for, or a value that does not cast to an ObjectId (such as
  \<^verbatim>\<open>'not-an-id'\<close>). The events that name a message carry the id as it was sent.\<close>

datatype client_id = ObjectId nat | Not_an_id string

datatype event =
    User_list "user list"
  | User_joined string string
  | Room_list "room list"
  | Receive_message message
  | New_message_notification string string notice_kind
  | Message_delivered nat
  | Notification string string "string option"
  | Room_joined string string
  | Typing_users "string list"
  | Private_message message
  | Reaction_added client_id string string
  | Message_read_receipt client_id string
  | Messages_loaded "message list" bool
  | Search_results "message list" string
  | User_left string string
  | Error string

section \<open>The server's state\<close>

text \<open>
  \<open>users_coll\<close>, \<open>rooms_coll\<close> and \<open>messages_coll\<close> are the three collections, in insertion
  order. \<open>typingUsers\<close> is the module-level plain object. \<open>sockets\<close> are the ids of the
  connected sockets (the keys of \<^verbatim>\<open>io.sockets.sockets\<close>), \<open>subs\<close> the pairs (socket id, label)
  of the transport's room subscriptions; a socket is subscribed to its own id when it
  connects. \<open>outbox\<close> lists every delivery, oldest first, as (receiving socket, event).
  \<open>fault\<close> is the environment's side of a handler run: \<open>Some k\<close> lets \<open>k\<close> store calls
  through and makes the next one throw, \<open>None\<close> lets every call through.
\<close>

record world =
  users_coll :: "user list"
  rooms_coll :: "room list"
  messages_coll :: "message list"
  typingUsers :: "(string \<times> string) list"
  sockets :: "string list"
  subs :: "(string \<times> string) list"
  outbox :: "(string \<times> event) list"
  fault :: "nat option"

text \<open>What a handler may find thrown: the store cannot be reached, a document fails the
  schema, a unique index refuses a document, the store refuses the arguments of a query,
  Mongoose cannot cast a value to the type of its path, and JavaScript's own
  \<^verbatim>\<open>TypeError\<close>.\<close>

datatype exn =
  StoreUnavailable | ValidationError | DuplicateKeyError | BadValue | CastError | TypeError

type_synonym 'a action = "world \<Rightarrow> (exn + 'a) \<times> world"

text \<open>\<^verbatim>\<open>await\<close> of a promise: a rejection leaves the rest of the \<^verbatim>\<open>try\<close> block out; what
  was written before stays written.\<close>

definition await :: "'a action \<Rightarrow> ('a \<Rightarrow> 'b action) \<Rightarrow> 'b action" where
  "await m f w = (case m w of (Inl e, w') \<Rightarrow> (Inl e, w') | (Inr x, w') \<Rightarrow> f x w')"

definition effect :: "(world \<Rightarrow> world) \<Rightarrow> unit action" where
  "effect f w = (Inr (), f w)"

definition done_ok :: "unit action" where
  "done_ok w = (Inr (), w)"

text \<open>\<^verbatim>\<open>try { body } catch (error) { handler }\<close>; \<^verbatim>\<open>console.error\<close> is not part of the
  state.\<close>

definition try_catch :: "unit action \<Rightarrow> (exn \<Rightarrow> world \<Rightarrow> world) \<Rightarrow> world \<Rightarrow> world" where
  "try_catch body handler w =
     (case body w of (Inl e, w') \<Rightarrow> handler e w' | (Inr u, w') \<Rightarrow> w')"

text \<open>One call into the store: it throws when the environment says so, and otherwise does
  what the operation does (which may itself reject the call).\<close>

definition db :: "(world \<Rightarrow> (exn + 'a) \<times> world) \<Rightarrow> 'a action" where
  "db oper w =
     (case fault w of
        None \<Rightarrow> oper w
      | Some 0 \<Rightarrow> (Inl StoreUnavailable, w)
      | Some (Suc k) \<Rightarrow> oper (w\<lparr>fault := Some k\<rparr>))"

section \<open>The transport (socket.io)\<close>

definition socket_emit :: "string \<Rightarrow> event \<Rightarrow> world \<Rightarrow> world" where
  "socket_emit sock ev w = w\<lparr>outbox := outbox w @ [(sock, ev)]\<rparr>"

definition io_emit :: "event \<Rightarrow> world \<Rightarrow> world" where
  "io_emit ev w = w\<lparr>outbox := outbox w @ map (\<lambda>s. (s, ev)) (sockets w)\<rparr>"

definition io_to_emit :: "string \<Rightarrow> event \<Rightarrow> world \<Rightarrow> world" where
  "io_to_emit label ev w =
     w\<lparr>outbox := outbox w @
          map (\<lambda>s. (s, ev)) (filter (\<lambda>s. (s, label) \<in> set (subs w)) (sockets w))\<rparr>"

definition socket_broadcast_emit :: "string \<Rightarrow> event \<Rightarrow> world \<Rightarrow> world" where
  "socket_broadcast_emit sock ev w =
     w\<lparr>outbox := outbox w @ map (\<lambda>s. (s, ev)) (filter (\<lambda>s. s \<noteq> sock) (sockets w))\<rparr>"

definition socket_join :: "string \<Rightarrow> string \<Rightarrow> world \<Rightarrow> world" where
  "socket_join sock label w =
     w\<lparr>subs := (if (sock, label) \<in> set (subs w) then subs w else subs w @ [(sock, label)])\<rparr>"

definition socket_leave :: "string \<Rightarrow> string \<Rightarrow> world \<Rightarrow> world" where
  "socket_leave sock label w = w\<lparr>subs := removeAll (sock, label) (subs w)\<rparr>"

text \<open>
  The two kinds of JavaScript container the server reads keys or values from.
  \<^verbatim>\<open>typingUsers\<close> is created as \<^verbatim>\<open>{}\<close>, a plain object, whose own enumerable properties
  are its entries. \<^verbatim>\<open>io.sockets.sockets\<close> is a \<^verbatim>\<open>Map\<close> in every socket.io release that
  exports \<^verbatim>\<open>Server\<close> by name and takes the \<^verbatim>\<open>cors\<close> option, as \<^verbatim>\<open>server.js\<close> needs
  (3.0 and later; up to 2.x it was a plain object). The entries of a \<^verbatim>\<open>Map\<close> are not
  properties of the object: \<^verbatim>\<open>Object.keys\<close> and \<^verbatim>\<open>Object.values\<close> of a \<^verbatim>\<open>Map\<close> are
  empty arrays.
\<close>

datatype 'v js_container = PlainObject "(string \<times> 'v) list" | MapObject "(string \<times> 'v) list"

fun Object_keys :: "'v js_container \<Rightarrow> string list" where
  "Object_keys (PlainObject kvs) = map fst kvs"
| "Object_keys (MapObject kvs) = []"

fun Object_values :: "'v js_container \<Rightarrow> 'v list" where
  "Object_values (PlainObject kvs) = map snd kvs"
| "Object_values (MapObject kvs) = []"

definition io_sockets_sockets :: "world \<Rightarrow> unit js_container" where
  "io_sockets_sockets w = MapObject (map (\<lambda>s. (s, ())) (sockets w))"

section \<open>Small pieces of JavaScript\<close>

text \<open>\<^verbatim>\<open>x || d\<close> on a string that may be missing: \<^verbatim>\<open>undefined\<close>, \<^verbatim>\<open>null\<close> and the empty
  string are falsy.\<close>

definition truthy_string :: "string option \<Rightarrow> string option" where
  "truthy_string x = (case x of None \<Rightarrow> None | Some s \<Rightarrow> if s = [] then None else Some s)"

definition or_else :: "string option \<Rightarrow> string \<Rightarrow> string" where
  "or_else x d = (case truthy_string x of None \<Rightarrow> d | Some s \<Rightarrow> s)"

text \<open>A value inside a template literal.\<close>

definition template :: "string option \<Rightarrow> string" where
  "template x = (case x of None \<Rightarrow> ''undefined'' | Some s \<Rightarrow> s)"

text \<open>A JavaScript number, as far as the read path needs it: an integer or \<^verbatim>\<open>NaN\<close>
  (integers are exact here; a double is exact up to \<open>2 ^ 53\<close>).\<close>

datatype jsnum = Num int | NaN

fun js_add :: "jsnum \<Rightarrow> jsnum \<Rightarrow> jsnum" where
  "js_add (Num a) (Num b) = Num (a + b)"
| "js_add a b = NaN"

fun js_less :: "jsnum \<Rightarrow> jsnum \<Rightarrow> bool" where
  "js_less (Num a) (Num b) = (a < b)"
| "js_less a b = False"

section \<open>The store (Mongoose over MongoDB)\<close>

text \<open>\<^verbatim>\<open>findOneAndUpdate\<close> changes the first document that matches, and nothing when none
  does.\<close>

fun update_first :: "('a \<Rightarrow> bool) \<Rightarrow> ('a \<Rightarrow> 'a) \<Rightarrow> 'a list \<Rightarrow> 'a list" where
  "update_first P f [] = []"
| "update_first P f (x # xs) = (if P x then f x # xs else x # update_first P f xs)"

subsection \<open>User\<close>

definition User_findOne :: "string \<Rightarrow> world \<Rightarrow> (exn + user option) \<times> world" where
  "User_findOne sid w = (Inr (find (\<lambda>u. u_socketId u = sid) (users_coll w)), w)"

text \<open>The upsert of \<^verbatim>\<open>user_join\<close> (\<^verbatim>\<open>upsert: true, new: true\<close>): an inserted document
  takes the schema defaults for the paths the update leaves out.\<close>

definition User_upsert_join ::
  "string \<Rightarrow> string \<Rightarrow> nat \<Rightarrow> world \<Rightarrow> (exn + user option) \<times> world" where
  "User_upsert_join sid username now w =
     (let fresh = \<lparr>u_socketId = sid, u_username = username, u_currentRoom = ''general'',
                   u_isOnline = True, u_lastSeen = now, u_unreadCount = 0, u_createdAt = now\<rparr>;
          change = (\<lambda>u. u\<lparr>u_socketId := sid, u_username := username, u_isOnline := True,
                          u_currentRoom := ''general'', u_lastSeen := now\<rparr>);
          us = (if list_ex (\<lambda>u. u_socketId u = sid) (users_coll w)
                then update_first (\<lambda>u. u_socketId u = sid) change (users_coll w)
                else users_coll w @ [fresh])
      in (Inr (find (\<lambda>u. u_socketId u = sid) us), w\<lparr>users_coll := us\<rparr>))"

definition User_set_currentRoom :: "string \<Rightarrow> string \<Rightarrow> world \<Rightarrow> (exn + unit) \<times> world" where
  "User_set_currentRoom sid roomId w =
     (Inr (), w\<lparr>users_coll :=
        update_first (\<lambda>u. u_socketId u = sid) (\<lambda>u. u\<lparr>u_currentRoom := roomId\<rparr>) (users_coll w)\<rparr>)"

text \<open>The update of \<^verbatim>\<open>disconnect\<close>; without \<^verbatim>\<open>new: true\<close> the call returns the document as
  it was.\<close>

definition User_set_offline :: "string \<Rightarrow> nat \<Rightarrow> world \<Rightarrow> (exn + user option) \<times> world" where
  "User_set_offline sid now w =
     (Inr (find (\<lambda>u. u_socketId u = sid) (users_coll w)),
      w\<lparr>users_coll :=
        update_first (\<lambda>u. u_socketId u = sid) (\<lambda>u. u\<lparr>u_isOnline := False, u_lastSeen := now\<rparr>)
          (users_coll w)\<rparr>)"

definition User_find_online :: "world \<Rightarrow> (exn + user list) \<times> world" where
  "User_find_online w = (Inr (filter u_isOnline (users_coll w)), w)"

definition User_find_others_in :: "string \<Rightarrow> string \<Rightarrow> world \<Rightarrow> (exn + user list) \<times> world" where
  "User_find_others_in roomId sid w =
     (Inr (filter (\<lambda>u. u_currentRoom u = roomId \<and> u_socketId u \<noteq> sid) (users_coll w)), w)"

subsection \<open>Room\<close>

definition Room_findOne :: "string \<Rightarrow> world \<Rightarrow> (exn + room option) \<times> world" where
  "Room_findOne roomId w = (Inr (find (\<lambda>r. r_roomId r = roomId) (rooms_coll w)), w)"

definition Room_find_all :: "world \<Rightarrow> (exn + room list) \<times> world" where
  "Room_find_all w = (Inr (rooms_coll w), w)"

definition Room_find_member :: "string \<Rightarrow> world \<Rightarrow> (exn + room list) \<times> world" where
  "Room_find_member sid w =
     (Inr (filter (\<lambda>r. map_of (r_users r) sid \<noteq> None) (rooms_coll w)), w)"

text \<open>\<^verbatim>\<open>$set\<close> of one key of the member map. A value that is \<^verbatim>\<open>undefined\<close> (the
  \<^verbatim>\<open>?.username\<close> of no user) is dropped from the update by Mongoose, which then writes
  nothing.\<close>

definition Room_set_user ::
  "string \<Rightarrow> string \<Rightarrow> string option \<Rightarrow> world \<Rightarrow> (exn + unit) \<times> world" where
  "Room_set_user roomId sid username w =
     (case username of
        None \<Rightarrow> (Inr (), w)
      | Some n \<Rightarrow>
          (Inr (), w\<lparr>rooms_coll :=
             update_first (\<lambda>r. r_roomId r = roomId)
               (\<lambda>r. r\<lparr>r_users := AList.update sid n (r_users r)\<rparr>) (rooms_coll w)\<rparr>))"

definition Room_unset_user :: "string \<Rightarrow> string \<Rightarrow> world \<Rightarrow> (exn + unit) \<times> world" where
  "Room_unset_user roomId sid w =
     (Inr (), w\<lparr>rooms_coll :=
        update_first (\<lambda>r. r_roomId r = roomId)
          (\<lambda>r. r\<lparr>r_users := AList.delete sid (r_users r)\<rparr>) (rooms_coll w)\<rparr>)"

definition Room_unset_user_many :: "string \<Rightarrow> world \<Rightarrow> (exn + unit) \<times> world" where
  "Room_unset_user_many sid w =
     (Inr (), w\<lparr>rooms_coll :=
        map (\<lambda>r. if map_of (r_users r) sid \<noteq> None
                 then r\<lparr>r_users := AList.delete sid (r_users r)\<rparr> else r) (rooms_coll w)\<rparr>)"

definition Room_inc_messageCount :: "string \<Rightarrow> world \<Rightarrow> (exn + unit) \<times> world" where
  "Room_inc_messageCount roomId w =
     (Inr (), w\<lparr>rooms_coll :=
        update_first (\<lambda>r. r_roomId r = roomId)
          (\<lambda>r. r\<lparr>r_messageCount := r_messageCount r + 1\<rparr>) (rooms_coll w)\<rparr>)"

text \<open>\<^verbatim>\<open>Room.create\<close> validates the document: \<^verbatim>\<open>roomId\<close> and \<^verbatim>\<open>name\<close> are
  \<^verbatim>\<open>required\<close>, which a string path fails when it is empty; \<^verbatim>\<open>roomId\<close> is \<^verbatim>\<open>unique\<close>,
  and the index rejects a second document with the same value.\<close>

definition Room_create :: "room \<Rightarrow> world \<Rightarrow> (exn + room) \<times> world" where
  "Room_create doc w =
     (if r_roomId doc = [] \<or> r_name doc = [] then (Inl ValidationError, w)
      else if list_ex (\<lambda>r. r_roomId r = r_roomId doc) (rooms_coll w)
      then (Inl DuplicateKeyError, w)
      else (Inr doc, w\<lparr>rooms_coll := rooms_coll w @ [doc]\<rparr>))"

subsection \<open>Message\<close>

text \<open>A new document gets an \<^verbatim>\<open>_id\<close> no stored message has.\<close>

definition fresh_id :: "message list \<Rightarrow> nat" where
  "fresh_id ms = Suc (fold max (map m_id ms) 0)"

definition Message_create :: "message \<Rightarrow> world \<Rightarrow> (exn + message) \<times> world" where
  "Message_create payload w =
     (let saved = payload\<lparr>m_id := fresh_id (messages_coll w)\<rparr>
      in (Inr saved, w\<lparr>messages_coll := messages_coll w @ [saved]\<rparr>))"

text \<open>\<^verbatim>\<open>findByIdAndUpdate\<close>: Mongoose casts the id to an ObjectId and rejects the call
  with a \<^verbatim>\<open>CastError\<close> when it cannot. Otherwise the document with that \<^verbatim>\<open>_id\<close> is
  changed; with none, the call resolves to \<^verbatim>\<open>null\<close> and writes nothing.\<close>

definition Message_findByIdAndUpdate ::
  "client_id \<Rightarrow> (message \<Rightarrow> message) \<Rightarrow> world \<Rightarrow> (exn + message option) \<times> world" where
  "Message_findByIdAndUpdate messageId change w =
     (case messageId of
        Not_an_id v \<Rightarrow> (Inl CastError, w)
      | ObjectId i \<Rightarrow>
          (let ms = update_first (\<lambda>m. m_id m = i) change (messages_coll w)
           in (Inr (find (\<lambda>m. m_id m = i) ms), w\<lparr>messages_coll := ms\<rparr>)))"

definition Message_countDocuments :: "(message \<Rightarrow> bool) \<Rightarrow> world \<Rightarrow> (exn + nat) \<times> world" where
  "Message_countDocuments query w = (Inr (length (filter query (messages_coll w))), w)"

text \<open>\<^verbatim>\<open>.sort({ timestamp: -1 })\<close>: newest first. The store leaves the order of equal
  timestamps open; here the later insertion comes first.\<close>

definition sort_newest_first :: "message list \<Rightarrow> message list" where
  "sort_newest_first ms = rev (sort_key m_timestamp ms)"

text \<open>\<^verbatim>\<open>.limit(n)\<close> as the store reads it: a limit of 0 is no limit, and a negative limit
  is the limit of its absolute value.\<close>

definition cursor_limit :: "int \<Rightarrow> 'a list \<Rightarrow> 'a list" where
  "cursor_limit l xs = (if l = 0 then xs else take (nat \<bar>l\<bar>) xs)"

text \<open>\<^verbatim>\<open>.skip(s).limit(l)\<close>: the store rejects a negative skip, and a skip or limit that
  is not an integer.\<close>

fun cursor_skip_limit :: "jsnum \<Rightarrow> jsnum \<Rightarrow> 'a list \<Rightarrow> exn + 'a list" where
  "cursor_skip_limit (Num s) (Num l) xs =
     (if s < 0 then Inl BadValue else Inr (cursor_limit l (drop (nat s) xs)))"
| "cursor_skip_limit s l xs = Inl BadValue"

definition Message_find_page ::
  "(message \<Rightarrow> bool) \<Rightarrow> jsnum \<Rightarrow> jsnum \<Rightarrow> world \<Rightarrow> (exn + message list) \<times> world" where
  "Message_find_page query skip lim w =
     (cursor_skip_limit skip lim (sort_newest_first (filter query (messages_coll w))), w)"

section \<open>The socket handlers of \<^verbatim>\<open>server.js\<close>\<close>

text \<open>Each handler is \<^verbatim>\<open>try { ... } catch (error) { ... }\<close>: the \<open>_try\<close> definition is the
  block, the handler itself adds the \<^verbatim>\<open>catch\<close>. \<open>sock\<close> is \<^verbatim>\<open>socket.id\<close>, \<open>now\<close> the value
  of \<^verbatim>\<open>new Date()\<close>.\<close>

definition connection :: "string \<Rightarrow> world \<Rightarrow> world" where
  "connection sock w = w\<lparr>sockets := sockets w @ [sock], subs := subs w @ [(sock, sock)]\<rparr>"

subsection \<open>\<^verbatim>\<open>user_join\<close>\<close>

definition user_join_try :: "string \<Rightarrow> string \<Rightarrow> nat \<Rightarrow> unit action" where
  "user_join_try sock username now =
     await (db (User_upsert_join sock username now)) (\<lambda>user.
     await (effect (socket_join sock ''general'')) (\<lambda>_.
     await (db (Room_set_user ''general'' sock (Some username))) (\<lambda>_.
     await (db User_find_online) (\<lambda>onlineUsers.
     await (db Room_find_all) (\<lambda>rooms.
     await (effect (io_emit (User_list onlineUsers))) (\<lambda>_.
     await (effect (io_emit (User_joined username sock))) (\<lambda>_.
     effect (socket_emit sock (Room_list rooms)))))))))"

definition user_join :: "string \<Rightarrow> string \<Rightarrow> nat \<Rightarrow> world \<Rightarrow> world" where
  "user_join sock username now =
     try_catch (user_join_try sock username now)
       (\<lambda>error. socket_emit sock (Error ''Failed to join chat''))"

subsection \<open>\<^verbatim>\<open>send_message\<close>\<close>

text \<open>\<open>text\<close> is \<^verbatim>\<open>messageData.message\<close>, \<open>room\<close> is \<^verbatim>\<open>messageData.room\<close>.\<close>

definition send_message_try ::
  "string \<Rightarrow> string option \<Rightarrow> string option \<Rightarrow> nat \<Rightarrow> unit action" where
  "send_message_try sock text room now =
     await (db (User_findOne sock)) (\<lambda>user.
     let messagePayload = (Message_defaults now)
           \<lparr>m_sender := or_else (map_option u_username user) ''Anonymous'',
            m_senderId := sock,
            m_message := (case text of None \<Rightarrow> [] | Some t \<Rightarrow> t),
            m_room := or_else room ''general'',
            m_delivered := True,
            m_timestamp := now\<rparr>
     in
     await (db (Message_create messagePayload)) (\<lambda>savedMessage.
     await (db (Room_inc_messageCount (or_else room ''general''))) (\<lambda>_.
     await
       (case truthy_string room of
          Some r \<Rightarrow>
            await (effect (io_to_emit r (Receive_message savedMessage))) (\<lambda>_.
            await (db (User_find_others_in r sock)) (\<lambda>roomUsers.
            effect (fold (\<lambda>user. io_to_emit (u_socketId user)
                      (New_message_notification
                         (m_sender savedMessage @ '': '' @ m_message savedMessage)
                         (m_sender savedMessage) (In_room r)))
                    roomUsers)))
        | None \<Rightarrow> effect (io_emit (Receive_message savedMessage))) (\<lambda>_.
     effect (socket_emit sock (Message_delivered (m_id savedMessage)))))))"

definition send_message ::
  "string \<Rightarrow> string option \<Rightarrow> string option \<Rightarrow> nat \<Rightarrow> world \<Rightarrow> world" where
  "send_message sock text room now =
     try_catch (send_message_try sock text room now)
       (\<lambda>error. socket_emit sock (Error ''Failed to send message''))"

subsection \<open>\<^verbatim>\<open>create_room\<close>\<close>

text \<open>
  A character is a code unit below 256: its number is its Unicode code point, so that a
  string is text in ASCII and Latin-1. Text with other characters is outside this model.
  On this range \<^verbatim>\<open>toLowerCase\<close> changes the letters A to Z and the capital letters from
  U+00C0 to U+00DE (all but the multiplication sign U+00D7), each to the character 32
  places up, and the character class \<^verbatim>\<open>\s\<close> holds tab, line feed, vertical tab, form feed,
  carriage return, space and the no-break space U+00A0.
\<close>

definition lower_char :: "char \<Rightarrow> char" where
  "lower_char c =
     (let n = (of_char c :: nat)
      in if (65 \<le> n \<and> n \<le> 90) \<or> (192 \<le> n \<and> n \<le> 222 \<and> n \<noteq> 215)
         then char_of (n + 32) else c)"

definition toLowerCase :: "string \<Rightarrow> string" where
  "toLowerCase s = map lower_char s"

definition is_space :: "char \<Rightarrow> bool" where
  "is_space c = ((of_char c :: nat) \<in> {9, 10, 11, 12, 13, 32, 160})"

text \<open>\<^verbatim>\<open>.replace(/\s+/g, '-')\<close>: every maximal run of white space becomes one hyphen.\<close>

function replace_spaces :: "string \<Rightarrow> string" where
  "replace_spaces [] = []"
| "replace_spaces (c # cs) =
     (if is_space c then CHR ''-'' # replace_spaces (dropWhile is_space cs)
      else c # replace_spaces cs)"
  by pat_completeness auto
termination
  by (relation "measure length") (auto simp: less_Suc_eq_le length_dropWhile_le)

definition derive_roomId :: "string \<Rightarrow> string" where
  "derive_roomId roomName = replace_spaces (toLowerCase roomName)"

definition create_room_try :: "string \<Rightarrow> string \<Rightarrow> nat \<Rightarrow> unit action" where
  "create_room_try sock roomName now =
     (let roomId = derive_roomId roomName in
      await (db (Room_findOne roomId)) (\<lambda>existingRoom.
      case existingRoom of
        Some r \<Rightarrow> done_ok
      | None \<Rightarrow>
          await (db (Room_create ((Room_defaults now)
                   \<lparr>r_roomId := roomId, r_name := roomName, r_createdBy := sock\<rparr>))) (\<lambda>newRoom.
          await (db Room_find_all) (\<lambda>allRooms.
          await (effect (io_emit (Room_list allRooms))) (\<lambda>_.
          effect (io_emit (Notification ''room_created''
                    (''New room created: '' @ roomName) (Some roomId))))))))"

definition create_room :: "string \<Rightarrow> string \<Rightarrow> nat \<Rightarrow> world \<Rightarrow> world" where
  "create_room sock roomName now =
     try_catch (create_room_try sock roomName now)
       (\<lambda>error. socket_emit sock (Error ''Failed to create room''))"

subsection \<open>\<^verbatim>\<open>join_room\<close>\<close>

text \<open>The loop over the rooms that list the socket as a member.\<close>

fun leave_rooms :: "string \<Rightarrow> room list \<Rightarrow> unit action" where
  "leave_rooms sock [] = done_ok"
| "leave_rooms sock (room # rest) =
     await (effect (socket_leave sock (r_roomId room))) (\<lambda>_.
     await (db (Room_unset_user (r_roomId room) sock)) (\<lambda>_.
     leave_rooms sock rest))"

definition join_room_try :: "string \<Rightarrow> string \<Rightarrow> unit action" where
  "join_room_try sock roomId =
     await (db (Room_find_member sock)) (\<lambda>userRooms.
     await (leave_rooms sock userRooms) (\<lambda>_.
     await (db (User_set_currentRoom sock roomId)) (\<lambda>_.
     await (effect (socket_join sock roomId)) (\<lambda>_.
     await (db (Room_findOne roomId)) (\<lambda>room.
     case room of
       None \<Rightarrow> done_ok
     | Some r \<Rightarrow>
         await (db (User_findOne sock)) (\<lambda>user.
         await (db (Room_set_user roomId sock (map_option u_username user))) (\<lambda>_.
         await (effect (socket_emit sock (Room_joined roomId (r_name r)))) (\<lambda>_.
         effect (io_to_emit roomId (Notification ''user_joined_room''
                   ''User joined the room'' (Some roomId)))))))))))"

definition join_room :: "string \<Rightarrow> string \<Rightarrow> world \<Rightarrow> world" where
  "join_room sock roomId =
     try_catch (join_room_try sock roomId)
       (\<lambda>error. socket_emit sock (Error ''Failed to join room''))"

subsection \<open>\<^verbatim>\<open>typing\<close>\<close>

definition typing_try :: "string \<Rightarrow> bool \<Rightarrow> unit action" where
  "typing_try sock isTyping =
     await (db (User_findOne sock)) (\<lambda>user.
     case user of
       None \<Rightarrow> done_ok
     | Some u \<Rightarrow>
         await (effect (\<lambda>w. w\<lparr>typingUsers :=
                  (if isTyping then AList.update sock (u_username u) (typingUsers w)
                   else AList.delete sock (typingUsers w))\<rparr>)) (\<lambda>_.
         effect (\<lambda>w. io_emit (Typing_users (Object_values (PlainObject (typingUsers w)))) w)))"

definition typing :: "string \<Rightarrow> bool \<Rightarrow> world \<Rightarrow> world" where
  "typing sock isTyping = try_catch (typing_try sock isTyping) (\<lambda>error. id)"

subsection \<open>\<^verbatim>\<open>private_message\<close>\<close>

definition private_message_try :: "string \<Rightarrow> string \<Rightarrow> string \<Rightarrow> nat \<Rightarrow> unit action" where
  "private_message_try sock to text now =
     await (db (User_findOne sock)) (\<lambda>senderUser.
     let messageData = (Message_defaults now)
           \<lparr>m_sender := or_else (map_option u_username senderUser) ''Anonymous'',
            m_senderId := sock,
            m_message := text,
            m_recipient := Some to,
            m_isPrivate := True,
            m_delivered := True,
            m_timestamp := now\<rparr>
     in
     await (db (Message_create messageData)) (\<lambda>savedMessage.
     await (effect (io_to_emit to (Private_message savedMessage))) (\<lambda>_.
     await (effect (socket_emit sock (Private_message savedMessage))) (\<lambda>_.
     await (effect (io_to_emit to (New_message_notification
              (''Private message from '' @
                 or_else (map_option u_username senderUser) ''Anonymous'' @ '': '' @ text)
              (or_else (map_option u_username senderUser) ''Anonymous'') Is_private))) (\<lambda>_.
     effect (socket_emit sock (Message_delivered (m_id savedMessage))))))))"

definition private_message :: "string \<Rightarrow> string \<Rightarrow> string \<Rightarrow> nat \<Rightarrow> world \<Rightarrow> world" where
  "private_message sock to text now =
     try_catch (private_message_try sock to text now)
       (\<lambda>error. socket_emit sock (Error ''Failed to send private message''))"

subsection \<open>\<^verbatim>\<open>add_reaction\<close> and \<^verbatim>\<open>message_read\<close>\<close>

definition add_reaction_try :: "string \<Rightarrow> client_id \<Rightarrow> string \<Rightarrow> unit action" where
  "add_reaction_try sock messageId reaction =
     await (db (Message_findByIdAndUpdate messageId
              (\<lambda>m. m\<lparr>m_reactions := AList.update sock reaction (m_reactions m)\<rparr>))) (\<lambda>message.
     effect (io_emit (Reaction_added messageId reaction sock)))"

definition add_reaction :: "string \<Rightarrow> client_id \<Rightarrow> string \<Rightarrow> world \<Rightarrow> world" where
  "add_reaction sock messageId reaction =
     try_catch (add_reaction_try sock messageId reaction) (\<lambda>error. id)"

definition message_read_try :: "string \<Rightarrow> client_id \<Rightarrow> unit action" where
  "message_read_try sock messageId =
     await (db (Message_findByIdAndUpdate messageId (\<lambda>m. m\<lparr>m_read := True\<rparr>))) (\<lambda>_.
     effect (socket_broadcast_emit sock (Message_read_receipt messageId sock)))"

definition message_read :: "string \<Rightarrow> client_id \<Rightarrow> world \<Rightarrow> world" where
  "message_read sock messageId = try_catch (message_read_try sock messageId) (\<lambda>error. id)"

subsection \<open>\<^verbatim>\<open>share_file\<close>\<close>

record fileData =
  fd_name :: "string option"
  fd_url :: "string option"
  fd_type :: "string option"
  fd_room :: "string option"

definition share_file_try :: "string \<Rightarrow> fileData \<Rightarrow> nat \<Rightarrow> unit action" where
  "share_file_try sock fileData now =
     await (db (User_findOne sock)) (\<lambda>user.
     let messagePayload = (Message_defaults now)
           \<lparr>m_sender := or_else (map_option u_username user) ''Anonymous'',
            m_senderId := sock,
            m_fileName := fd_name fileData,
            m_fileUrl := fd_url fileData,
            m_fileType := fd_type fileData,
            m_isFile := True,
            m_room := or_else (fd_room fileData) ''general'',
            m_delivered := True,
            m_timestamp := now\<rparr>
     in
     await (db (Message_create messagePayload)) (\<lambda>savedMessage.
     await (effect (io_emit (Receive_message savedMessage))) (\<lambda>_.
     await (effect (\<lambda>w.
              fold (\<lambda>userId. if userId \<noteq> sock
                      then io_to_emit userId (New_message_notification
                             (or_else (map_option u_username user) ''Anonymous'' @
                                '' shared a file: '' @ template (fd_name fileData))
                             (or_else (map_option u_username user) ''Anonymous'') Is_file)
                      else id)
                (Object_keys (io_sockets_sockets w)) w)) (\<lambda>_.
     effect (socket_emit sock (Message_delivered (m_id savedMessage)))))))"

definition share_file :: "string \<Rightarrow> fileData \<Rightarrow> nat \<Rightarrow> world \<Rightarrow> world" where
  "share_file sock fileData now =
     try_catch (share_file_try sock fileData now)
       (\<lambda>error. socket_emit sock (Error ''Failed to share file''))"

subsection \<open>\<^verbatim>\<open>load_messages\<close>\<close>

text \<open>The destructuring defaults apply to a field that is missing. \<^verbatim>\<open>roomId ? ... : {}\<close>
  drops the filter for an empty \<^verbatim>\<open>roomId\<close>. First the handler on a payload whose offset
  and limit are numbers; the payload as any client may send it follows.\<close>

definition room_query :: "string \<Rightarrow> message \<Rightarrow> bool" where
  "room_query roomId = (if roomId \<noteq> [] then (\<lambda>m. m_room m = roomId) else (\<lambda>m. True))"

definition load_messages_try ::
  "string \<Rightarrow> jsnum option \<Rightarrow> jsnum option \<Rightarrow> string option \<Rightarrow> unit action" where
  "load_messages_try sock offset_arg limit_arg roomId_arg =
     (let offset = (case offset_arg of None \<Rightarrow> Num 0 | Some n \<Rightarrow> n);
          limit = (case limit_arg of None \<Rightarrow> Num 50 | Some n \<Rightarrow> n);
          roomId = (case roomId_arg of None \<Rightarrow> ''general'' | Some r \<Rightarrow> r);
          query = room_query roomId
      in
      await (db (Message_find_page query offset limit)) (\<lambda>messages.
      await (db (Message_countDocuments query)) (\<lambda>totalCount.
      effect (socket_emit sock
        (Messages_loaded (rev messages)
           (js_less (js_add offset limit) (Num (int totalCount))))))))"

definition load_messages ::
  "string \<Rightarrow> jsnum option \<Rightarrow> jsnum option \<Rightarrow> string option \<Rightarrow> world \<Rightarrow> world" where
  "load_messages sock offset_arg limit_arg roomId_arg =
     try_catch (load_messages_try sock offset_arg limit_arg roomId_arg)
       (\<lambda>error. socket_emit sock (Error ''Failed to load messages''))"

text \<open>
  The listener as it is registered, \<^verbatim>\<open>async ({ offset = 0, limit = 50, roomId = 'general' })
  => { try { ... } catch ... }\<close>, on whatever a client sends. The payload may be missing:
  the parameter is destructured before the \<^verbatim>\<open>try\<close> is entered, so that destructuring
  \<^verbatim>\<open>undefined\<close> or \<^verbatim>\<open>null\<close> is a \<^verbatim>\<open>TypeError\<close> that no \<^verbatim>\<open>catch\<close> covers: the promise of the listener
  is rejected and nothing handles the rejection, which ends the process in Node 15 and
  later. In a payload that is there, the offset and the limit may be strings as well as
  numbers, and nothing in the handler coerces them. Two things then depend on what is
  installed and are parameters here: \<open>cast\<close> is what \<^verbatim>\<open>.skip\<close> and \<^verbatim>\<open>.limit\<close> make of a
  string (they throw, or go on with a number), before any call to the store, and
  \<open>text_less\<close> is the value of \<^verbatim>\<open>offset + limit < totalCount\<close> when \<^verbatim>\<open>+\<close> has a string
  operand and joins the two.
\<close>

datatype js_operand = Number jsnum | Text string

record load_payload =
  lp_offset :: "js_operand option"
  lp_limit :: "js_operand option"
  lp_roomId :: "string option"

definition throw :: "exn \<Rightarrow> 'a action" where
  "throw e w = (Inl e, w)"

definition query_operand :: "(string \<Rightarrow> exn + jsnum) \<Rightarrow> js_operand \<Rightarrow> exn + jsnum" where
  "query_operand cast x = (case x of Number n \<Rightarrow> Inr n | Text s \<Rightarrow> cast s)"

definition has_more ::
  "(js_operand \<Rightarrow> js_operand \<Rightarrow> nat \<Rightarrow> bool) \<Rightarrow> js_operand \<Rightarrow> js_operand \<Rightarrow> nat \<Rightarrow> bool" where
  "has_more text_less offset limit totalCount =
     (case (offset, limit) of
        (Number a, Number b) \<Rightarrow> js_less (js_add a b) (Num (int totalCount))
      | _ \<Rightarrow> text_less offset limit totalCount)"

definition on_load_messages_try ::
  "(string \<Rightarrow> exn + jsnum) \<Rightarrow> (js_operand \<Rightarrow> js_operand \<Rightarrow> nat \<Rightarrow> bool) \<Rightarrow> string
     \<Rightarrow> load_payload \<Rightarrow> unit action" where
  "on_load_messages_try cast text_less sock payload =
     (let offset = (case lp_offset payload of None \<Rightarrow> Number (Num 0) | Some x \<Rightarrow> x);
          limit = (case lp_limit payload of None \<Rightarrow> Number (Num 50) | Some x \<Rightarrow> x);
          roomId = (case lp_roomId payload of None \<Rightarrow> ''general'' | Some r \<Rightarrow> r);
          query = room_query roomId
      in
      await
        (case query_operand cast offset of
           Inl e \<Rightarrow> throw e
         | Inr skip \<Rightarrow>
             (case query_operand cast limit of
                Inl e \<Rightarrow> throw e
              | Inr lim \<Rightarrow> db (Message_find_page query skip lim))) (\<lambda>messages.
      await (db (Message_countDocuments query)) (\<lambda>totalCount.
      effect (socket_emit sock
        (Messages_loaded (rev messages) (has_more text_less offset limit totalCount))))))"

definition on_load_messages ::
  "(string \<Rightarrow> exn + jsnum) \<Rightarrow> (js_operand \<Rightarrow> js_operand \<Rightarrow> nat \<Rightarrow> bool) \<Rightarrow> string
     \<Rightarrow> load_payload option \<Rightarrow> world \<Rightarrow> exn + world" where
  "on_load_messages cast text_less sock payload w =
     (case payload of
        None \<Rightarrow> Inl TypeError
      | Some p \<Rightarrow>
          Inr (try_catch (on_load_messages_try cast text_less sock p)
                 (\<lambda>error. socket_emit sock (Error ''Failed to load messages'')) w))"

subsection \<open>\<^verbatim>\<open>disconnect\<close>\<close>

text \<open>The transport takes a closing socket out of every room and out of
  \<^verbatim>\<open>io.sockets.sockets\<close> before it fires \<^verbatim>\<open>disconnect\<close>.\<close>

definition transport_close :: "string \<Rightarrow> world \<Rightarrow> world" where
  "transport_close sock w =
     w\<lparr>sockets := removeAll sock (sockets w), subs := filter (\<lambda>p. fst p \<noteq> sock) (subs w)\<rparr>"

definition disconnect_try :: "string \<Rightarrow> nat \<Rightarrow> unit action" where
  "disconnect_try sock now =
     await (db (User_set_offline sock now)) (\<lambda>user.
     await
       (case user of
          None \<Rightarrow> done_ok
        | Some u \<Rightarrow>
            await (db (Room_unset_user_many sock)) (\<lambda>_.
            await (effect (io_emit (User_left (u_username u) sock))) (\<lambda>_.
            effect (io_emit (Notification ''user_left''
                      (u_username u @ '' left the chat'') None))))) (\<lambda>_.
     await (effect (\<lambda>w. w\<lparr>typingUsers := AList.delete sock (typingUsers w)\<rparr>)) (\<lambda>_.
     await (db User_find_online) (\<lambda>onlineUsers.
     await (effect (io_emit (User_list onlineUsers))) (\<lambda>_.
     effect (\<lambda>w. io_emit (Typing_users (Object_values (PlainObject (typingUsers w)))) w))))))"

definition disconnect :: "string \<Rightarrow> nat \<Rightarrow> world \<Rightarrow> world" where
  "disconnect sock now w =
     try_catch (disconnect_try sock now) (\<lambda>error. id) (transport_close sock w)"

subsection \<open>\<^verbatim>\<open>search_messages\<close>\<close>

text \<open>
  The query string goes to the store as \<^verbatim>\<open>$regex\<close> with \<^verbatim>\<open>$options: 'i'\<close>: it is a
  regular expression, searched anywhere in the field, letters compared without case.
  Two kinds of pattern are worked out here: a character that is no metacharacter stands
  for itself, and a dot stands for any character but a line feed. What the store makes
  of a pattern with any other metacharacter is the parameter \<open>pcre\<close>: \<open>pcre p\<close> is \<open>None\<close>
  when the store rejects \<open>p\<close>, and the test it applies to a field otherwise. Two letters
  are the same without case when \<^verbatim>\<open>toLowerCase\<close> takes them to the same character.
\<close>

definition regex_meta :: "char \<Rightarrow> bool" where
  "regex_meta c = (c \<in> set (CHR 0x5C # ''^$.|?*+()[]{}''))"

datatype rx_item = Lit char | Any_char

fun rx_compile :: "string \<Rightarrow> rx_item list option" where
  "rx_compile [] = Some []"
| "rx_compile (c # cs) =
     (if c = CHR ''.'' then map_option (Cons Any_char) (rx_compile cs)
      else if regex_meta c then None
      else map_option (Cons (Lit c)) (rx_compile cs))"

fun rx_item_matches :: "rx_item \<Rightarrow> char \<Rightarrow> bool" where
  "rx_item_matches (Lit a) c = (lower_char a = lower_char c)"
| "rx_item_matches Any_char c = (c \<noteq> CHR 0x0A)"

fun rx_prefix :: "rx_item list \<Rightarrow> string \<Rightarrow> bool" where
  "rx_prefix [] s = True"
| "rx_prefix (i # is) [] = False"
| "rx_prefix (i # is) (c # cs) = (rx_item_matches i c \<and> rx_prefix is cs)"

fun rx_search :: "rx_item list \<Rightarrow> string \<Rightarrow> bool" where
  "rx_search p [] = rx_prefix p []"
| "rx_search p (c # cs) = (rx_prefix p (c # cs) \<or> rx_search p cs)"

definition regex_i :: "(string \<Rightarrow> (string \<Rightarrow> bool) option) \<Rightarrow> string \<Rightarrow> (string \<Rightarrow> bool) option" where
  "regex_i pcre pattern =
     (case rx_compile pattern of Some p \<Rightarrow> Some (rx_search p) | None \<Rightarrow> pcre pattern)"

text \<open>\<^verbatim>\<open>Message.find(searchFilter).sort({ timestamp: -1 }).limit(50)\<close>, where the filter is
  the \<^verbatim>\<open>$or\<close> of the two regular-expression tests, and \<^verbatim>\<open>room\<close> when the handler added
  it.\<close>

definition Message_find_search ::
  "(string \<Rightarrow> (string \<Rightarrow> bool) option) \<Rightarrow> string \<Rightarrow> string option \<Rightarrow> world
     \<Rightarrow> (exn + message list) \<times> world" where
  "Message_find_search pcre pattern room w =
     (case regex_i pcre pattern of
        None \<Rightarrow> (Inl BadValue, w)
      | Some test \<Rightarrow>
          (Inr (cursor_limit 50 (sort_newest_first
             (filter (\<lambda>m. (test (m_message m) \<or> test (m_sender m)) \<and>
                           (case room of None \<Rightarrow> True | Some r \<Rightarrow> m_room m = r))
                (messages_coll w)))), w))"

definition search_messages_try ::
  "(string \<Rightarrow> (string \<Rightarrow> bool) option) \<Rightarrow> string \<Rightarrow> string \<Rightarrow> string option \<Rightarrow> unit action" where
  "search_messages_try pcre sock query roomId =
     await (db (Message_find_search pcre query (truthy_string roomId))) (\<lambda>searchResults.
     effect (socket_emit sock (Search_results searchResults query)))"

definition search_messages ::
  "(string \<Rightarrow> (string \<Rightarrow> bool) option) \<Rightarrow> string \<Rightarrow> string \<Rightarrow> string option \<Rightarrow> world \<Rightarrow> world" where
  "search_messages pcre sock query roomId =
     try_catch (search_messages_try pcre sock query roomId)
       (\<lambda>error. socket_emit sock (Error ''Failed to search messages''))"

section \<open>Start-up\<close>

fun ensure_rooms :: "(string \<times> string) list \<Rightarrow> nat \<Rightarrow> unit action" where
  "ensure_rooms [] now = done_ok"
| "ensure_rooms (roomData # rest) now =
     await (db (Room_findOne (fst roomData))) (\<lambda>existingRoom.
     await
       (case existingRoom of
          Some r \<Rightarrow> done_ok
        | None \<Rightarrow>
            await (db (Room_create ((Room_defaults now)
                     \<lparr>r_roomId := fst roomData, r_name := snd roomData\<rparr>))) (\<lambda>_. done_ok)) (\<lambda>_.
     ensure_rooms rest now))"

definition initializeRooms :: "nat \<Rightarrow> world \<Rightarrow> world" where
  "initializeRooms now =
     try_catch (ensure_rooms [(''general'', ''General''), (''random'', ''Random'')] now)
       (\<lambda>error. id)"

definition empty_world :: world where
  "empty_world =
     \<lparr>users_coll = [], rooms_coll = [], messages_coll = [], typingUsers = [], sockets = [],
      subs = [], outbox = [], fault = None\<rparr>"

section \<open>The read-only routes\<close>

datatype response =
    Json_messages "message list" bool nat
  | Json_search "message list" string
  | Json_error nat string

text \<open>
  \<^verbatim>\<open>parseInt\<close> of a string, with no radix: leading white space and one sign are skipped,
  \<^verbatim>\<open>0x\<close> or \<^verbatim>\<open>0X\<close> selects base 16, the longest run of digits is read, and the result is
  \<^verbatim>\<open>NaN\<close> when that run is empty.
\<close>

definition digit_value :: "nat \<Rightarrow> char \<Rightarrow> nat option" where
  "digit_value radix c =
     (let n = (of_char c :: nat);
          v = (if 48 \<le> n \<and> n \<le> 57 then Some (n - 48)
               else if 97 \<le> n \<and> n \<le> 122 then Some (n - 87)
               else if 65 \<le> n \<and> n \<le> 90 then Some (n - 55)
               else None)
      in case v of None \<Rightarrow> None | Some d \<Rightarrow> if d < radix then Some d else None)"

fun read_digits :: "nat \<Rightarrow> string \<Rightarrow> nat option \<Rightarrow> nat option" where
  "read_digits radix [] acc = acc"
| "read_digits radix (c # cs) acc =
     (case digit_value radix c of
        None \<Rightarrow> acc
      | Some d \<Rightarrow> read_digits radix cs (Some ((case acc of None \<Rightarrow> 0 | Some a \<Rightarrow> a) * radix + d)))"

definition parseInt :: "string \<Rightarrow> jsnum" where
  "parseInt str =
     (let s = dropWhile is_space str;
          negative = (case s of c # cs \<Rightarrow> c = CHR ''-'' | [] \<Rightarrow> False);
          s1 = (case s of c # cs \<Rightarrow> if c = CHR ''-'' \<or> c = CHR ''+'' then cs else s | [] \<Rightarrow> s);
          hex = (take 2 s1 = ''0x'' \<or> take 2 s1 = ''0X'');
          z = (if hex then read_digits 16 (drop 2 s1) None else read_digits 10 s1 None)
      in case z of
           None \<Rightarrow> NaN
         | Some n \<Rightarrow> Num (if negative then - int n else int n))"

text \<open>\<^verbatim>\<open>GET /api/messages\<close>. A query parameter is a string, or missing, in which case the
  destructuring default stands in.\<close>

definition api_messages_try ::
  "string option \<Rightarrow> string option \<Rightarrow> string option \<Rightarrow> response action" where
  "api_messages_try offset_arg limit_arg room_arg =
     (let skip = (case offset_arg of None \<Rightarrow> Num 0 | Some s \<Rightarrow> parseInt s);
          take_n = (case limit_arg of None \<Rightarrow> Num 50 | Some s \<Rightarrow> parseInt s);
          room = (case room_arg of None \<Rightarrow> ''general'' | Some r \<Rightarrow> r)
      in
      await (db (Message_find_page (\<lambda>m. m_room m = room) skip take_n)) (\<lambda>messages.
      await (db (Message_countDocuments (\<lambda>m. m_room m = room))) (\<lambda>totalCount.
      (\<lambda>w. (Inr (Json_messages (rev messages)
                    (js_less (js_add skip take_n) (Num (int totalCount))) totalCount), w)))))"

definition api_messages ::
  "string option \<Rightarrow> string option \<Rightarrow> string option \<Rightarrow> world \<Rightarrow> response" where
  "api_messages offset_arg limit_arg room_arg w =
     (case api_messages_try offset_arg limit_arg room_arg w of
        (Inl error, w') \<Rightarrow> Json_error 500 ''Failed to fetch messages''
      | (Inr res, w') \<Rightarrow> res)"

text \<open>\<^verbatim>\<open>GET /api/search\<close>.\<close>

definition api_search_try ::
  "(string \<Rightarrow> (string \<Rightarrow> bool) option) \<Rightarrow> string option \<Rightarrow> string option \<Rightarrow> response action" where
  "api_search_try pcre q room =
     (case truthy_string q of
        None \<Rightarrow> (\<lambda>w. (Inr (Json_error 400
                    (''Query parameter '' @ [CHR 0x22] @ ''q'' @ [CHR 0x22] @ '' is required'')), w))
      | Some qs \<Rightarrow>
          await (db (Message_find_search pcre qs (truthy_string room))) (\<lambda>searchResults.
          (\<lambda>w. (Inr (Json_search searchResults qs), w))))"

definition api_search ::
  "(string \<Rightarrow> (string \<Rightarrow> bool) option) \<Rightarrow> string option \<Rightarrow> string option \<Rightarrow> world \<Rightarrow> response" where
  "api_search pcre q room w =
     (case api_search_try pcre q room w of
        (Inl error, w') \<Rightarrow> Json_error 500 ''Failed to search messages''
      | (Inr res, w') \<Rightarrow> res)"

section \<open>Events from clients, and runs of the server\<close>

text \<open>The \<^verbatim>\<open>socket.on\<close> registrations of the connection handler, as one dispatch on the
  event a socket sends. An event comes with the payload its listener reads; what a listener
  that destructures its parameter does without one is in \<open>on_load_messages\<close>.\<close>

datatype inbound =
    On_connection
  | On_user_join string
  | On_send_message "string option" "string option"
  | On_create_room string
  | On_join_room string
  | On_typing bool
  | On_private_message string string
  | On_add_reaction client_id string
  | On_message_read client_id
  | On_share_file fileData
  | On_load_messages "jsnum option" "jsnum option" "string option"
  | On_search_messages string "string option"
  | On_disconnect

fun try_block ::
  "(string \<Rightarrow> (string \<Rightarrow> bool) option) \<Rightarrow> nat \<Rightarrow> string \<Rightarrow> inbound \<Rightarrow> unit action" where
  "try_block pcre now sock On_connection = done_ok"
| "try_block pcre now sock (On_user_join username) = user_join_try sock username now"
| "try_block pcre now sock (On_send_message text room) = send_message_try sock text room now"
| "try_block pcre now sock (On_create_room roomName) = create_room_try sock roomName now"
| "try_block pcre now sock (On_join_room roomId) = join_room_try sock roomId"
| "try_block pcre now sock (On_typing isTyping) = typing_try sock isTyping"
| "try_block pcre now sock (On_private_message to text) = private_message_try sock to text now"
| "try_block pcre now sock (On_add_reaction messageId reaction) =
     add_reaction_try sock messageId reaction"
| "try_block pcre now sock (On_message_read messageId) = message_read_try sock messageId"
| "try_block pcre now sock (On_share_file fileData) = share_file_try sock fileData now"
| "try_block pcre now sock (On_load_messages offset limit roomId) =
     load_messages_try sock offset limit roomId"
| "try_block pcre now sock (On_search_messages query roomId) =
     search_messages_try pcre sock query roomId"
| "try_block pcre now sock On_disconnect = disconnect_try sock now"

fun dispatch ::
  "(string \<Rightarrow> (string \<Rightarrow> bool) option) \<Rightarrow> nat \<Rightarrow> string \<Rightarrow> inbound \<Rightarrow> world \<Rightarrow> world" where
  "dispatch pcre now sock On_connection = connection sock"
| "dispatch pcre now sock (On_user_join username) = user_join sock username now"
| "dispatch pcre now sock (On_send_message text room) = send_message sock text room now"
| "dispatch pcre now sock (On_create_room roomName) = create_room sock roomName now"
| "dispatch pcre now sock (On_join_room roomId) = join_room sock roomId"
| "dispatch pcre now sock (On_typing isTyping) = typing sock isTyping"
| "dispatch pcre now sock (On_private_message to text) = private_message sock to text now"
| "dispatch pcre now sock (On_add_reaction messageId reaction) =
     add_reaction sock messageId reaction"
| "dispatch pcre now sock (On_message_read messageId) = message_read sock messageId"
| "dispatch pcre now sock (On_share_file fileData) = share_file sock fileData now"
| "dispatch pcre now sock (On_load_messages offset limit roomId) =
     load_messages sock offset limit roomId"
| "dispatch pcre now sock (On_search_messages query roomId) =
     search_messages pcre sock query roomId"
| "dispatch pcre now sock On_disconnect = disconnect sock now"

text \<open>A run: each step is the clock, the store's fault for that handler, the socket and
  its event.\<close>

fun run ::
  "(string \<Rightarrow> (string \<Rightarrow> bool) option) \<Rightarrow> (nat \<times> nat option \<times> string \<times> inbound) list
     \<Rightarrow> world \<Rightarrow> world" where
  "run pcre [] w = w"
| "run pcre ((now, k, sock, ev) # rest) w =
     run pcre rest (dispatch pcre now sock ev (w\<lparr>fault := k\<rparr>))"

section \<open>Predicates of the properties\<close>

text \<open>The handlers whose \<^verbatim>\<open>catch\<close> sends an \<^verbatim>\<open>error\<close> event to the socket.\<close>

fun error_reporting :: "inbound \<Rightarrow> bool" where
  "error_reporting (On_user_join username) = True"
| "error_reporting (On_send_message text room) = True"
| "error_reporting (On_create_room roomName) = True"
| "error_reporting (On_join_room roomId) = True"
| "error_reporting (On_private_message to text) = True"
| "error_reporting (On_share_file fileData) = True"
| "error_reporting (On_load_messages offset limit roomId) = True"
| "error_reporting (On_search_messages query roomId) = True"
| "error_reporting ev = False"

text \<open>
  The number of calls to the store that a handler makes when the store lets every one of
  them through, counted along the handler's path from the state it starts in: a call that
  the store itself refuses is the last one.
\<close>

fun store_calls :: "string \<Rightarrow> inbound \<Rightarrow> world \<Rightarrow> nat" where
  "store_calls sock On_connection w = 0"
| "store_calls sock (On_user_join username) w = 4"
| "store_calls sock (On_send_message text room) w =
     (case truthy_string room of None \<Rightarrow> 3 | Some r \<Rightarrow> 4)"
| "store_calls sock (On_create_room roomName) w =
     (case find (\<lambda>r. r_roomId r = derive_roomId roomName) (rooms_coll w) of
        Some r \<Rightarrow> 1
      | None \<Rightarrow> if roomName = [] then 2 else 3)"
| "store_calls sock (On_join_room roomId) w =
     1 + length (filter (\<lambda>r. map_of (r_users r) sock \<noteq> None) (rooms_coll w)) + 2 +
     (case find (\<lambda>r. r_roomId r = roomId) (rooms_coll w) of None \<Rightarrow> 0 | Some r \<Rightarrow> 2)"
| "store_calls sock (On_typing isTyping) w = 1"
| "store_calls sock (On_private_message to text) w = 2"
| "store_calls sock (On_add_reaction messageId reaction) w = 1"
| "store_calls sock (On_message_read messageId) w = 1"
| "store_calls sock (On_share_file fileData) w = 2"
| "store_calls sock (On_load_messages offset limit roomId) w =
     (case cursor_skip_limit (case offset of None \<Rightarrow> Num 0 | Some n \<Rightarrow> n)
             (case limit of None \<Rightarrow> Num 50 | Some n \<Rightarrow> n) ([] :: message list) of
        Inl e \<Rightarrow> 1
      | Inr page \<Rightarrow> 2)"
| "store_calls sock (On_search_messages query roomId) w = 1"
| "store_calls sock On_disconnect w =
     (case find (\<lambda>u. u_socketId u = sock) (users_coll w) of None \<Rightarrow> 2 | Some u \<Rightarrow> 3)"

text \<open>
  The identifier of a room as the specification words it: the name in lower case, with
  each run of white space replaced by one hyphen. \<open>runs\<close> cuts a string into its maximal
  runs of white space and of other characters.
\<close>

function runs :: "string \<Rightarrow> string list" where
  "runs [] = []"
| "runs (c # cs) =
     (c # takeWhile (\<lambda>d. is_space d = is_space c) cs)
       # runs (dropWhile (\<lambda>d. is_space d = is_space c) cs)"
  by pat_completeness auto
termination
  by (relation "measure length") (auto simp: less_Suc_eq_le length_dropWhile_le)

definition slug :: "string \<Rightarrow> string" where
  "slug name =
     concat (map (\<lambda>run. if is_space (hd run) then ''-'' else toLowerCase run) (runs name))"

text \<open>The number of stored messages whose \<^verbatim>\<open>room\<close> is the given identifier.\<close>

definition messages_in :: "string \<Rightarrow> world \<Rightarrow> nat" where
  "messages_in roomId w = length (filter (\<lambda>m. m_room m = roomId) (messages_coll w))"

text \<open>No room counts more messages than the store holds for it.\<close>

definition count_bounded :: "world \<Rightarrow> bool" where
  "count_bounded w =
     list_all (\<lambda>r. r_messageCount r \<le> int (messages_in (r_roomId r) w)) (rooms_coll w)"

text \<open>The unique index on \<^verbatim>\<open>roomId\<close>.\<close>

definition unique_roomIds :: "world \<Rightarrow> bool" where
  "unique_roomIds w = distinct (map r_roomId (rooms_coll w))"

text \<open>\<open>q\<close> occurs in \<open>s\<close> as a run of consecutive characters, letters compared without
  case.\<close>

definition contains_ci :: "string \<Rightarrow> string \<Rightarrow> bool" where
  "contains_ci q s = sublist (toLowerCase q) (toLowerCase s)"

definition plain_query :: "string \<Rightarrow> bool" where
  "plain_query q = list_all (\<lambda>c. \<not> regex_meta c) q"

text \<open>What a search for \<open>q\<close> is to select: text or sender contains \<open>q\<close>, in the room when
  one is given.\<close>

definition search_hit :: "string \<Rightarrow> string option \<Rightarrow> message \<Rightarrow> bool" where
  "search_hit q room m =
     ((contains_ci q (m_message m) \<or> contains_ci q (m_sender m)) \<and>
      (case room of None \<Rightarrow> True | Some r \<Rightarrow> m_room m = r))"

section \<open>Sample states\<close>

definition demo_world :: world where
  "demo_world =
     \<lparr>users_coll =
        [\<lparr>u_socketId = ''s1'', u_username = ''alice'', u_currentRoom = ''general'',
          u_isOnline = True, u_lastSeen = 5, u_unreadCount = 0, u_createdAt = 5\<rparr>],
      rooms_coll =
        [\<lparr>r_roomId = ''general'', r_name = ''General'', r_description = [],
          r_users = [(''s1'', ''alice'')], r_messageCount = 0, r_isPrivate = False,
          r_createdBy = ''system'', r_createdAt = 1\<rparr>,
         \<lparr>r_roomId = ''random'', r_name = ''Random'', r_description = [],
          r_users = [], r_messageCount = 0, r_isPrivate = False,
          r_createdBy = ''system'', r_createdAt = 1\<rparr>],
      messages_coll = [], typingUsers = [], sockets = [''s1'', ''s2''],
      subs = [(''s1'', ''s1''), (''s2'', ''s2''), (''s1'', ''general'')],
      outbox = [], fault = None\<rparr>"

definition stored_message :: "nat \<Rightarrow> string \<Rightarrow> string \<Rightarrow> message" where
  "stored_message i sender text =
     (Message_defaults i)\<lparr>m_id := i, m_sender := sender, m_senderId := ''s1'', m_message := text\<rparr>"

text \<open>A room with \<open>n\<close> messages, one per tick of the clock.\<close>

definition history_world :: "nat \<Rightarrow> world" where
  "history_world n =
     demo_world\<lparr>messages_coll := map (\<lambda>i. stored_message i ''alice'' ''hi'') [0..<n]\<rparr>"

definition search_world :: world where
  "search_world =
     demo_world\<lparr>messages_coll :=
       [stored_message 1 ''bob'' ''Hello there'',
        stored_message 2 ''Hello123'' ''bye'',
        stored_message 3 ''carol'' ''good night'']\<rparr>"

section \<open>Assertions about handlers\<close>

text \<open>\<open>keeps I m\<close>: the action \<open>m\<close> leaves the property \<open>I\<close> of the state in place, whether
  it returns or throws. \<open>hoare P m Q E\<close>: from a state with \<open>P\<close>, the action ends in a state
  with \<open>Q\<close> when it returns and with \<open>E\<close> when it throws.\<close>

definition keeps :: "(world \<Rightarrow> bool) \<Rightarrow> 'a action \<Rightarrow> bool" where
  "keeps I m = (\<forall>w. I w \<longrightarrow> I (snd (m w)))"

definition hoare :: "(world \<Rightarrow> bool) \<Rightarrow> 'a action \<Rightarrow> (world \<Rightarrow> bool) \<Rightarrow> (world \<Rightarrow> bool) \<Rightarrow> bool" where
  "hoare P m Q E = (\<forall>w. P w \<longrightarrow> (case m w of (Inl e, w') \<Rightarrow> E w' | (Inr x, w') \<Rightarrow> Q w'))"

text \<open>The state between the insert of a message for room \<open>t\<close> and the increment of the
  room's counter: the rooms called \<open>t\<close> count at least one message less than is stored.\<close>

definition count_slack :: "string \<Rightarrow> world \<Rightarrow> bool" where
  "count_slack t w =
     list_all (\<lambda>r. r_messageCount r + (if r_roomId r = t then 1 else 0)
                    \<le> int (messages_in (r_roomId r) w)) (rooms_coll w)"

text \<open>
  \<open>calls n m w\<close>, for a state \<open>w\<close> whose store never fails: from \<open>w\<close>, the action \<open>m\<close> makes \<open>n\<close>
  calls to the store. When the store lets fewer than \<open>n\<close> calls through, \<open>m\<close> throws, and
  what it had sent before stays sent; when it lets \<open>n\<close> or more through, \<open>m\<close> does what it
  does from \<open>w\<close>, and uses \<open>n\<close> of them.
\<close>

definition calls :: "nat \<Rightarrow> 'a action \<Rightarrow> world \<Rightarrow> bool" where
  "calls n m w =
     ((\<forall>k < n. \<exists>e w' pre. m (w\<lparr>fault := Some k\<rparr>) = (Inl e, w') \<and> outbox w' = outbox w @ pre)
      \<and> (\<forall>j. m (w\<lparr>fault := Some (n + j)\<rparr>) = (fst (m w), (snd (m w))\<lparr>fault := Some j\<rparr>))
      \<and> fault (snd (m w)) = None
      \<and> (\<exists>pre. outbox (snd (m w)) = outbox w @ pre))"

text \<open>A room without the socket in its member map, and the state after the loop of
  \<^verbatim>\<open>join_room\<close> has gone through the rooms \<open>rs\<close> with every store call answered.\<close>

definition forget :: "string \<Rightarrow> room \<Rightarrow> room" where
  "forget sock r = r\<lparr>r_users := AList.delete sock (r_users r)\<rparr>"

definition leave_all :: "string \<Rightarrow> room list \<Rightarrow> world \<Rightarrow> world" where
  "leave_all sock rs w =
     w\<lparr>subs := fold (\<lambda>r. removeAll (sock, r_roomId r)) rs (subs w),
       rooms_coll := fold (\<lambda>r. update_first (\<lambda>x. r_roomId x = r_roomId r)
                          (\<lambda>x. x\<lparr>r_users := AList.delete sock (r_users x)\<rparr>)) rs (rooms_coll w)\<rparr>"

section \<open>Basic facts about the store and the handlers' control flow\<close>

lemma update_first_no_match: "\<forall>x \<in> set xs. \<not> P x \<Longrightarrow> update_first P f xs = xs"
  by (induction xs) auto

lemma db_passes:
  "fault w \<noteq> Some 0 \<Longrightarrow>
   db oper w = oper (w\<lparr>fault := (case fault w of None \<Rightarrow> None | Some k \<Rightarrow> Some (k - 1))\<rparr>)"
  by (cases w) (auto simp: db_def split: option.splits nat.splits)

lemma db_up: "fault w = None \<Longrightarrow> db oper w = oper w"
  by (simp add: db_def)

lemma db_down: "fault w = Some 0 \<Longrightarrow> db oper w = (Inl StoreUnavailable, w)"
  by (simp add: db_def)

lemma await_ok: "m w = (Inr x, w') \<Longrightarrow> await m f w = f x w'"
  by (simp add: await_def)

lemma derive_roomId_nonempty: "roomName \<noteq> [] \<Longrightarrow> derive_roomId roomName \<noteq> []"
  by (cases roomName) (simp_all add: derive_roomId_def toLowerCase_def)

subsection \<open>The loop of \<^verbatim>\<open>join_room\<close>\<close>

lemma leave_rooms_up:
  "fault w = None \<Longrightarrow> leave_rooms sock rs w = (Inr (), leave_all sock rs w)"
proof (induction rs arbitrary: w)
  case Nil
  then show ?case by (simp add: done_ok_def leave_all_def)
next
  case (Cons r rs)
  let ?w' = "snd (Room_unset_user (r_roomId r) sock (socket_leave sock (r_roomId r) w))"
  have up: "fault ?w' = None"
    using Cons.prems by (simp add: Room_unset_user_def socket_leave_def)
  have "leave_rooms sock (r # rs) w = leave_rooms sock rs ?w'"
    using Cons.prems
    by (simp add: await_def effect_def db_up Room_unset_user_def socket_leave_def)
  also have "\<dots> = (Inr (), leave_all sock rs ?w')" using up by (rule Cons.IH)
  also have "leave_all sock rs ?w' = leave_all sock (r # rs) w"
    by (simp add: leave_all_def Room_unset_user_def socket_leave_def)
  finally show ?case .
qed

lemma update_first_unique:
  "distinct (map g xs) \<Longrightarrow> (\<And>x. g (f x) = g x) \<Longrightarrow>
   update_first (\<lambda>x. g x = t) f xs = map (\<lambda>x. if g x = t then f x else x) xs"
proof (induction xs)
  case Nil
  then show ?case by simp
next
  case (Cons x xs)
  show ?case
  proof (cases "g x = t")
    case True
    then have "\<forall>y \<in> set xs. g y \<noteq> t" using Cons.prems(1) by (auto simp: image_iff)
    then have "map (\<lambda>x. if g x = t then f x else x) xs = xs" by (induction xs) auto
    with True show ?thesis by simp
  next
    case False
    with Cons show ?thesis by simp
  qed
qed

lemma fold_forget:
  assumes "distinct (map r_roomId xs)"
  shows "fold (\<lambda>r. update_first (\<lambda>x. r_roomId x = r_roomId r) (forget sock)) rs xs =
         map (\<lambda>x. if r_roomId x \<in> r_roomId ` set rs then forget sock x else x) xs"
  using assms
proof (induction rs arbitrary: xs)
  case Nil
  then show ?case by simp
next
  case (Cons r rs)
  let ?ys = "map (\<lambda>x. if r_roomId x = r_roomId r then forget sock x else x) xs"
  have step: "update_first (\<lambda>x. r_roomId x = r_roomId r) (forget sock) xs = ?ys"
    using Cons.prems by (rule update_first_unique) (simp add: forget_def)
  have ids: "map r_roomId ?ys = map r_roomId xs"
    by (induction xs) (auto simp: forget_def)
  have "fold (\<lambda>r. update_first (\<lambda>x. r_roomId x = r_roomId r) (forget sock)) rs ?ys =
        map (\<lambda>x. if r_roomId x \<in> r_roomId ` set rs then forget sock x else x) ?ys"
  proof (rule Cons.IH)
    show "distinct (map r_roomId ?ys)" unfolding ids by (rule Cons.prems)
  qed
  also have "\<dots> = map (\<lambda>x. if r_roomId x \<in> r_roomId ` set (r # rs) then forget sock x else x) xs"
    by (induction xs) (auto simp: forget_def AList.delete_idem)
  finally show ?case using step by simp
qed

lemma forget_members:
  assumes "distinct (map r_roomId xs)"
  shows "fold (\<lambda>r. update_first (\<lambda>x. r_roomId x = r_roomId r) (forget sock))
            (filter (\<lambda>r. map_of (r_users r) sock \<noteq> None) xs) xs = map (forget sock) xs"
proof -
  have "(if r_roomId x \<in> r_roomId ` set (filter (\<lambda>r. map_of (r_users r) sock \<noteq> None) xs)
         then forget sock x else x) = forget sock x" if "x \<in> set xs" for x
  proof (cases "map_of (r_users x) sock")
    case None
    then have "sock \<notin> fst ` set (r_users x)" by (simp add: map_of_eq_None_iff)
    then have "forget sock x = x" by (simp add: forget_def)
    then show ?thesis by simp
  next
    case (Some a)
    with that show ?thesis by force
  qed
  then show ?thesis unfolding fold_forget [OF assms] by (simp cong: map_cong)
qed


lemma leave_all_rooms:
  assumes "distinct (map r_roomId (rooms_coll w))"
  shows "rooms_coll (leave_all sock (filter (\<lambda>r. map_of (r_users r) sock \<noteq> None) (rooms_coll w)) w)
         = map (forget sock) (rooms_coll w)"
  using forget_members [OF assms, of sock]
  by (simp add: leave_all_def forget_def [abs_def])

lemma leave_all_other [simp]:
  "fault (leave_all sock rs w) = fault w"
  "users_coll (leave_all sock rs w) = users_coll w"
  "outbox (leave_all sock rs w) = outbox w"
  "messages_coll (leave_all sock rs w) = messages_coll w"
  by (simp_all add: leave_all_def)

lemma find_forget:
  "find (\<lambda>r. r_roomId r = t) (map (forget sock) xs) = map_option (forget sock) (find (\<lambda>r. r_roomId r = t) xs)"
  by (induction xs) (auto simp: forget_def)

section \<open>The message counter of a room is bounded by the stored messages\<close>

lemma keeps_await: "keeps I m \<Longrightarrow> (\<And>x. keeps I (f x)) \<Longrightarrow> keeps I (await m f)"
  unfolding keeps_def await_def
  by (auto split: prod.splits sum.splits)

lemma keeps_db:
  assumes "\<And>w k. I (w\<lparr>fault := k\<rparr>) = I w" and "\<And>w. I w \<Longrightarrow> I (snd (oper w))"
  shows "keeps I (db oper)"
  unfolding keeps_def db_def using assms
  by (auto split: option.splits nat.splits)

lemma keeps_effect: "(\<And>w. I w \<Longrightarrow> I (f w)) \<Longrightarrow> keeps I (effect f)"
  by (simp add: keeps_def effect_def)

lemma keeps_done_ok: "keeps I done_ok"
  by (simp add: keeps_def done_ok_def)

lemma keeps_try_catch:
  "keeps I body \<Longrightarrow> (\<And>e w. I w \<Longrightarrow> I (handler e w)) \<Longrightarrow> I w \<Longrightarrow> I (try_catch body handler w)"
  unfolding keeps_def try_catch_def
  by (auto split: prod.splits sum.splits)

lemma count_bounded_fault [simp]: "count_bounded (w\<lparr>fault := k\<rparr>) = count_bounded w"
  by (simp add: count_bounded_def messages_in_def)

lemma list_all_update_first:
  "list_all Q xs \<Longrightarrow> (\<And>x. Q x \<Longrightarrow> Q (f x)) \<Longrightarrow> list_all Q (update_first P f xs)"
  by (induction xs) auto

lemma length_filter_update_first:
  "(\<And>x. g (f x) = g x) \<Longrightarrow>
   length (filter (\<lambda>x. g x = t) (update_first P f xs)) = length (filter (\<lambda>x. g x = t) xs)"
  by (induction xs) auto

lemma fold_same_store:
  assumes "\<And>x w. rooms_coll (f x w) = rooms_coll w \<and> messages_coll (f x w) = messages_coll w"
  shows "rooms_coll (fold f xs w) = rooms_coll w \<and> messages_coll (fold f xs w) = messages_coll w"
  using assms by (induction xs arbitrary: w) auto

lemma emit_store [simp]:
  "rooms_coll (socket_emit s ev w) = rooms_coll w" "messages_coll (socket_emit s ev w) = messages_coll w"
  "rooms_coll (io_emit ev w) = rooms_coll w" "messages_coll (io_emit ev w) = messages_coll w"
  "rooms_coll (io_to_emit l ev w) = rooms_coll w" "messages_coll (io_to_emit l ev w) = messages_coll w"
  "rooms_coll (socket_broadcast_emit s ev w) = rooms_coll w"
  "messages_coll (socket_broadcast_emit s ev w) = messages_coll w"
  "rooms_coll (socket_join s l w) = rooms_coll w" "messages_coll (socket_join s l w) = messages_coll w"
  "rooms_coll (socket_leave s l w) = rooms_coll w" "messages_coll (socket_leave s l w) = messages_coll w"
  by (simp_all add: socket_emit_def io_emit_def io_to_emit_def socket_broadcast_emit_def
        socket_join_def socket_leave_def)

lemma count_bounded_transport [simp]:
  "count_bounded (socket_emit s ev w) = count_bounded w"
  "count_bounded (io_emit ev w) = count_bounded w"
  "count_bounded (io_to_emit l ev w) = count_bounded w"
  "count_bounded (socket_broadcast_emit s ev w) = count_bounded w"
  "count_bounded (socket_join s l w) = count_bounded w"
  "count_bounded (socket_leave s l w) = count_bounded w"
  by (simp_all add: count_bounded_def messages_in_def)

lemma count_bounded_reads [simp]:
  "count_bounded (snd (User_findOne sid w)) = count_bounded w"
  "count_bounded (snd (User_find_online w)) = count_bounded w"
  "count_bounded (snd (User_find_others_in r sid w)) = count_bounded w"
  "count_bounded (snd (Room_findOne r w)) = count_bounded w"
  "count_bounded (snd (Room_find_all w)) = count_bounded w"
  "count_bounded (snd (Room_find_member sid w)) = count_bounded w"
  "count_bounded (snd (Message_countDocuments q w)) = count_bounded w"
  "count_bounded (snd (Message_find_page q a b w)) = count_bounded w"
  "count_bounded (snd (Message_find_search pcre p room w)) = count_bounded w"
  by (simp_all add: User_findOne_def User_find_online_def User_find_others_in_def
        Room_findOne_def Room_find_all_def Room_find_member_def Message_countDocuments_def
        Message_find_page_def Message_find_search_def split: option.splits)

lemma count_bounded_user_writes [simp]:
  "count_bounded (snd (User_upsert_join sid u now w)) = count_bounded w"
  "count_bounded (snd (User_set_currentRoom sid r w)) = count_bounded w"
  "count_bounded (snd (User_set_offline sid now w)) = count_bounded w"
  by (simp_all add: User_upsert_join_def User_set_currentRoom_def User_set_offline_def
        Let_def count_bounded_def messages_in_def)

lemma count_bounded_users_change:
  assumes "count_bounded w"
  shows "count_bounded (w\<lparr>rooms_coll := update_first P (\<lambda>r. r\<lparr>r_users := g r\<rparr>) (rooms_coll w)\<rparr>)"
proof -
  have "list_all (\<lambda>r. r_messageCount r \<le> int (messages_in (r_roomId r) w))
          (update_first P (\<lambda>r. r\<lparr>r_users := g r\<rparr>) (rooms_coll w))"
    using assms unfolding count_bounded_def by (rule list_all_update_first) simp
  then show ?thesis by (simp add: count_bounded_def messages_in_def)
qed

lemma count_bounded_member_writes:
  "count_bounded w \<Longrightarrow> count_bounded (snd (Room_set_user r sid u w))"
  "count_bounded w \<Longrightarrow> count_bounded (snd (Room_unset_user r sid w))"
  by (simp_all add: Room_set_user_def Room_unset_user_def count_bounded_users_change
        split: option.splits)

lemma count_bounded_unset_many:
  assumes "count_bounded w"
  shows "count_bounded (snd (Room_unset_user_many sid w))"
proof -
  have "list_all (\<lambda>r. r_messageCount r \<le> int (messages_in (r_roomId r) w))
          (map (\<lambda>r. if map_of (r_users r) sid \<noteq> None
                 then r\<lparr>r_users := AList.delete sid (r_users r)\<rparr> else r) (rooms_coll w))"
    using assms unfolding count_bounded_def by (induction "rooms_coll w") (auto simp: list_all_iff)
  then show ?thesis by (simp add: Room_unset_user_many_def count_bounded_def messages_in_def)
qed

lemma count_bounded_Room_create:
  "count_bounded w \<Longrightarrow> r_messageCount doc \<le> 0 \<Longrightarrow> count_bounded (snd (Room_create doc w))"
  by (auto simp: Room_create_def count_bounded_def messages_in_def)

lemma count_bounded_Message_create:
  "count_bounded w \<Longrightarrow> count_bounded (snd (Message_create p w))"
  by (auto simp: Message_create_def count_bounded_def messages_in_def Let_def list_all_iff)

lemma count_bounded_Message_update:
  "(\<And>m. m_room (f m) = m_room m) \<Longrightarrow> count_bounded w \<Longrightarrow>
   count_bounded (snd (Message_findByIdAndUpdate i f w))"
  by (simp add: Message_findByIdAndUpdate_def count_bounded_def messages_in_def Let_def
        length_filter_update_first split: client_id.splits)


lemma keeps_reads:
  "keeps count_bounded (db (User_findOne sid))"
  "keeps count_bounded (db User_find_online)"
  "keeps count_bounded (db (User_find_others_in r sid))"
  "keeps count_bounded (db (Room_findOne r))"
  "keeps count_bounded (db Room_find_all)"
  "keeps count_bounded (db (Room_find_member sid))"
  "keeps count_bounded (db (Message_countDocuments q))"
  "keeps count_bounded (db (Message_find_page q a b))"
  "keeps count_bounded (db (Message_find_search pcre p room))"
  "keeps count_bounded (db (User_upsert_join sid u now))"
  "keeps count_bounded (db (User_set_currentRoom sid r))"
  "keeps count_bounded (db (User_set_offline sid now))"
  by (rule keeps_db; simp)+

lemma keeps_writes:
  "keeps count_bounded (db (Room_set_user r sid name))"
  "keeps count_bounded (db (Room_unset_user r sid))"
  "keeps count_bounded (db (Room_unset_user_many sid))"
  "keeps count_bounded (db (Message_create p))"
  "r_messageCount doc \<le> 0 \<Longrightarrow> keeps count_bounded (db (Room_create doc))"
  "(\<And>m. m_room (f m) = m_room m) \<Longrightarrow> keeps count_bounded (db (Message_findByIdAndUpdate i f))"
  by (rule keeps_db; simp add: count_bounded_member_writes count_bounded_unset_many
        count_bounded_Message_create count_bounded_Room_create count_bounded_Message_update)+

lemma keeps_emits:
  "keeps count_bounded (effect (socket_emit s ev))"
  "keeps count_bounded (effect (io_emit ev))"
  "keeps count_bounded (effect (io_to_emit l ev))"
  "keeps count_bounded (effect (socket_broadcast_emit s ev))"
  "keeps count_bounded (effect (socket_join s l))"
  "keeps count_bounded (effect (socket_leave s l))"
  by (rule keeps_effect; simp)+

lemma count_bounded_fold:
  assumes "\<And>x w. count_bounded (f x w) = count_bounded w"
  shows "count_bounded (fold f xs w) = count_bounded w"
  using assms by (induction xs arbitrary: w) auto

lemma hoare_await:
  assumes "hoare P m Q E" and "\<And>x. hoare Q (f x) R E"
  shows "hoare P (await m f) R E"
  unfolding hoare_def
proof (intro allI impI)
  fix w assume "P w"
  obtain r w' where mw: "m w = (r, w')" by (cases "m w")
  from assms(1) \<open>P w\<close> mw have first: "case r of Inl e \<Rightarrow> E w' | Inr x \<Rightarrow> Q w'"
    by (auto simp: hoare_def)
  show "case await m f w of (Inl e, w') \<Rightarrow> E w' | (Inr x, w') \<Rightarrow> R w'"
  proof (cases r)
    case (Inl e)
    with first mw show ?thesis by (simp add: await_def)
  next
    case (Inr x)
    with first have "Q w'" by simp
    with assms(2) [of x] have "case f x w' of (Inl e, w'') \<Rightarrow> E w'' | (Inr y, w'') \<Rightarrow> R w''"
      by (simp add: hoare_def)
    with Inr mw show ?thesis by (simp add: await_def)
  qed
qed

lemma hoare_db:
  assumes "\<And>w k. P (w\<lparr>fault := k\<rparr>) = P w" and "\<And>w. P w \<Longrightarrow> E w"
    and "\<And>w. P w \<Longrightarrow> (case oper w of (Inl e, w') \<Rightarrow> E w' | (Inr x, w') \<Rightarrow> Q w')"
  shows "hoare P (db oper) Q E"
  unfolding hoare_def db_def using assms by (auto split: option.splits nat.splits)

lemma keeps_hoare: "keeps I m = hoare I m I I"
  unfolding keeps_def hoare_def
proof (rule iff_allI)
  fix w
  obtain r w' where "m w = (r, w')" by (cases "m w")
  then show "(I w \<longrightarrow> I (snd (m w))) =
             (I w \<longrightarrow> (case m w of (Inl e, w') \<Rightarrow> I w' | (Inr x, w') \<Rightarrow> I w'))"
    by (cases r) simp_all
qed

lemma count_slack_fault [simp]: "count_slack t (w\<lparr>fault := k\<rparr>) = count_slack t w"
  by (simp add: count_slack_def messages_in_def)

lemma count_slack_bounded:
  assumes "count_slack t w"
  shows "count_bounded w"
  unfolding count_bounded_def list_all_iff
proof
  fix r assume "r \<in> set (rooms_coll w)"
  with assms have "r_messageCount r + (if r_roomId r = t then 1 else 0)
                     \<le> int (messages_in (r_roomId r) w)"
    by (simp add: count_slack_def list_all_iff)
  then show "r_messageCount r \<le> int (messages_in (r_roomId r) w)"
    by (cases "r_roomId r = t") simp_all
qed

lemma messages_in_insert:
  "messages_in t (snd (Message_create p w)) = messages_in t w + (if m_room p = t then 1 else 0)"
  by (simp add: messages_in_def Message_create_def Let_def)

lemma rooms_after_insert: "rooms_coll (snd (Message_create p w)) = rooms_coll w"
  by (simp add: Message_create_def Let_def)

lemma slack_after_insert:
  assumes "count_bounded w"
  shows "count_slack (m_room p) (snd (Message_create p w))"
  unfolding count_slack_def list_all_iff rooms_after_insert
proof
  fix r assume "r \<in> set (rooms_coll w)"
  with assms have "r_messageCount r \<le> int (messages_in (r_roomId r) w)"
    by (simp add: count_bounded_def list_all_iff)
  then show "r_messageCount r + (if r_roomId r = m_room p then 1 else 0)
               \<le> int (messages_in (r_roomId r) (snd (Message_create p w)))"
    by (cases "r_roomId r = m_room p") (simp_all add: messages_in_insert)
qed

lemma increment_first:
  "list_all (\<lambda>r. r_messageCount r + (if r_roomId r = t then 1 else 0) \<le> c (r_roomId r)) xs \<Longrightarrow>
   list_all (\<lambda>r. r_messageCount r \<le> c (r_roomId r))
     (update_first (\<lambda>r. r_roomId r = t) (\<lambda>r. r\<lparr>r_messageCount := r_messageCount r + 1\<rparr>) xs)"
proof (induction xs)
  case Nil
  then show ?case by simp
next
  case (Cons x xs)
  have head: "r_messageCount x + (if r_roomId x = t then 1 else 0) \<le> c (r_roomId x)"
    and rest: "list_all (\<lambda>r. r_messageCount r + (if r_roomId r = t then 1 else 0) \<le> c (r_roomId r)) xs"
    using Cons.prems by simp_all
  show ?case
  proof (cases "r_roomId x = t")
    case True
    have "list_all (\<lambda>r. r_messageCount r \<le> c (r_roomId r)) xs"
      unfolding list_all_iff
    proof
      fix r assume "r \<in> set xs"
      with rest have "r_messageCount r + (if r_roomId r = t then 1 else 0) \<le> c (r_roomId r)"
        by (simp add: list_all_iff)
      then show "r_messageCount r \<le> c (r_roomId r)"
        by (cases "r_roomId r = t") simp_all
    qed
    with True head show ?thesis by simp
  next
    case False
    with head Cons.IH [OF rest] show ?thesis by simp
  qed
qed

lemma bounded_after_increment:
  assumes "count_slack t w"
  shows "count_bounded (snd (Room_inc_messageCount t w))"
proof -
  have "list_all (\<lambda>r. r_messageCount r \<le> int (messages_in (r_roomId r) w))
     (update_first (\<lambda>r. r_roomId r = t) (\<lambda>r. r\<lparr>r_messageCount := r_messageCount r + 1\<rparr>)
        (rooms_coll w))"
    using assms unfolding count_slack_def by (rule increment_first)
  then show ?thesis
    by (simp add: Room_inc_messageCount_def count_bounded_def messages_in_def)
qed

text \<open>The insert and the increment of \<^verbatim>\<open>send_message\<close>, taken together.\<close>

lemma keeps_insert_then_count:
  assumes "\<And>saved. keeps count_bounded (rest saved)"
  shows "keeps count_bounded
           (await (db (Message_create p)) (\<lambda>saved.
            await (db (Room_inc_messageCount (m_room p))) (\<lambda>u. rest saved)))"
proof -
  have one: "hoare count_bounded (db (Message_create p)) (count_slack (m_room p)) count_bounded"
  proof (rule hoare_db)
    fix w assume "count_bounded w"
    then have "count_slack (m_room p) (snd (Message_create p w))"
      by (rule slack_after_insert)
    then show "case Message_create p w of (Inl e, w') \<Rightarrow> count_bounded w'
               | (Inr x, w') \<Rightarrow> count_slack (m_room p) w'"
      by (simp add: Message_create_def Let_def)
  qed simp_all
  have two: "hoare (count_slack (m_room p)) (db (Room_inc_messageCount (m_room p)))
               count_bounded count_bounded"
  proof (rule hoare_db)
    fix w assume "count_slack (m_room p) w"
    then have "count_bounded (snd (Room_inc_messageCount (m_room p) w))"
      by (rule bounded_after_increment)
    then show "case Room_inc_messageCount (m_room p) w of (Inl e, w') \<Rightarrow> count_bounded w'
               | (Inr x, w') \<Rightarrow> count_bounded w'"
      by (simp add: Room_inc_messageCount_def)
  qed (simp_all add: count_slack_bounded)
  show ?thesis
    unfolding keeps_hoare
    by (rule hoare_await [OF one], rule hoare_await [OF two])
       (rule assms [unfolded keeps_hoare])
qed


lemma keeps_insert_then_count_at:
  assumes "t = m_room p" and "\<And>saved. keeps count_bounded (rest saved)"
  shows "keeps count_bounded
           (await (db (Message_create p)) (\<lambda>saved.
            await (db (Room_inc_messageCount t)) (\<lambda>u. rest saved)))"
  unfolding assms(1) using assms(2) by (rule keeps_insert_then_count)

lemma keeps_case_option:
  "keeps I g \<Longrightarrow> (\<And>x. keeps I (f x)) \<Longrightarrow> keeps I (case z of None \<Rightarrow> g | Some x \<Rightarrow> f x)"
  by (cases z) simp_all

lemma keeps_user_join: "keeps count_bounded (user_join_try sock username now)"
  unfolding user_join_try_def
  by (intro keeps_await keeps_reads keeps_writes keeps_emits)

lemma keeps_send_message: "keeps count_bounded (send_message_try sock text room now)"
  unfolding send_message_try_def Let_def
  apply (rule keeps_await, rule keeps_reads)
  apply (rule keeps_insert_then_count_at, simp)
  apply (intro keeps_await keeps_case_option keeps_reads keeps_emits keeps_effect)
  apply (simp add: count_bounded_fold)
  done

lemma keeps_create_room: "keeps count_bounded (create_room_try sock roomName now)"
  unfolding create_room_try_def Let_def
  by (intro keeps_await keeps_case_option keeps_reads keeps_writes keeps_emits keeps_done_ok)
     (simp add: Room_defaults_def)

lemma keeps_leave_rooms: "keeps count_bounded (leave_rooms sock rs)"
  by (induction rs) (auto intro!: keeps_await keeps_writes keeps_emits keeps_done_ok)

lemma keeps_join_room: "keeps count_bounded (join_room_try sock roomId)"
  unfolding join_room_try_def
  by (intro keeps_await keeps_case_option keeps_reads keeps_writes keeps_emits keeps_done_ok
        keeps_leave_rooms)

lemma keeps_typing: "keeps count_bounded (typing_try sock isTyping)"
  unfolding typing_try_def
  by (intro keeps_await keeps_case_option keeps_reads keeps_done_ok keeps_effect)
     (simp_all add: count_bounded_def messages_in_def)

lemma keeps_private_message: "keeps count_bounded (private_message_try sock to text now)"
  unfolding private_message_try_def Let_def
  by (intro keeps_await keeps_reads keeps_writes keeps_emits)

lemma keeps_add_reaction: "keeps count_bounded (add_reaction_try sock messageId reaction)"
  unfolding add_reaction_try_def
  by (intro keeps_await keeps_writes keeps_emits) simp

lemma keeps_message_read: "keeps count_bounded (message_read_try sock messageId)"
  unfolding message_read_try_def
  by (intro keeps_await keeps_writes keeps_emits) simp

lemma keeps_share_file: "keeps count_bounded (share_file_try sock fileData now)"
  unfolding share_file_try_def Let_def
  by (intro keeps_await keeps_reads keeps_writes keeps_emits keeps_effect)
     (simp add: count_bounded_fold)

lemma keeps_load_messages: "keeps count_bounded (load_messages_try sock a b c)"
  unfolding load_messages_try_def Let_def
  by (intro keeps_await keeps_reads keeps_emits)

lemma keeps_search_messages: "keeps count_bounded (search_messages_try pcre sock q r)"
  unfolding search_messages_try_def
  by (intro keeps_await keeps_reads keeps_emits)

lemma keeps_disconnect: "keeps count_bounded (disconnect_try sock now)"
  unfolding disconnect_try_def
  by (intro keeps_await keeps_case_option keeps_reads keeps_writes keeps_emits keeps_done_ok
        keeps_effect)
     (simp_all add: count_bounded_def messages_in_def)

lemma count_bounded_dispatch:
  assumes "count_bounded w"
  shows "count_bounded (dispatch pcre now sock ev w)"
proof (cases ev)
  case On_connection
  with assms show ?thesis by (simp add: connection_def count_bounded_def messages_in_def)
next
  case On_disconnect
  have closed: "count_bounded (transport_close sock w)"
    using assms by (simp add: transport_close_def count_bounded_def messages_in_def)
  show ?thesis unfolding On_disconnect dispatch.simps disconnect_def
    by (rule keeps_try_catch [OF keeps_disconnect _ closed]) simp
qed (simp_all add: user_join_def send_message_def create_room_def join_room_def typing_def
       private_message_def add_reaction_def message_read_def share_file_def load_messages_def
       search_messages_def assms
       keeps_try_catch [OF keeps_user_join] keeps_try_catch [OF keeps_send_message]
       keeps_try_catch [OF keeps_create_room] keeps_try_catch [OF keeps_join_room]
       keeps_try_catch [OF keeps_typing] keeps_try_catch [OF keeps_private_message]
       keeps_try_catch [OF keeps_add_reaction] keeps_try_catch [OF keeps_message_read]
       keeps_try_catch [OF keeps_share_file] keeps_try_catch [OF keeps_load_messages]
       keeps_try_catch [OF keeps_search_messages])

section \<open>Joining a room that does not exist\<close>

text \<open>
  C1, as the code has it. When no room has the identifier \<open>roomId\<close> and every store call is
  answered, \<^verbatim>\<open>join_room\<close> sends nothing at all (no \<^verbatim>\<open>room_joined\<close>, no \<^verbatim>\<open>error\<close>), but
  it has already taken the socket out of the member map of every room and set the user's
  \<^verbatim>\<open>currentRoom\<close> to \<open>roomId\<close>.
\<close>

theorem join_room_missing:
  assumes "fault w = None" and "unique_roomIds w"
    and "find (\<lambda>r. r_roomId r = roomId) (rooms_coll w) = None"
  shows "fst (join_room_try sock roomId w) = Inr ()
       \<and> outbox (join_room sock roomId w) = outbox w
       \<and> rooms_coll (join_room sock roomId w) = map (forget sock) (rooms_coll w)
       \<and> users_coll (join_room sock roomId w) =
           update_first (\<lambda>u. u_socketId u = sock) (\<lambda>u. u\<lparr>u_currentRoom := roomId\<rparr>) (users_coll w)"
proof -
  let ?rs = "filter (\<lambda>r. map_of (r_users r) sock \<noteq> None) (rooms_coll w)"
  let ?w1 = "leave_all sock ?rs w"
  let ?w3 = "socket_join sock roomId
               (?w1\<lparr>users_coll := update_first (\<lambda>u. u_socketId u = sock)
                    (\<lambda>u. u\<lparr>u_currentRoom := roomId\<rparr>) (users_coll w)\<rparr>)"
  have rooms1: "rooms_coll ?w1 = map (forget sock) (rooms_coll w)"
    using assms(2) unfolding unique_roomIds_def by (rule leave_all_rooms)
  have gone: "find (\<lambda>r. r_roomId r = roomId) (rooms_coll ?w1) = None"
    unfolding rooms1 find_forget using assms(3) by simp
  have loop: "leave_rooms sock ?rs w = (Inr (), ?w1)"
    using assms(1) by (rule leave_rooms_up)
  have members: "db (Room_find_member sock) w = (Inr ?rs, w)"
    using assms(1) by (simp add: db_up Room_find_member_def)
  have run: "join_room_try sock roomId w = (Inr (), ?w3)"
    unfolding join_room_try_def
    apply (subst await_ok [of "db (Room_find_member sock)" w, OF members])
    apply (subst await_ok [of "leave_rooms sock ?rs" w, OF loop])
    using assms(1) gone
    apply (simp add: await_def db_up User_set_currentRoom_def effect_def socket_join_def
             Room_findOne_def done_ok_def del: not_None_eq)
    done
  show ?thesis
    unfolding join_room_def try_catch_def run
    by (simp add: socket_join_def rooms1 del: not_None_eq)
qed

theorem join_room_missing_witness:
  "fault demo_world = None \<and> unique_roomIds demo_world
   \<and> find (\<lambda>r. r_roomId r = ''nowhere'') (rooms_coll demo_world) = None
   \<and> outbox (join_room ''s1'' ''nowhere'' demo_world) = []
   \<and> map r_users (rooms_coll (join_room ''s1'' ''nowhere'' demo_world)) = [[], []]
   \<and> map u_currentRoom (users_coll (join_room ''s1'' ''nowhere'' demo_world)) = [''nowhere'']"
proof -
  have h: "fault demo_world = None" "unique_roomIds demo_world"
    "find (\<lambda>r. r_roomId r = ''nowhere'') (rooms_coll demo_world) = None"
    by (simp_all add: demo_world_def unique_roomIds_def)
  from join_room_missing [OF h, of "''s1''"] h show ?thesis
    by (simp add: demo_world_def forget_def)
qed

theorem join_room_missing_counterexample:
  "map_of (r_users (hd (rooms_coll demo_world))) ''s1'' = Some ''alice''
   \<and> find (\<lambda>r. r_roomId r = ''nowhere'') (rooms_coll demo_world) = None
   \<and> map r_users (rooms_coll (join_room ''s1'' ''nowhere'' demo_world))
        \<noteq> map r_users (rooms_coll demo_world)
   \<and> map u_currentRoom (users_coll (join_room ''s1'' ''nowhere'' demo_world))
        \<noteq> map u_currentRoom (users_coll demo_world)"
  by code_simp

section \<open>Reacting to a message that is not stored\<close>

text \<open>
  C7, as the code has it. When the store answers the call: for an ObjectId that is the
  identifier of no stored message, \<^verbatim>\<open>add_reaction\<close> raises no error, leaves every stored
  message as it is, and sends \<^verbatim>\<open>reaction_added\<close> with the message id, the reaction and the
  reacting socket's id to every connected socket. For an id that does not cast to an
  ObjectId the store call throws, the \<^verbatim>\<open>catch\<close> only logs, and nothing is sent: no
  \<^verbatim>\<open>reaction_added\<close> and no \<^verbatim>\<open>error\<close>.
\<close>

theorem add_reaction_unknown_id:
  assumes "fault w \<noteq> Some 0"
  shows "((\<forall>m \<in> set (messages_coll w). m_id m \<noteq> i) \<longrightarrow>
            fst (add_reaction_try sock (ObjectId i) reaction w) = Inr ()
          \<and> messages_coll (add_reaction sock (ObjectId i) reaction w) = messages_coll w
          \<and> outbox (add_reaction sock (ObjectId i) reaction w) =
              outbox w @ map (\<lambda>s. (s, Reaction_added (ObjectId i) reaction sock)) (sockets w))
       \<and> fst (add_reaction_try sock (Not_an_id v) reaction w) = Inl CastError
       \<and> messages_coll (add_reaction sock (Not_an_id v) reaction w) = messages_coll w
       \<and> outbox (add_reaction sock (Not_an_id v) reaction w) = outbox w"
  using assms
  by (simp add: add_reaction_def add_reaction_try_def try_catch_def await_def db_passes
        effect_def Message_findByIdAndUpdate_def io_emit_def update_first_no_match Let_def)

theorem add_reaction_unknown_id_witness:
  "fault search_world \<noteq> Some 0
   \<and> map m_id (messages_coll search_world) = [1, 2, 3]
   \<and> list_all (\<lambda>m. m_id m \<noteq> 7) (messages_coll search_world)
   \<and> messages_coll (add_reaction ''s1'' (ObjectId 7) ''like'' search_world)
        = messages_coll search_world
   \<and> outbox (add_reaction ''s1'' (ObjectId 7) ''like'' search_world) =
        [(''s1'', Reaction_added (ObjectId 7) ''like'' ''s1''),
         (''s2'', Reaction_added (ObjectId 7) ''like'' ''s1'')]
   \<and> outbox (add_reaction ''s1'' (Not_an_id ''not-an-id'') ''like'' search_world) = []"
proof -
  have up: "fault search_world \<noteq> Some 0" by code_simp
  have ids: "map m_id (messages_coll search_world) = [1, 2, 3]" by code_simp
  have "list_all (\<lambda>m. m_id m \<noteq> 7) (messages_coll search_world)" by code_simp
  then have unknown: "\<forall>m \<in> set (messages_coll search_world). m_id m \<noteq> 7"
    by (simp only: list_all_iff)
  have socks: "sockets search_world = [''s1'', ''s2'']" and out: "outbox search_world = []"
    by code_simp+
  from add_reaction_unknown_id [OF up, of 7 "''s1''" "''like''" "''not-an-id''"] unknown
  show ?thesis using up ids socks out by (simp add: list_all_iff)
qed

theorem add_reaction_unknown_id_counterexample:
  "list_all (\<lambda>m. ObjectId (m_id m) \<noteq> Not_an_id ''not-an-id'') (messages_coll search_world)
   \<and> fst (add_reaction_try ''s1'' (Not_an_id ''not-an-id'') ''like'' search_world) = Inl CastError
   \<and> sockets search_world = [''s1'', ''s2'']
   \<and> outbox (add_reaction ''s1'' (Not_an_id ''not-an-id'') ''like'' search_world) = []
   \<and> messages_coll (add_reaction ''s1'' (Not_an_id ''not-an-id'') ''like'' search_world)
        = messages_coll search_world"
  by code_simp

section \<open>What \<^verbatim>\<open>send_message\<close> does to the counter\<close>

lemma find_update_first:
  "find P xs = Some x \<Longrightarrow> P (f x) \<Longrightarrow> find P (update_first P f xs) = Some (f x)"
  by (induction xs) (auto split: if_splits)

lemma send_message_store:
  assumes "fault w = None"
  shows "rooms_coll (send_message sock text room now w) =
           update_first (\<lambda>r. r_roomId r = or_else room ''general'')
             (\<lambda>r. r\<lparr>r_messageCount := r_messageCount r + 1\<rparr>) (rooms_coll w)"
    and "messages_in t (send_message sock text room now w) =
           messages_in t w + (if or_else room ''general'' = t then 1 else 0)"
  using assms
  by (simp_all add: send_message_def send_message_try_def try_catch_def await_def db_up
        User_findOne_def Message_create_def Room_inc_messageCount_def User_find_others_in_def
        effect_def Let_def messages_in_def Message_defaults_def
        socket_emit_def io_emit_def io_to_emit_def fold_same_store
        split: option.splits)


text \<open>
  C2, as the code has it. Whatever events arrive and whichever store calls fail, no room's
  \<^verbatim>\<open>messageCount\<close> exceeds the number of stored messages whose \<^verbatim>\<open>room\<close> is the room's
  identifier. A \<^verbatim>\<open>send_message\<close> whose store calls are answered stores one more message for
  its target room and, when the room exists, adds one to its \<^verbatim>\<open>messageCount\<close>.
\<close>

theorem messageCount_never_exceeds:
  "(count_bounded w \<longrightarrow> count_bounded (run pcre steps w))
   \<and> (fault w = None \<longrightarrow>
        messages_in (or_else room ''general'') (send_message sock text room now w) =
          messages_in (or_else room ''general'') w + 1
        \<and> (\<forall>rm. find (\<lambda>r. r_roomId r = or_else room ''general'') (rooms_coll w) = Some rm \<longrightarrow>
              find (\<lambda>r. r_roomId r = or_else room ''general'')
                (rooms_coll (send_message sock text room now w)) =
              Some (rm\<lparr>r_messageCount := r_messageCount rm + 1\<rparr>)))"
proof (intro conjI impI allI)
  assume "count_bounded w"
  then show "count_bounded (run pcre steps w)"
  proof (induction steps arbitrary: w)
    case Nil
    then show ?case by simp
  next
    case (Cons step steps)
    obtain now k sock ev where step: "step = (now, k, sock, ev)" by (cases step) auto
    have "count_bounded (w\<lparr>fault := k\<rparr>)" using Cons.prems by simp
    then have "count_bounded (dispatch pcre now sock ev (w\<lparr>fault := k\<rparr>))"
      by (rule count_bounded_dispatch)
    then show ?case unfolding step run.simps by (rule Cons.IH)
  qed
next
  assume "fault w = None"
  then show "messages_in (or_else room ''general'') (send_message sock text room now w) =
          messages_in (or_else room ''general'') w + 1"
    by (simp add: send_message_store)
next
  fix rm
  assume up: "fault w = None"
    and "find (\<lambda>r. r_roomId r = or_else room ''general'') (rooms_coll w) = Some rm"
  then have "find (\<lambda>r. r_roomId r = or_else room ''general'')
               (update_first (\<lambda>r. r_roomId r = or_else room ''general'')
                  (\<lambda>r. r\<lparr>r_messageCount := r_messageCount r + 1\<rparr>) (rooms_coll w)) =
             Some (rm\<lparr>r_messageCount := r_messageCount rm + 1\<rparr>)"
    by (intro find_update_first) (auto simp: find_Some_iff)
  then show "find (\<lambda>r. r_roomId r = or_else room ''general'')
                (rooms_coll (send_message sock text room now w)) =
              Some (rm\<lparr>r_messageCount := r_messageCount rm + 1\<rparr>)"
    using up by (simp add: send_message_store)
qed

theorem messageCount_never_exceeds_witness:
  "count_bounded demo_world
   \<and> count_bounded (run (\<lambda>p. None)
        [(9, None, ''s1'', On_send_message (Some ''hi'') None),
         (10, Some 2, ''s1'', On_send_message (Some ''yo'') (Some ''random'')),
         (11, None, ''s2'', On_share_file \<lparr>fd_name = Some ''a.png'', fd_url = Some ''/a.png'',
                              fd_type = Some ''image/png'', fd_room = Some ''general''\<rparr>)]
        demo_world)
   \<and> fault demo_world = None
   \<and> messages_in ''general'' (send_message ''s1'' (Some ''hi'') None 9 demo_world) = 1
   \<and> map r_messageCount (rooms_coll (send_message ''s1'' (Some ''hi'') None 9 demo_world)) = [1, 0]"
proof -
  have h: "count_bounded demo_world" by code_simp
  have up: "fault demo_world = None" by code_simp
  note inst = messageCount_never_exceeds [of demo_world "\<lambda>p. None"
        "[(9, None, ''s1'', On_send_message (Some ''hi'') None),
         (10, Some 2, ''s1'', On_send_message (Some ''yo'') (Some ''random'')),
         (11, None, ''s2'', On_share_file \<lparr>fd_name = Some ''a.png'', fd_url = Some ''/a.png'',
                              fd_type = Some ''image/png'', fd_room = Some ''general''\<rparr>)]"
        None "''s1''" "Some ''hi''" 9]
  have one: "messages_in ''general'' demo_world = 0" by code_simp
  have two: "map r_messageCount (rooms_coll (send_message ''s1'' (Some ''hi'') None 9 demo_world))
               = [1, 0]" by code_simp
  have gen: "or_else None ''general'' = ''general''" by code_simp
  from inst h up one two show ?thesis by (simp add: gen)
qed

theorem messageCount_counterexample:
  "(let w' = share_file ''s1'' \<lparr>fd_name = Some ''a.png'', fd_url = Some ''/a.png'',
                 fd_type = Some ''image/png'', fd_room = Some ''general''\<rparr> 9 demo_world
    in map (\<lambda>r. (r_roomId r, r_messageCount r, messages_in (r_roomId r) w')) (rooms_coll w')
         = [(''general'', 0, 1), (''random'', 0, 0)])
   \<and> (let w' = private_message ''s1'' ''s2'' ''psst'' 9 demo_world
      in map (\<lambda>r. (r_roomId r, r_messageCount r, messages_in (r_roomId r) w')) (rooms_coll w')
         = [(''general'', 0, 1), (''random'', 0, 0)])"
  by code_simp

section \<open>Store failures and the \<^verbatim>\<open>error\<close> event\<close>

subsection \<open>Counting the calls of an action\<close>

lemma fault_of_pure: "v = u\<lparr>fault := None\<rparr> \<Longrightarrow> fault v = None"
  by simp

lemma calls_db:
  assumes up: "fault w = None"
    and pure: "\<And>k. oper (w\<lparr>fault := k\<rparr>) = (fst (oper w), (snd (oper w))\<lparr>fault := k\<rparr>)"
    and out: "outbox (snd (oper w)) = outbox w"
  shows "calls (Suc 0) (db oper) w"
proof -
  have same: "w\<lparr>fault := None\<rparr> = w" using up by simp
  have run: "db oper w = oper w" using up by (simp add: db_def)
  have "snd (oper w) = (snd (oper w))\<lparr>fault := None\<rparr>"
    using pure [of None] unfolding same by (cases "oper w") simp
  then have none: "fault (snd (oper w)) = None" by (rule fault_of_pure)
  show ?thesis
    unfolding calls_def run
    using pure out none by (auto simp: db_def)
qed

lemma calls_effect:
  assumes up: "fault w = None"
    and pure: "\<And>k. g (w\<lparr>fault := k\<rparr>) = (g w)\<lparr>fault := k\<rparr>"
    and out: "\<exists>pre. outbox (g w) = outbox w @ pre"
  shows "calls 0 (effect g) w"
proof -
  have same: "w\<lparr>fault := None\<rparr> = w" using up by simp
  have "g w = (g w)\<lparr>fault := None\<rparr>" using pure [of None] unfolding same .
  then have none: "fault (g w) = None" by (rule fault_of_pure)
  show ?thesis
    unfolding calls_def using pure out none by (simp add: effect_def)
qed

lemma calls_done_ok: "fault w = None \<Longrightarrow> calls 0 done_ok w"
  by (simp add: calls_def done_ok_def)

lemma calls_await:
  assumes first: "calls a m w"
    and cont: "\<And>x. fst (m w) = Inr x \<Longrightarrow> calls b (f x) (snd (m w))"
    and rej: "\<And>e. fst (m w) = Inl e \<Longrightarrow> b = 0"
  shows "calls (a + b) (await m f) w"
proof -
  obtain r w1 where mw: "m w = (r, w1)" by (cases "m w")
  from first have early: "\<forall>k < a. \<exists>e w' pre. m (w\<lparr>fault := Some k\<rparr>) = (Inl e, w') \<and> outbox w' = outbox w @ pre"
    and late: "\<And>j. m (w\<lparr>fault := Some (a + j)\<rparr>) = (r, w1\<lparr>fault := Some j\<rparr>)"
    and up1: "fault w1 = None"
    and out1: "\<exists>pre. outbox w1 = outbox w @ pre"
    by (simp_all add: calls_def mw)
  show ?thesis
  proof (cases r)
    case (Inl e)
    then have b: "b = 0" using rej [of e] mw by simp
    have run: "await m f w = (Inl e, w1)" using mw Inl by (simp add: await_def)
    have one: "\<exists>e w' pre. await m f (w\<lparr>fault := Some k\<rparr>) = (Inl e, w') \<and> outbox w' = outbox w @ pre"
      if "k < a" for k
    proof -
      from early that obtain e w' pre where
        "m (w\<lparr>fault := Some k\<rparr>) = (Inl e, w')" "outbox w' = outbox w @ pre" by blast
      then show ?thesis by (simp add: await_def)
    qed
    have two: "await m f (w\<lparr>fault := Some (a + j)\<rparr>) = (Inl e, w1\<lparr>fault := Some j\<rparr>)" for j
      using late [of j] Inl by (simp add: await_def)
    show ?thesis
      unfolding calls_def b run using one two up1 out1 by simp
  next
    case (Inr x)
    have run: "await m f w = f x w1" using mw Inr by (simp add: await_def)
    from cont [of x] mw Inr have second: "calls b (f x) w1" by simp
    then have early2: "\<forall>k < b. \<exists>e w' pre. f x (w1\<lparr>fault := Some k\<rparr>) = (Inl e, w') \<and> outbox w' = outbox w1 @ pre"
      and late2: "\<And>j. f x (w1\<lparr>fault := Some (b + j)\<rparr>) = (fst (f x w1), (snd (f x w1))\<lparr>fault := Some j\<rparr>)"
      and up2: "fault (snd (f x w1)) = None"
      and out2: "\<exists>pre. outbox (snd (f x w1)) = outbox w1 @ pre"
      by (simp_all add: calls_def)
    have one: "\<exists>e w' pre. await m f (w\<lparr>fault := Some k\<rparr>) = (Inl e, w') \<and> outbox w' = outbox w @ pre"
      if "k < a + b" for k
    proof (cases "k < a")
      case True
      with early obtain e w' pre where "m (w\<lparr>fault := Some k\<rparr>) = (Inl e, w')" "outbox w' = outbox w @ pre"
        by blast
      then show ?thesis by (simp add: await_def)
    next
      case False
      then have "a \<le> k" by simp
      then obtain j where k: "k = a + j" by (auto simp: le_iff_add)
      have j: "j < b" using that k by simp
      from early2 j obtain e w' pre where
        "f x (w1\<lparr>fault := Some j\<rparr>) = (Inl e, w')" "outbox w' = outbox w1 @ pre" by blast
      moreover from out1 obtain pre1 where "outbox w1 = outbox w @ pre1" by blast
      ultimately have "await m f (w\<lparr>fault := Some (a + j)\<rparr>) = (Inl e, w')"
        and "outbox w' = outbox w @ (pre1 @ pre)"
        by (simp_all add: await_def late Inr)
      then show ?thesis unfolding k by blast
    qed
    have two: "await m f (w\<lparr>fault := Some (a + b + j)\<rparr>) =
                 (fst (f x w1), (snd (f x w1))\<lparr>fault := Some j\<rparr>)" for j
    proof -
      have "await m f (w\<lparr>fault := Some (a + (b + j))\<rparr>) = f x (w1\<lparr>fault := Some (b + j)\<rparr>)"
        using late [of "b + j"] Inr by (simp add: await_def)
      then show ?thesis using late2 [of j] by (simp only: add.assoc)
    qed
    from out1 obtain pre1 where "outbox w1 = outbox w @ pre1" by blast
    moreover from out2 obtain pre2 where "outbox (snd (f x w1)) = outbox w1 @ pre2" by blast
    ultimately have "outbox (snd (f x w1)) = outbox w @ (pre1 @ pre2)" by simp
    then have three: "\<exists>pre. outbox (snd (f x w1)) = outbox w @ pre" by blast
    show ?thesis
      unfolding calls_def run
    proof (intro conjI allI impI)
      fix k assume "k < a + b"
      then show "\<exists>e w' pre. await m f (w\<lparr>fault := Some k\<rparr>) = (Inl e, w') \<and> outbox w' = outbox w @ pre"
        by (rule one)
    next
      fix j show "await m f (w\<lparr>fault := Some (a + b + j)\<rparr>) =
                 (fst (f x w1), (snd (f x w1))\<lparr>fault := Some j\<rparr>)" by (rule two)
    qed (rule up2, rule three)
  qed
qed

lemma calls_db_then:
  assumes up: "fault w = None"
    and pure: "\<And>k. oper (w\<lparr>fault := k\<rparr>) = (fst (oper w), (snd (oper w))\<lparr>fault := k\<rparr>)"
    and out: "outbox (snd (oper w)) = outbox w"
    and cont: "\<And>x. fst (oper w) = Inr x \<Longrightarrow> calls n (f x) (snd (oper w))"
    and rej: "\<And>e. fst (oper w) = Inl e \<Longrightarrow> n = 0"
  shows "calls (Suc n) (await (db oper) f) w"
proof -
  have run: "db oper w = oper w" using up by (simp add: db_def)
  have "calls (Suc 0 + n) (await (db oper) f) w"
    by (rule calls_await [OF calls_db [OF up pure out]]) (simp_all add: run cont rej)
  then show ?thesis by simp
qed

lemma calls_effect_then:
  assumes up: "fault w = None"
    and pure: "\<And>k. g (w\<lparr>fault := k\<rparr>) = (g w)\<lparr>fault := k\<rparr>"
    and out: "\<exists>pre. outbox (g w) = outbox w @ pre"
    and cont: "calls n (f ()) (g w)"
  shows "calls n (await (effect g) f) w"
proof -
  have "calls (0 + n) (await (effect g) f) w"
    by (rule calls_await [OF calls_effect [OF up pure out]]) (simp_all add: effect_def cont)
  then show ?thesis by simp
qed


lemma await_assoc: "await (await m f) g = await m (\<lambda>x. await (f x) g)"
  by (rule ext) (simp add: await_def split: prod.splits sum.splits)

lemmas store_defs =
  User_findOne_def User_upsert_join_def User_set_currentRoom_def User_set_offline_def
  User_find_online_def User_find_others_in_def Room_findOne_def Room_find_all_def
  Room_find_member_def Room_set_user_def Room_unset_user_def Room_unset_user_many_def
  Room_inc_messageCount_def Room_create_def Message_create_def Message_findByIdAndUpdate_def
  Message_countDocuments_def Message_find_page_def Message_find_search_def

lemmas transport_defs =
  socket_emit_def io_emit_def io_to_emit_def socket_broadcast_emit_def socket_join_def
  socket_leave_def

lemma small_numerals: "4 = Suc (Suc (Suc (Suc 0)))" "3 = Suc (Suc (Suc 0))" "2 = Suc (Suc 0)" "1 = Suc 0"
  by simp_all

lemma calls_user_join:
  "fault w = None \<Longrightarrow>
   calls (store_calls sock (On_user_join username) w) (user_join_try sock username now) w"
  unfolding user_join_try_def store_calls.simps small_numerals
  by (intro calls_db_then calls_effect_then calls_effect)
     (simp_all add: store_defs transport_defs Let_def)


lemma fold_io_to_emit:
  "fold (\<lambda>u. io_to_emit (f u) (ev u)) us v =
   v\<lparr>outbox := outbox v @
        concat (map (\<lambda>u. map (\<lambda>s. (s, ev u)) (filter (\<lambda>s. (s, f u) \<in> set (subs v)) (sockets v))) us)\<rparr>"
  by (induction us arbitrary: v) (simp_all add: io_to_emit_def)

lemma calls_send_message:
  "fault w = None \<Longrightarrow>
   calls (store_calls sock (On_send_message body room) w) (send_message_try sock body room now) w"
proof (cases "truthy_string room")
  case None
  assume "fault w = None"
  then show ?thesis
    unfolding send_message_try_def Let_def store_calls.simps None option.case small_numerals
    by (intro calls_db_then calls_effect_then calls_effect)
       (simp_all add: store_defs transport_defs Let_def)
next
  case (Some r)
  assume "fault w = None"
  then show ?thesis
    unfolding send_message_try_def Let_def store_calls.simps Some option.case small_numerals await_assoc
    apply (intro calls_db_then calls_effect_then calls_effect)
    apply (simp_all add: store_defs Let_def socket_emit_def io_emit_def fold_io_to_emit)
    apply (simp_all add: io_to_emit_def)
    done
qed

lemma calls_private_message:
  "fault w = None \<Longrightarrow>
   calls (store_calls sock (On_private_message recipient body) w)
     (private_message_try sock recipient body now) w"
  unfolding private_message_try_def Let_def store_calls.simps small_numerals
  by (intro calls_db_then calls_effect_then calls_effect)
     (simp_all add: store_defs transport_defs Let_def)

lemma calls_share_file:
  "fault w = None \<Longrightarrow>
   calls (store_calls sock (On_share_file fileData) w) (share_file_try sock fileData now) w"
  unfolding share_file_try_def Let_def store_calls.simps small_numerals
  by (intro calls_db_then calls_effect_then calls_effect)
     (simp_all add: store_defs transport_defs Let_def io_sockets_sockets_def)

lemma calls_search_messages:
  "fault w = None \<Longrightarrow>
   calls (store_calls sock (On_search_messages query roomId) w)
     (search_messages_try pcre sock query roomId) w"
  unfolding search_messages_try_def store_calls.simps small_numerals
  by (intro calls_db_then calls_effect_then calls_effect)
     (simp_all add: store_defs transport_defs split: option.splits)

lemma calls_case_option:
  "(z = None \<Longrightarrow> calls n g w) \<Longrightarrow> (\<And>x. z = Some x \<Longrightarrow> calls n (f x) w) \<Longrightarrow>
   calls n (case z of None \<Rightarrow> g | Some x \<Rightarrow> f x) w"
  by (cases z) simp_all

lemma calls_typing:
  assumes up: "fault w = None"
  shows "calls (store_calls sock (On_typing isTyping) w) (typing_try sock isTyping) w"
  unfolding typing_try_def store_calls.simps small_numerals
proof (rule calls_db_then)
  fix x :: "user option"
  show "calls 0
          (case x of
             None \<Rightarrow> done_ok
           | Some u \<Rightarrow>
               await (effect (\<lambda>w. w\<lparr>typingUsers :=
                        (if isTyping then AList.update sock (u_username u) (typingUsers w)
                         else AList.delete sock (typingUsers w))\<rparr>)) (\<lambda>_.
               effect (\<lambda>w. io_emit (Typing_users (Object_values (PlainObject (typingUsers w)))) w)))
          (snd (User_findOne sock w))"
    by (rule calls_case_option; intro calls_done_ok calls_effect_then calls_effect)
       (simp_all add: store_defs transport_defs up)
qed (simp_all add: store_defs up)

lemma calls_add_reaction:
  "fault w = None \<Longrightarrow>
   calls (store_calls sock (On_add_reaction messageId reaction) w)
     (add_reaction_try sock messageId reaction) w"
  unfolding add_reaction_try_def store_calls.simps small_numerals
  by (intro calls_db_then calls_effect_then calls_effect)
     (simp_all add: store_defs transport_defs Let_def split: client_id.splits)

lemma calls_message_read:
  "fault w = None \<Longrightarrow>
   calls (store_calls sock (On_message_read messageId) w) (message_read_try sock messageId) w"
  unfolding message_read_try_def store_calls.simps small_numerals
  by (intro calls_db_then calls_effect_then calls_effect)
     (simp_all add: store_defs transport_defs Let_def split: client_id.splits)


lemma calls_create_room:
  assumes up: "fault w = None"
  shows "calls (store_calls sock (On_create_room roomName) w) (create_room_try sock roomName now) w"
proof (cases "find (\<lambda>r. r_roomId r = derive_roomId roomName) (rooms_coll w)")
  case (Some r)
  then have n: "store_calls sock (On_create_room roomName) w = Suc 0" by simp
  show ?thesis
    unfolding create_room_try_def Let_def n
    by (rule calls_db_then; clarsimp simp: store_defs up Some calls_done_ok)
next
  case None
  then have absent: "\<not> list_ex (\<lambda>r. r_roomId r = derive_roomId roomName) (rooms_coll w)"
    by (simp add: find_None_iff list_ex_iff)
  show ?thesis
  proof (cases "roomName = []")
    case True
    with None have n: "store_calls sock (On_create_room roomName) w = Suc (Suc 0)" by simp
    show ?thesis
      unfolding create_room_try_def Let_def n
      apply (rule calls_db_then; clarsimp simp: store_defs up None)
      apply (rule calls_db_then; clarsimp simp: store_defs up None True)
      done
  next
    case False
    with None have n: "store_calls sock (On_create_room roomName) w = Suc (Suc (Suc 0))" by simp
    show ?thesis
      unfolding create_room_try_def Let_def n
      apply (rule calls_db_then; clarsimp simp: store_defs up None)
      apply (rule calls_db_then; clarsimp simp: store_defs up None absent False
               derive_roomId_nonempty)
      apply (intro calls_db_then calls_effect_then calls_effect)
      apply (simp_all add: store_defs transport_defs up)
      done
  qed
qed


lemma map_update_first: "(\<And>x. g (f x) = g x) \<Longrightarrow> map g (update_first P f xs) = map g xs"
  by (induction xs) auto

lemma leave_all_ids:
  "map r_roomId (rooms_coll (leave_all sock rs w)) = map r_roomId (rooms_coll w)"
proof -
  have "map r_roomId (fold (\<lambda>r. update_first (\<lambda>x. r_roomId x = r_roomId r)
                          (\<lambda>x. x\<lparr>r_users := AList.delete sock (r_users x)\<rparr>)) rs xs) = map r_roomId xs"
    for xs :: "room list"
    by (induction rs arbitrary: xs) (simp_all add: map_update_first)
  then show ?thesis by (simp add: leave_all_def)
qed

lemma find_None_ids:
  "(find (\<lambda>r. r_roomId r = t) xs = None) = (t \<notin> set (map r_roomId xs))"
  by (auto simp: find_None_iff)

lemma calls_leave_rooms:
  "fault w = None \<Longrightarrow> calls (length rs) (leave_rooms sock rs) w"
proof (induction rs arbitrary: w)
  case Nil
  then show ?case by (simp add: calls_done_ok)
next
  case (Cons r rs)
  show ?case
    unfolding leave_rooms.simps length_Cons
    by (intro calls_effect_then calls_db_then Cons.IH)
       (simp_all add: Cons.prems store_defs transport_defs)
qed

lemma calls_after_loop:
  assumes up: "fault w = None" and rest: "calls b (f ()) (leave_all sock rs w)"
  shows "calls (length rs + b) (await (leave_rooms sock rs) f) w"
  by (rule calls_await [OF calls_leave_rooms [OF up]])
     (simp_all add: leave_rooms_up [OF up] rest)

lemma socket_join_pure:
  "socket_join s l (w\<lparr>fault := k\<rparr>) = (socket_join s l w)\<lparr>fault := k\<rparr>"
  "fault (socket_join s l w) = fault w" "outbox (socket_join s l w) = outbox w"
  "users_coll (socket_join s l w) = users_coll w"
  by (simp_all add: socket_join_def)

lemma calls_join_room:
  assumes up: "fault w = None"
  shows "calls (store_calls sock (On_join_room roomId) w) (join_room_try sock roomId) w"
proof (cases "find (\<lambda>r. r_roomId r = roomId) (rooms_coll w)")
  case None
  define rs where "rs = filter (\<lambda>r. map_of (r_users r) sock \<noteq> None) (rooms_coll w)"
  have n: "store_calls sock (On_join_room roomId) w = Suc (length rs + Suc (Suc 0))"
    using None by (simp add: rs_def)
  have gone: "find (\<lambda>r. r_roomId r = roomId) (rooms_coll (leave_all sock rs w)) = None"
    using None unfolding find_None_ids leave_all_ids .
  show ?thesis
    unfolding join_room_try_def n
    apply (rule calls_db_then; clarsimp simp: store_defs up rs_def [symmetric] simp del: not_None_eq)
    apply (rule calls_after_loop [where b = "Suc (Suc 0)", simplified], rule up)
    apply (rule calls_db_then; clarsimp simp: store_defs up)
    apply (rule calls_effect_then; (simp add: socket_join_pure up)?)
    apply (rule calls_db_then; clarsimp simp: store_defs socket_join_pure up gone calls_done_ok)
    done
next
  case (Some r)
  define rs where "rs = filter (\<lambda>r. map_of (r_users r) sock \<noteq> None) (rooms_coll w)"
  have n: "store_calls sock (On_join_room roomId) w = Suc (length rs + Suc (Suc (Suc (Suc 0))))"
    using Some by (simp add: rs_def)
  have "find (\<lambda>r. r_roomId r = roomId) (rooms_coll w) \<noteq> None" using Some by simp
  then have "find (\<lambda>r. r_roomId r = roomId) (rooms_coll (leave_all sock rs w)) \<noteq> None"
    unfolding find_None_ids leave_all_ids .
  then obtain r' where there: "find (\<lambda>r. r_roomId r = roomId) (rooms_coll (leave_all sock rs w)) = Some r'"
    by blast
  show ?thesis
    unfolding join_room_try_def n
    apply (rule calls_db_then; clarsimp simp: store_defs up rs_def [symmetric] simp del: not_None_eq)
    apply (rule calls_after_loop [where b = "Suc (Suc (Suc (Suc 0)))", simplified], rule up)
    apply (rule calls_db_then; clarsimp simp: store_defs up)
    apply (rule calls_effect_then; (simp add: socket_join_pure up)?)
    apply (rule calls_db_then; clarsimp simp: store_defs socket_join_pure up there)
    apply (intro calls_db_then calls_effect_then calls_effect)
    apply (simp_all add: store_defs socket_join_pure socket_emit_def io_to_emit_def up
             split: option.splits)
    done
qed


lemma cursor_rejects:
  "cursor_skip_limit a b [] = Inl e \<Longrightarrow> cursor_skip_limit a b xs = Inl e"
  "cursor_skip_limit a b [] = Inr p \<Longrightarrow> \<exists>q. cursor_skip_limit a b xs = Inr q"
  by (cases a; cases b; auto split: if_splits)+

lemma calls_load_messages:
  assumes up: "fault w = None"
  shows "calls (store_calls sock (On_load_messages a b c) w) (load_messages_try sock a b c) w"
proof -
  define offset where "offset = (case a of None \<Rightarrow> Num 0 | Some n \<Rightarrow> n)"
  define limit where "limit = (case b of None \<Rightarrow> Num 50 | Some n \<Rightarrow> n)"
  define q where "q = room_query (case c of None \<Rightarrow> ''general'' | Some r \<Rightarrow> r)"
  have block: "load_messages_try sock a b c =
      await (db (Message_find_page q offset limit)) (\<lambda>messages.
      await (db (Message_countDocuments q)) (\<lambda>totalCount.
      effect (socket_emit sock
        (Messages_loaded (rev messages)
           (js_less (js_add offset limit) (Num (int totalCount)))))))"
    by (simp add: load_messages_try_def offset_def limit_def q_def Let_def)
  show ?thesis
  proof (cases "cursor_skip_limit offset limit ([] :: message list)")
    case (Inl e)
    then have n: "store_calls sock (On_load_messages a b c) w = Suc 0"
      by (simp add: offset_def limit_def)
    show ?thesis
      unfolding block n
      by (rule calls_db_then; clarsimp simp: store_defs up cursor_rejects(1) [OF Inl])
  next
    case (Inr p)
    then have n: "store_calls sock (On_load_messages a b c) w = Suc (Suc 0)"
      by (simp add: offset_def limit_def)
    from cursor_rejects(2) [OF Inr] obtain page where
      page: "cursor_skip_limit offset limit (sort_newest_first (filter q (messages_coll w))) = Inr page"
      by blast
    show ?thesis
      unfolding block n
      apply (rule calls_db_then; clarsimp simp: store_defs up page)
      apply (intro calls_db_then calls_effect_then calls_effect)
      apply (simp_all add: store_defs transport_defs up)
      done
  qed
qed

lemma await_done_ok: "await done_ok f = f ()"
  by (rule ext) (simp add: await_def done_ok_def)

lemma calls_disconnect:
  assumes up: "fault w = None"
  shows "calls (store_calls sock On_disconnect w) (disconnect_try sock now) w"
proof (cases "find (\<lambda>u. u_socketId u = sock) (users_coll w)")
  case None
  then have n: "store_calls sock On_disconnect w = Suc (Suc 0)" by simp
  show ?thesis
    unfolding disconnect_try_def n
    apply (rule calls_db_then; clarsimp simp: store_defs up None)
    apply (simp only: await_done_ok)
    apply (intro calls_db_then calls_effect_then calls_effect)
    apply (simp_all add: store_defs transport_defs up)
    done
next
  case (Some u)
  then have n: "store_calls sock On_disconnect w = Suc (Suc (Suc 0))" by simp
  show ?thesis
    unfolding disconnect_try_def n
    apply (rule calls_db_then; clarsimp simp: store_defs up Some)
    apply (simp only: await_assoc)
    apply (intro calls_db_then calls_effect_then calls_effect)
    apply (simp_all add: store_defs transport_defs up)
    done
qed

lemma calls_try_block:
  assumes up: "fault w = None"
  shows "calls (store_calls sock ev w) (try_block pcre now sock ev) w"
proof (cases ev)
  case On_connection
  then show ?thesis by (simp add: calls_done_ok up)
qed (simp_all add: calls_user_join calls_send_message calls_create_room calls_join_room
       calls_typing calls_private_message calls_add_reaction calls_message_read calls_share_file
       calls_load_messages calls_search_messages calls_disconnect up
       del: store_calls.simps)


lemma store_calls_fault [simp]: "store_calls sock ev (w\<lparr>fault := k\<rparr>) = store_calls sock ev w"
  by (cases ev) simp_all

lemma handler_reports:
  assumes "error_reporting ev" and "try_block pcre now sock ev w = (Inl e, w')"
  shows "\<exists>msg. dispatch pcre now sock ev w = socket_emit sock (Error msg) w'"
  using assms
  apply (cases ev)
  apply (simp_all add: user_join_def send_message_def create_room_def join_room_def
        private_message_def share_file_def load_messages_def search_messages_def try_catch_def)
  apply blast+
  done

text \<open>
  C3, as the code has it. Take one of the handlers of \<^verbatim>\<open>user_join\<close>, \<^verbatim>\<open>send_message\<close>,
  \<^verbatim>\<open>create_room\<close>, \<^verbatim>\<open>join_room\<close>, \<^verbatim>\<open>private_message\<close>, \<^verbatim>\<open>share_file\<close>,
  \<^verbatim>\<open>load_messages\<close> and \<^verbatim>\<open>search_messages\<close>, and a store that lets \<open>k\<close> calls through and
  fails the next. When the handler makes more than \<open>k\<close> store calls, so that one of its
  calls fails, the socket that sent the request gets an \<^verbatim>\<open>error\<close> event, after whatever
  the handler had sent before. When it makes \<open>k\<close> calls or fewer, none of its calls fails:
  its \<^verbatim>\<open>try\<close> block runs as with a store that never fails and uses up exactly
  \<open>store_calls\<close> of the \<open>k\<close>.
\<close>

theorem store_failure_reported:
  assumes "error_reporting ev" and "fault w = Some k"
  shows "(k < store_calls sock ev w \<longrightarrow>
            (\<exists>pre msg. outbox (dispatch pcre now sock ev w) = outbox w @ pre @ [(sock, Error msg)]))
       \<and> (store_calls sock ev w \<le> k \<longrightarrow>
            try_block pcre now sock ev w =
              (fst (try_block pcre now sock ev (w\<lparr>fault := None\<rparr>)),
               (snd (try_block pcre now sock ev (w\<lparr>fault := None\<rparr>)))
                 \<lparr>fault := Some (k - store_calls sock ev w)\<rparr>))"
proof -
  let ?v = "w\<lparr>fault := None\<rparr>"
  have w: "w = ?v\<lparr>fault := Some k\<rparr>" using assms(2) by simp
  have "calls (store_calls sock ev ?v) (try_block pcre now sock ev) ?v"
    by (rule calls_try_block) simp
  then have counted: "calls (store_calls sock ev w) (try_block pcre now sock ev) ?v" by simp
  have early: "\<exists>pre msg. outbox (dispatch pcre now sock ev w) = outbox w @ pre @ [(sock, Error msg)]"
    if "k < store_calls sock ev w"
  proof -
    from counted that obtain e w' pre where
      "try_block pcre now sock ev (?v\<lparr>fault := Some k\<rparr>) = (Inl e, w')"
      and out: "outbox w' = outbox ?v @ pre"
      unfolding calls_def by blast
    then have thrown: "try_block pcre now sock ev w = (Inl e, w')" using w by simp
    from handler_reports [OF assms(1) thrown] obtain msg where
      "dispatch pcre now sock ev w = socket_emit sock (Error msg) w'" by blast
    then have "outbox (dispatch pcre now sock ev w) = outbox w @ pre @ [(sock, Error msg)]"
      using out by (simp add: socket_emit_def)
    then show ?thesis by blast
  qed
  have late: "try_block pcre now sock ev w =
              (fst (try_block pcre now sock ev ?v),
               (snd (try_block pcre now sock ev ?v))\<lparr>fault := Some (k - store_calls sock ev w)\<rparr>)"
    if "store_calls sock ev w \<le> k"
  proof -
    from that obtain j where k: "k = store_calls sock ev w + j" by (auto simp: le_iff_add)
    from counted have "try_block pcre now sock ev (?v\<lparr>fault := Some (store_calls sock ev w + j)\<rparr>) =
        (fst (try_block pcre now sock ev ?v), (snd (try_block pcre now sock ev ?v))\<lparr>fault := Some j\<rparr>)"
      unfolding calls_def by blast
    then show ?thesis using w k by simp
  qed
  from early late show ?thesis by blast
qed

theorem store_failure_reported_witness:
  "error_reporting (On_send_message (Some ''hi'') (Some ''general''))
   \<and> fault (demo_world\<lparr>fault := Some 3\<rparr>) = Some 3
   \<and> store_calls ''s1'' (On_send_message (Some ''hi'') (Some ''general''))
         (demo_world\<lparr>fault := Some 3\<rparr>) = 4
   \<and> (\<exists>pre msg.
         outbox (dispatch (\<lambda>p. None) 9 ''s1'' (On_send_message (Some ''hi'') (Some ''general''))
                   (demo_world\<lparr>fault := Some 3\<rparr>))
           = outbox (demo_world\<lparr>fault := Some 3\<rparr>) @ pre @ [(''s1'', Error msg)])
   \<and> map (\<lambda>(s, ev). (s, case ev of Error msg \<Rightarrow> msg | Receive_message m \<Rightarrow> m_message m | _ \<Rightarrow> []))
         (outbox (dispatch (\<lambda>p. None) 9 ''s1'' (On_send_message (Some ''hi'') (Some ''general''))
                   (demo_world\<lparr>fault := Some 3\<rparr>)))
         = [(''s1'', ''hi''), (''s1'', ''Failed to send message'')]
   \<and> outbox (dispatch (\<lambda>p. None) 9 ''s1'' (On_send_message (Some ''hi'') (Some ''general''))
                   (demo_world\<lparr>fault := Some 2\<rparr>))
         = [(''s1'', Error ''Failed to send message'')]
   \<and> length (messages_coll
         (dispatch (\<lambda>p. None) 9 ''s1'' (On_send_message (Some ''hi'') (Some ''general''))
            (demo_world\<lparr>fault := Some 2\<rparr>))) = 1
   \<and> store_calls ''s1'' (On_join_room ''random'') demo_world = 6
   \<and> outbox (dispatch (\<lambda>p. None) 9 ''s1'' (On_join_room ''random'')
                   (demo_world\<lparr>fault := Some 5\<rparr>))
         = [(''s1'', Error ''Failed to join room'')]
   \<and> outbox (dispatch (\<lambda>p. None) 9 ''s1'' (On_join_room ''random'')
                   (demo_world\<lparr>fault := Some 6\<rparr>))
         = outbox (dispatch (\<lambda>p. None) 9 ''s1'' (On_join_room ''random'') demo_world)"
proof -
  have a: "error_reporting (On_send_message (Some ''hi'') (Some ''general''))" by simp
  have b: "fault (demo_world\<lparr>fault := Some 3\<rparr>) = Some 3" by simp
  have c: "store_calls ''s1'' (On_send_message (Some ''hi'') (Some ''general''))
         (demo_world\<lparr>fault := Some 3\<rparr>) = 4" by code_simp
  have d: "map (\<lambda>(s, ev). (s, case ev of Error msg \<Rightarrow> msg | Receive_message m \<Rightarrow> m_message m | _ \<Rightarrow> []))
         (outbox (dispatch (\<lambda>p. None) 9 ''s1'' (On_send_message (Some ''hi'') (Some ''general''))
                   (demo_world\<lparr>fault := Some 3\<rparr>)))
         = [(''s1'', ''hi''), (''s1'', ''Failed to send message'')]" by code_simp
  have e: "outbox (dispatch (\<lambda>p. None) 9 ''s1'' (On_send_message (Some ''hi'') (Some ''general''))
                   (demo_world\<lparr>fault := Some 2\<rparr>))
         = [(''s1'', Error ''Failed to send message'')]" by code_simp
  have f: "length (messages_coll
         (dispatch (\<lambda>p. None) 9 ''s1'' (On_send_message (Some ''hi'') (Some ''general''))
            (demo_world\<lparr>fault := Some 2\<rparr>))) = 1" by code_simp
  have g: "store_calls ''s1'' (On_join_room ''random'') demo_world = 6" by code_simp
  have h: "outbox (dispatch (\<lambda>p. None) 9 ''s1'' (On_join_room ''random'')
                   (demo_world\<lparr>fault := Some 5\<rparr>))
         = [(''s1'', Error ''Failed to join room'')]" by code_simp
  have i: "outbox (dispatch (\<lambda>p. None) 9 ''s1'' (On_join_room ''random'')
                   (demo_world\<lparr>fault := Some 6\<rparr>))
         = outbox (dispatch (\<lambda>p. None) 9 ''s1'' (On_join_room ''random'') demo_world)"
    by code_simp
  from store_failure_reported [OF a b, of "''s1''" "\<lambda>p. None" 9] c
  have "\<exists>pre msg.
         outbox (dispatch (\<lambda>p. None) 9 ''s1'' (On_send_message (Some ''hi'') (Some ''general''))
                   (demo_world\<lparr>fault := Some 3\<rparr>))
           = outbox (demo_world\<lparr>fault := Some 3\<rparr>) @ pre @ [(''s1'', Error msg)]"
    by simp
  with a b c d e f g h i show ?thesis by blast
qed

theorem store_failure_reported_counterexample:
  "fault (demo_world\<lparr>fault := Some 0\<rparr>) = Some 0
   \<and> 0 < store_calls ''s1'' (On_typing True) (demo_world\<lparr>fault := Some 0\<rparr>)
   \<and> fst (typing_try ''s1'' True (demo_world\<lparr>fault := Some 0\<rparr>)) = Inl StoreUnavailable
   \<and> outbox (typing ''s1'' True (demo_world\<lparr>fault := Some 0\<rparr>)) = []
   \<and> 0 < store_calls ''s1'' (On_add_reaction (ObjectId 7) ''like'') (demo_world\<lparr>fault := Some 0\<rparr>)
   \<and> fst (add_reaction_try ''s1'' (ObjectId 7) ''like'' (demo_world\<lparr>fault := Some 0\<rparr>))
        = Inl StoreUnavailable
   \<and> outbox (add_reaction ''s1'' (ObjectId 7) ''like'' (demo_world\<lparr>fault := Some 0\<rparr>)) = []
   \<and> 0 < store_calls ''s1'' (On_message_read (ObjectId 7)) (demo_world\<lparr>fault := Some 0\<rparr>)
   \<and> fst (message_read_try ''s1'' (ObjectId 7) (demo_world\<lparr>fault := Some 0\<rparr>))
        = Inl StoreUnavailable
   \<and> outbox (message_read ''s1'' (ObjectId 7) (demo_world\<lparr>fault := Some 0\<rparr>)) = []"
  by code_simp

section \<open>Sharing a file\<close>

text \<open>
  C9. \<^verbatim>\<open>share_file\<close> sends the stored file message as \<^verbatim>\<open>receive_message\<close> to every
  connected socket. Its notification loop runs over \<^verbatim>\<open>Object.keys(io.sockets.sockets)\<close>,
  which is empty for a \<^verbatim>\<open>Map\<close>: with \<open>s1\<close> and \<open>s2\<close> connected and \<open>s1\<close> sharing a file,
  \<open>s2\<close> gets the message and no \<^verbatim>\<open>new_message_notification\<close>.
\<close>

theorem share_file_notifies_nobody:
  "sockets demo_world = [''s1'', ''s2'']
   \<and> outbox (share_file ''s1''
         \<lparr>fd_name = Some ''a.png'', fd_url = Some ''/a.png'', fd_type = Some ''image/png'',
          fd_room = Some ''general''\<rparr> 9 demo_world) =
       (let saved = \<lparr>m_id = 1, m_sender = ''alice'', m_senderId = ''s1'', m_message = [],
                      m_room = ''general'', m_fileName = Some ''a.png'', m_fileUrl = Some ''/a.png'',
                      m_fileType = Some ''image/png'', m_isFile = True, m_isPrivate = False,
                      m_recipient = None, m_delivered = True, m_read = False, m_reactions = [],
                      m_timestamp = 9\<rparr>
        in [(''s1'', Receive_message saved), (''s2'', Receive_message saved),
            (''s1'', Message_delivered 1)])"
  by code_simp

section \<open>Creating a room twice\<close>

lemma lower_char_idem: "lower_char (lower_char c) = lower_char c"
  by (simp add: lower_char_def Let_def)

lemma is_space_lower [simp]: "is_space (lower_char c) = is_space c"
  by (simp add: lower_char_def is_space_def Let_def)

lemma set_replace_spaces: "set (replace_spaces s) \<subseteq> insert CHR ''-'' (set s)"
proof (induction s rule: replace_spaces.induct)
  case 1
  then show ?case by simp
next
  case (2 c cs)
  have "set (dropWhile is_space cs) \<subseteq> set cs" by (rule set_dropWhileD [THEN subsetI])
  with 2 show ?case by (auto split: if_splits)
qed

lemma no_space_replace_spaces: "list_all (\<lambda>c. \<not> is_space c) (replace_spaces s)"
  by (induction s rule: replace_spaces.induct) (auto simp: is_space_def)

lemma derive_roomId_shape:
  "list_all (\<lambda>c. \<not> is_space c \<and> lower_char c = c) (derive_roomId roomName)"
proof -
  have "lower_char c = c" if "c \<in> set (derive_roomId roomName)" for c
  proof -
    from that set_replace_spaces [of "toLowerCase roomName"]
    have "c = CHR ''-'' \<or> c \<in> set (toLowerCase roomName)"
      by (auto simp: derive_roomId_def)
    then show ?thesis
      by (auto simp: toLowerCase_def lower_char_idem) (simp add: lower_char_def)
  qed
  with no_space_replace_spaces [of "toLowerCase roomName"] show ?thesis
    by (simp add: list_all_iff derive_roomId_def)
qed

text \<open>Words pass through the replacement as they are.\<close>

lemma replace_spaces_word:
  "list_all (\<lambda>c. \<not> is_space c) u \<Longrightarrow> replace_spaces (u @ v) = u @ replace_spaces v"
  by (induction u) simp_all

lemma dropWhile_lower:
  "dropWhile is_space (map lower_char cs) = map lower_char (dropWhile is_space cs)"
  by (induction cs) simp_all

lemma derive_roomId_slug: "derive_roomId name = slug name"
proof (induction name rule: runs.induct)
  case 1
  show ?case by (simp add: derive_roomId_def slug_def toLowerCase_def)
next
  case (2 c cs)
  show ?case
  proof (cases "is_space c")
    case True
    then have same: "(\<lambda>d. is_space d = is_space c) = is_space" by auto
    have "derive_roomId (c # cs) = CHR ''-'' # derive_roomId (dropWhile is_space cs)"
      using True by (simp add: derive_roomId_def toLowerCase_def dropWhile_lower)
    also have "\<dots> = CHR ''-'' # slug (dropWhile is_space cs)"
      using 2 unfolding same by simp
    also have "\<dots> = slug (c # cs)"
      using True by (simp add: slug_def same)
    finally show ?thesis .
  next
    case False
    then have same: "(\<lambda>d. is_space d = is_space c) = (\<lambda>d. \<not> is_space d)" by auto
    let ?u = "c # takeWhile (\<lambda>d. \<not> is_space d) cs"
    let ?v = "dropWhile (\<lambda>d. \<not> is_space d) cs"
    have split: "c # cs = ?u @ ?v" by simp
    have "\<forall>d \<in> set (takeWhile (\<lambda>d. \<not> is_space d) cs). \<not> is_space d"
      by (auto dest: set_takeWhileD)
    then have word: "list_all (\<lambda>c. \<not> is_space c) (map lower_char ?u)"
      using False by (simp add: list_all_iff)
    have "derive_roomId (c # cs) = replace_spaces (map lower_char ?u @ map lower_char ?v)"
      unfolding derive_roomId_def toLowerCase_def by (subst split) (simp only: map_append)
    also have "\<dots> = map lower_char ?u @ derive_roomId ?v"
      using word by (simp add: replace_spaces_word derive_roomId_def toLowerCase_def)
    also have "\<dots> = map lower_char ?u @ slug ?v"
      using 2 unfolding same by simp
    also have "\<dots> = slug (c # cs)"
      using False by (simp add: slug_def same toLowerCase_def)
    finally show ?thesis .
  qed
qed

text \<open>The runs of a string are its maximal runs: they are not empty, each is white space
  throughout or free of it, two neighbours are of different kinds, and together they are
  the string.\<close>

lemma runs_concat: "concat (runs s) = s"
  by (induction s rule: runs.induct) simp_all

lemma runs_uniform:
  "r \<in> set (runs s) \<Longrightarrow> r \<noteq> [] \<and> (\<forall>d \<in> set r. is_space d = is_space (hd r))"
proof (induction s rule: runs.induct)
  case 1
  then show ?case by simp
next
  case (2 c cs)
  let ?first = "c # takeWhile (\<lambda>d. is_space d = is_space c) cs"
  from "2.prems" have "r = ?first \<or> r \<in> set (runs (dropWhile (\<lambda>d. is_space d = is_space c) cs))"
    by simp
  then show ?case
  proof
    assume r: "r = ?first"
    have tail: "is_space d = is_space c"
      if "d \<in> set (takeWhile (\<lambda>d. is_space d = is_space c) cs)" for d
      using set_takeWhileD [OF that] by (rule conjunct2)
    have "is_space d = is_space (hd ?first)" if "d \<in> set ?first" for d
    proof (cases "d = c")
      case True
      then show ?thesis by simp
    next
      case False
      with that have "d \<in> set (takeWhile (\<lambda>d. is_space d = is_space c) cs)" by simp
      then have "is_space d = is_space c" by (rule tail)
      then show ?thesis by (simp only: list.sel)
    qed
    then show ?thesis unfolding r by blast
  next
    assume "r \<in> set (runs (dropWhile (\<lambda>d. is_space d = is_space c) cs))"
    then show ?thesis by (rule "2.IH")
  qed
qed

lemma runs_alternate:
  "Suc i < length (runs s) \<Longrightarrow> is_space (hd (runs s ! Suc i)) \<noteq> is_space (hd (runs s ! i))"
proof (induction s arbitrary: i rule: runs.induct)
  case 1
  then show ?case by simp
next
  case (2 c cs)
  let ?rest = "dropWhile (\<lambda>d. is_space d = is_space c) cs"
  show ?case
  proof (cases i)
    case 0
    with "2.prems" have "runs ?rest \<noteq> []" by auto
    then obtain d ds where rest: "?rest = d # ds" by (cases ?rest) auto
    from hd_dropWhile [of "\<lambda>d. is_space d = is_space c" cs] rest
    have "is_space d \<noteq> is_space c" by simp
    moreover have "runs (c # cs) ! Suc 0 = hd (runs ?rest)"
      using rest by (simp add: hd_conv_nth)
    moreover have "hd (hd (runs ?rest)) = d" unfolding rest by simp
    ultimately show ?thesis using 0 by simp
  next
    case (Suc j)
    from "2.prems" Suc have "Suc j < length (runs ?rest)" by simp
    then have "is_space (hd (runs ?rest ! Suc j)) \<noteq> is_space (hd (runs ?rest ! j))"
      by (rule "2.IH")
    then show ?thesis using Suc by simp
  qed
qed

lemma create_room_present:
  assumes "fault w = None" and "find (\<lambda>r. r_roomId r = derive_roomId roomName) (rooms_coll w) = Some r"
  shows "create_room sock roomName now w = w"
  using assms
  by (simp add: create_room_def create_room_try_def try_catch_def await_def db_up Room_findOne_def
        done_ok_def Let_def)

lemma create_room_absent:
  assumes "fault w = None" and "roomName \<noteq> []"
    and "find (\<lambda>r. r_roomId r = derive_roomId roomName) (rooms_coll w) = None"
  shows "fault (create_room sock roomName now w) = None"
    and "rooms_coll (create_room sock roomName now w) =
           rooms_coll w @ [(Room_defaults now)\<lparr>r_roomId := derive_roomId roomName,
                              r_name := roomName, r_createdBy := sock\<rparr>]"
proof -
  have "\<not> list_ex (\<lambda>r. r_roomId r = derive_roomId roomName) (rooms_coll w)"
    using assms(3) by (simp add: find_None_iff list_ex_iff)
  then show "fault (create_room sock roomName now w) = None"
    and "rooms_coll (create_room sock roomName now w) =
           rooms_coll w @ [(Room_defaults now)\<lparr>r_roomId := derive_roomId roomName,
                              r_name := roomName, r_createdBy := sock\<rparr>]"
    using assms derive_roomId_nonempty [OF assms(2)]
    by (simp_all add: create_room_def create_room_try_def try_catch_def await_def db_up
          Room_findOne_def Room_create_def Room_find_all_def effect_def io_emit_def Let_def)
qed

lemma find_app:
  "find P (xs @ ys) = (case find P xs of None \<Rightarrow> find P ys | Some x \<Rightarrow> Some x)"
  by (induction xs) auto

lemma count_unique:
  "distinct (map g xs) \<Longrightarrow> find (\<lambda>x. g x = t) xs = Some r \<Longrightarrow>
   length (filter (\<lambda>x. g x = t) xs) = 1"
proof (induction xs)
  case Nil
  then show ?case by simp
next
  case (Cons x xs)
  show ?case
  proof (cases "g x = t")
    case True
    then have "filter (\<lambda>x. g x = t) xs = []"
      using Cons.prems(1) by (auto simp: filter_empty_conv image_iff)
    with True show ?thesis by simp
  next
    case False
    with Cons show ?thesis by simp
  qed
qed

text \<open>
  C5, as the code has it. The identifier that \<^verbatim>\<open>create_room\<close> derives from a name is the
  name in lower case with each run of white space replaced by one hyphen; it has no white
  space and no capital letter. For a name that is not empty, with unique room identifiers
  and every store call answered: after \<^verbatim>\<open>create_room\<close> there is exactly one room whose
  identifier is the derived one, and a second \<^verbatim>\<open>create_room\<close> with the same name (from any
  socket, at any time) changes nothing and sends nothing.
\<close>

theorem create_room_twice:
  assumes "fault w = None" and "unique_roomIds w" and "roomName \<noteq> []"
  shows "length (filter (\<lambda>r. r_roomId r = derive_roomId roomName)
                  (rooms_coll (create_room sock roomName now w))) = 1
       \<and> create_room sock2 roomName later (create_room sock roomName now w) =
           create_room sock roomName now w
       \<and> derive_roomId roomName = slug roomName
       \<and> list_all (\<lambda>c. \<not> is_space c \<and> lower_char c = c) (derive_roomId roomName)"
proof -
  have twice: "length (filter (\<lambda>r. r_roomId r = derive_roomId roomName)
                  (rooms_coll (create_room sock roomName now w))) = 1
       \<and> create_room sock2 roomName later (create_room sock roomName now w) =
           create_room sock roomName now w"
  proof (cases "find (\<lambda>r. r_roomId r = derive_roomId roomName) (rooms_coll w)")
    case None
    let ?doc = "(Room_defaults now)\<lparr>r_roomId := derive_roomId roomName,
                                r_name := roomName, r_createdBy := sock\<rparr>"
    note after = create_room_absent [OF assms(1) assms(3) None, of sock now]
    have none: "filter (\<lambda>r. r_roomId r = derive_roomId roomName) (rooms_coll w) = []"
      using None by (simp add: find_None_iff filter_empty_conv)
    have found: "find (\<lambda>r. r_roomId r = derive_roomId roomName)
                   (rooms_coll (create_room sock roomName now w)) = Some ?doc"
      unfolding after(2) using None by (simp add: find_app)
    show ?thesis
      using create_room_present [OF after(1) found]
      by (simp add: after(2) none)
  next
    case (Some r)
    have same: "create_room s roomName t w = w" for s t
      using assms(1) Some by (rule create_room_present)
    show ?thesis
      using count_unique [OF assms(2) [unfolded unique_roomIds_def] Some]
      by (simp add: same)
  qed
  from twice derive_roomId_slug [of roomName] derive_roomId_shape [of roomName]
  show ?thesis by blast
qed

theorem create_room_twice_witness:
  "fault demo_world = None \<and> unique_roomIds demo_world \<and> ''Study  Group'' \<noteq> []
   \<and> runs ''Study  Group'' = [''Study'', ''  '', ''Group'']
   \<and> slug ''Study  Group'' = ''study-group''
   \<and> derive_roomId ''Study  Group'' = ''study-group''
   \<and> map r_roomId (rooms_coll (create_room ''s1'' ''Study  Group'' 7 demo_world)) =
        [''general'', ''random'', ''study-group'']
   \<and> create_room ''s2'' ''Study  Group'' 8 (create_room ''s1'' ''Study  Group'' 7 demo_world) =
        create_room ''s1'' ''Study  Group'' 7 demo_world
   \<and> derive_roomId ''General'' = ''general''
   \<and> map r_roomId (rooms_coll (create_room ''s1'' ''General'' 8
        (create_room ''s1'' ''General'' 7 empty_world))) = [''general'']
   \<and> derive_roomId ''R&D Team'' = ''r&d-team''
   \<and> derive_roomId (''CAF'' @ [CHR 0xC9]) = ''caf'' @ [CHR 0xE9]
   \<and> derive_roomId (''a'' @ [CHR 0xA0] @ ''b'') = ''a-b''"
proof -
  have h: "fault demo_world = None" "unique_roomIds demo_world" "''Study  Group'' \<noteq> []"
    by (simp_all add: demo_world_def unique_roomIds_def)
  have r: "runs ''Study  Group'' = [''Study'', ''  '', ''Group'']" by code_simp
  have s: "slug ''Study  Group'' = ''study-group''" by code_simp
  have a: "derive_roomId ''Study  Group'' = ''study-group''" by code_simp
  have b: "map r_roomId (rooms_coll (create_room ''s1'' ''Study  Group'' 7 demo_world)) =
        [''general'', ''random'', ''study-group'']" by code_simp
  have c: "derive_roomId ''General'' = ''general''" by code_simp
  have d: "map r_roomId (rooms_coll (create_room ''s1'' ''General'' 8
        (create_room ''s1'' ''General'' 7 empty_world))) = [''general'']" by code_simp
  have e: "derive_roomId ''R&D Team'' = ''r&d-team''"
    "derive_roomId (''CAF'' @ [CHR 0xC9]) = ''caf'' @ [CHR 0xE9]"
    "derive_roomId (''a'' @ [CHR 0xA0] @ ''b'') = ''a-b''" by code_simp+
  from create_room_twice [OF h, where sock = "''s1''" and now = 7 and ?sock2.0 = "''s2''"
        and later = 8] h r s a b c d e show ?thesis
    by (simp add: create_room_def)
qed

theorem create_room_twice_counterexample:
  "derive_roomId [] = []
   \<and> filter (\<lambda>r. r_roomId r = derive_roomId [])
        (rooms_coll (create_room ''s1'' [] 8 (create_room ''s1'' [] 7 demo_world))) = []
   \<and> outbox (create_room ''s1'' [] 7 demo_world) = [(''s1'', Error ''Failed to create room'')]
   \<and> outbox (create_room ''s1'' [] 8 (create_room ''s1'' [] 7 demo_world)) =
        [(''s1'', Error ''Failed to create room''), (''s1'', Error ''Failed to create room'')]"
  by code_simp

section \<open>Pages of messages\<close>

lemma load_messages_page:
  assumes "fault w = None" and "0 \<le> s"
  shows "load_messages sock (Some (Num s)) (Some (Num l)) (Some roomId) w =
         socket_emit sock
           (Messages_loaded
              (rev (cursor_limit l (drop (nat s)
                 (sort_newest_first (filter (room_query roomId) (messages_coll w))))))
              (s + l < int (length (filter (room_query roomId) (messages_coll w))))) w"
  using assms
  by (simp add: load_messages_def load_messages_try_def try_catch_def await_def db_up
        Message_find_page_def Message_countDocuments_def effect_def Let_def)

lemma api_messages_page:
  assumes "fault w = None" and "parseInt off = Num s" and "parseInt lim = Num l" and "0 \<le> s"
  shows "api_messages (Some off) (Some lim) (Some room) w =
         Json_messages
           (rev (cursor_limit l (drop (nat s)
              (sort_newest_first (filter (\<lambda>m. m_room m = room) (messages_coll w))))))
           (s + l < int (messages_in room w)) (messages_in room w)"
  using assms
  by (simp add: api_messages_def api_messages_try_def await_def db_up
        Message_find_page_def Message_countDocuments_def Let_def messages_in_def)

lemma newest_first_sorted:
  "sorted_wrt (\<lambda>a b. m_timestamp b \<le> m_timestamp a) (sort_newest_first ms)"
proof -
  have "sorted (map m_timestamp (sort_key m_timestamp ms))" by (rule sorted_sort_key)
  then show ?thesis
    by (simp add: sort_newest_first_def sorted_wrt_rev sorted_map)
qed

lemma newest_first_mset [simp]: "mset (sort_newest_first ms) = mset ms"
  by (simp add: sort_newest_first_def)

lemma newest_first_length [simp]: "length (sort_newest_first ms) = length ms"
  by (simp add: sort_newest_first_def)

text \<open>A window of a list that is sorted newest first: what comes before it is at least as
  new, what comes after it at least as old, and read backwards it is in time order.\<close>

lemma window_of_sorted:
  assumes "sorted_wrt (\<lambda>a b. m_timestamp b \<le> m_timestamp a) S"
  shows "sorted (map m_timestamp (rev (take l (drop k S))))"
    and "\<forall>a \<in> set (take k S). \<forall>b \<in> set (rev (take l (drop k S))). m_timestamp b \<le> m_timestamp a"
    and "\<forall>b \<in> set (rev (take l (drop k S))). \<forall>c \<in> set (drop l (drop k S)).
           m_timestamp c \<le> m_timestamp b"
    and "mset (take k S) + mset (rev (take l (drop k S))) + mset (drop l (drop k S)) = mset S"
proof -
  have split: "S = take k S @ take l (drop k S) @ drop l (drop k S)"
    by (simp only: append_take_drop_id)
  have all: "sorted_wrt (\<lambda>a b. m_timestamp b \<le> m_timestamp a)
               (take k S @ take l (drop k S) @ drop l (drop k S))"
    using assms by (simp only: append_take_drop_id)
  then have mid: "sorted_wrt (\<lambda>a b. m_timestamp b \<le> m_timestamp a) (take l (drop k S))"
    unfolding sorted_wrt_append by blast
  then show "sorted (map m_timestamp (rev (take l (drop k S))))"
    by (simp only: sorted_map sorted_wrt_rev)
  show "\<forall>a \<in> set (take k S). \<forall>b \<in> set (rev (take l (drop k S))). m_timestamp b \<le> m_timestamp a"
    using all unfolding sorted_wrt_append by auto
  show "\<forall>b \<in> set (rev (take l (drop k S))). \<forall>c \<in> set (drop l (drop k S)).
           m_timestamp c \<le> m_timestamp b"
    using all unfolding sorted_wrt_append by auto
  have "mset S = mset (take k S) + (mset (take l (drop k S)) + mset (drop l (drop k S)))"
    by (subst split) (simp only: mset_append)
  then show "mset (take k S) + mset (rev (take l (drop k S))) + mset (drop l (drop k S)) = mset S"
    by (simp add: add.assoc)
qed

text \<open>
  C4, as the code has it. For a room with \<open>n\<close> messages, an offset and a limit of at least 1
  (the store reads a limit of 0 as no limit), with every store call answered: the page that
  \<^verbatim>\<open>load_messages\<close> sends to the requesting socket, and that \<^verbatim>\<open>GET /api/messages\<close> returns
  with the total \<open>n\<close>, has \<open>min limit (n - offset)\<close> messages in time order; they are the
  room's messages that remain when the \<open>offset\<close> newest are left out and that are at least
  as new as every message left behind; \<^verbatim>\<open>hasMore\<close> is \<open>offset + limit < n\<close>.
\<close>

theorem page_window:
  assumes "fault w = None" and "roomId \<noteq> []" and "0 < limit"
  shows "\<exists>page newer older.
      load_messages sock (Some (Num (int offset))) (Some (Num (int limit))) (Some roomId) w
        = socket_emit sock (Messages_loaded page (offset + limit < messages_in roomId w)) w
    \<and> (\<forall>off lim. parseInt off = Num (int offset) \<and> parseInt lim = Num (int limit) \<longrightarrow>
         api_messages (Some off) (Some lim) (Some roomId) w =
           Json_messages page (offset + limit < messages_in roomId w) (messages_in roomId w))
    \<and> length page = min limit (messages_in roomId w - offset)
    \<and> sorted (map m_timestamp page)
    \<and> mset newer + mset page + mset older =
        mset (filter (\<lambda>m. m_room m = roomId) (messages_coll w))
    \<and> length newer = min offset (messages_in roomId w)
    \<and> (\<forall>a \<in> set newer. \<forall>b \<in> set page. m_timestamp b \<le> m_timestamp a)
    \<and> (\<forall>b \<in> set page. \<forall>c \<in> set older. m_timestamp c \<le> m_timestamp b)"
proof -
  let ?S = "sort_newest_first (filter (\<lambda>m. m_room m = roomId) (messages_coll w))"
  let ?page = "rev (take limit (drop offset ?S))"
  have q: "room_query roomId = (\<lambda>m. m_room m = roomId)"
    using assms(2) by (simp add: room_query_def)
  have lim: "cursor_limit (int limit) xs = take limit xs" for xs :: "message list"
    using assms(3) by (simp add: cursor_limit_def)
  have more: "(int offset + int limit < int (messages_in roomId w)) =
              (offset + limit < messages_in roomId w)" by linarith
  have a: "load_messages sock (Some (Num (int offset))) (Some (Num (int limit))) (Some roomId) w
        = socket_emit sock (Messages_loaded ?page (offset + limit < messages_in roomId w)) w"
    using load_messages_page [OF assms(1), of "int offset" sock "int limit" roomId] more
    by (simp add: q lim messages_in_def)
  have b: "api_messages (Some off) (Some lim) (Some roomId) w =
           Json_messages ?page (offset + limit < messages_in roomId w) (messages_in roomId w)"
    if "parseInt off = Num (int offset)" "parseInt lim = Num (int limit)" for off lim
    using api_messages_page [OF assms(1) that, of roomId] more by (simp add: lim)
  have c: "length ?page = min limit (messages_in roomId w - offset)"
    by (simp add: messages_in_def)
  have d: "length (take offset ?S) = min offset (messages_in roomId w)"
    by (simp add: messages_in_def min.commute)
  have srt: "sorted_wrt (\<lambda>a b. m_timestamp b \<le> m_timestamp a) ?S"
    by (rule newest_first_sorted)
  note win = window_of_sorted [OF srt, where l = limit and k = offset]
  show ?thesis
    apply (rule exI [of _ ?page])
    apply (rule exI [of _ "take offset ?S"])
    apply (rule exI [of _ "drop limit (drop offset ?S)"])
    using a b c d win by (simp only: newest_first_mset) blast
qed


lemma history_world_facts:
  "fault (history_world n) = None" "messages_in ''general'' (history_world n) = n"
  by (simp_all add: history_world_def demo_world_def messages_in_def stored_message_def
        Message_defaults_def filter_map comp_def)

theorem page_window_witness:
  "fault (history_world 120) = None \<and> messages_in ''general'' (history_world 120) = 120
   \<and> (\<exists>page.
         load_messages ''s1'' (Some (Num 100)) (Some (Num 50)) (Some ''general'') (history_world 120)
           = socket_emit ''s1'' (Messages_loaded page False) (history_world 120)
       \<and> api_messages (Some ''100'') (Some ''50'') (Some ''general'') (history_world 120)
           = Json_messages page False 120
       \<and> length page = 20 \<and> sorted (map m_timestamp page))
   \<and> (\<exists>page.
         load_messages ''s1'' (Some (Num 0)) (Some (Num 50)) (Some ''general'') (history_world 120)
           = socket_emit ''s1'' (Messages_loaded page True) (history_world 120)
       \<and> api_messages (Some ''0'') (Some ''50'') (Some ''general'') (history_world 120)
           = Json_messages page True 120
       \<and> length page = 50 \<and> sorted (map m_timestamp page))"
proof -
  have up: "fault (history_world 120) = None" and n: "messages_in ''general'' (history_world 120) = 120"
    by (rule history_world_facts)+
  have room: "''general'' \<noteq> []" by simp
  have p0: "parseInt ''0'' = Num (int 0)" and p50: "parseInt ''50'' = Num (int 50)"
    and p100: "parseInt ''100'' = Num (int 100)" by code_simp+
  have last: "\<exists>page.
         load_messages ''s1'' (Some (Num 100)) (Some (Num 50)) (Some ''general'') (history_world 120)
           = socket_emit ''s1'' (Messages_loaded page False) (history_world 120)
       \<and> api_messages (Some ''100'') (Some ''50'') (Some ''general'') (history_world 120)
           = Json_messages page False 120
       \<and> length page = 20 \<and> sorted (map m_timestamp page)"
    using page_window [OF up room, of 50 "''s1''" 100] p50 p100 by (auto simp: n)
  have first: "\<exists>page.
         load_messages ''s1'' (Some (Num 0)) (Some (Num 50)) (Some ''general'') (history_world 120)
           = socket_emit ''s1'' (Messages_loaded page True) (history_world 120)
       \<and> api_messages (Some ''0'') (Some ''50'') (Some ''general'') (history_world 120)
           = Json_messages page True 120
       \<and> length page = 50 \<and> sorted (map m_timestamp page)"
    using page_window [OF up room, of 50 "''s1''" 0] p50 p0 by (auto simp: n)
  from up n last first show ?thesis by blast
qed

theorem page_window_counterexample:
  "messages_in ''general'' (history_world 2) = 2
   \<and> outbox (load_messages ''s1'' (Some (Num 0)) (Some (Num 0)) (Some ''general'') (history_world 2))
       = [(''s1'', Messages_loaded
                    [stored_message 0 ''alice'' ''hi'', stored_message 1 ''alice'' ''hi''] True)]
   \<and> api_messages (Some ''0'') (Some ''0'') (Some ''general'') (history_world 2)
       = Json_messages [stored_message 0 ''alice'' ''hi'', stored_message 1 ''alice'' ''hi''] True 2"
  by code_simp

section \<open>Offsets and limits that are not natural numbers\<close>

lemma db_cases:
  obtains (down) "db oper w = (Inl StoreUnavailable, w)"
  | (up) k where "db oper w = oper (w\<lparr>fault := k\<rparr>)"
proof (cases "fault w")
  case None
  then have "db oper w = oper (w\<lparr>fault := None\<rparr>)" by (cases w) (simp add: db_def)
  then show ?thesis by (rule up)
next
  case (Some k)
  then show ?thesis
    by (cases k) (auto simp: db_def intro: down up)
qed

lemma api_messages_shape:
  "(\<exists>page more n. api_messages off lim room w = Json_messages page more n)
   \<or> api_messages off lim room w = Json_error 500 ''Failed to fetch messages''"
proof -
  define skip where "skip = (case off of None \<Rightarrow> Num 0 | Some s \<Rightarrow> parseInt s)"
  define take_n where "take_n = (case lim of None \<Rightarrow> Num 50 | Some s \<Rightarrow> parseInt s)"
  define r where "r = (case room of None \<Rightarrow> ''general'' | Some r \<Rightarrow> r)"
  have unfold: "api_messages_try off lim room =
      await (db (Message_find_page (\<lambda>m. m_room m = r) skip take_n)) (\<lambda>messages.
      await (db (Message_countDocuments (\<lambda>m. m_room m = r))) (\<lambda>totalCount.
      (\<lambda>w. (Inr (Json_messages (rev messages)
                    (js_less (js_add skip take_n) (Num (int totalCount))) totalCount), w))))"
    by (simp add: api_messages_try_def skip_def take_n_def r_def Let_def)
  obtain res w1 where first: "db (Message_find_page (\<lambda>m. m_room m = r) skip take_n) w = (res, w1)"
    by (cases "db (Message_find_page (\<lambda>m. m_room m = r) skip take_n) w")
  show ?thesis
  proof (cases res)
    case (Inl e)
    with first show ?thesis by (simp add: api_messages_def unfold await_def)
  next
    case (Inr messages)
    show ?thesis
    proof (cases rule: db_cases [of "Message_countDocuments (\<lambda>m. m_room m = r)" w1])
      case down
      with first Inr show ?thesis by (simp add: api_messages_def unfold await_def)
    next
      case (up k)
      with first Inr show ?thesis
        by (simp add: api_messages_def unfold await_def Message_countDocuments_def)
    qed
  qed
qed

lemma load_messages_shape:
  "(\<exists>page more. outbox (load_messages sock a b c w) = outbox w @ [(sock, Messages_loaded page more)])
   \<or> outbox (load_messages sock a b c w) = outbox w @ [(sock, Error ''Failed to load messages'')]"
proof -
  define offset where "offset = (case a of None \<Rightarrow> Num 0 | Some n \<Rightarrow> n)"
  define limit where "limit = (case b of None \<Rightarrow> Num 50 | Some n \<Rightarrow> n)"
  define q where "q = room_query (case c of None \<Rightarrow> ''general'' | Some r \<Rightarrow> r)"
  have unfold: "load_messages_try sock a b c =
      await (db (Message_find_page q offset limit)) (\<lambda>messages.
      await (db (Message_countDocuments q)) (\<lambda>totalCount.
      effect (socket_emit sock
        (Messages_loaded (rev messages)
           (js_less (js_add offset limit) (Num (int totalCount)))))))"
    by (simp add: load_messages_try_def offset_def limit_def q_def Let_def)
  obtain res w1 where first: "db (Message_find_page q offset limit) w = (res, w1)"
    by (cases "db (Message_find_page q offset limit) w")
  have out1: "outbox w1 = outbox w"
    using first
    by (cases rule: db_cases [of "Message_find_page q offset limit" w])
       (auto simp: Message_find_page_def)
  show ?thesis
  proof (cases res)
    case (Inl e)
    with first out1 show ?thesis
      by (simp add: load_messages_def unfold await_def try_catch_def socket_emit_def)
  next
    case (Inr messages)
    show ?thesis
    proof (cases rule: db_cases [of "Message_countDocuments q" w1])
      case down
      with first Inr out1 show ?thesis
        by (simp add: load_messages_def unfold await_def try_catch_def socket_emit_def)
    next
      case (up k)
      with first Inr out1 show ?thesis
        by (simp add: load_messages_def unfold await_def try_catch_def socket_emit_def
              Message_countDocuments_def effect_def)
    qed
  qed
qed

lemma negative_skip_rejected:
  assumes "s < 0"
  shows "fst (db (Message_find_page q (Num s) l) w) = Inl BadValue
         \<or> fst (db (Message_find_page q (Num s) l) w) = Inl StoreUnavailable"
    and "outbox (snd (db (Message_find_page q (Num s) l) w)) = outbox w"
  using assms
  by (cases rule: db_cases [of "Message_find_page q (Num s) l" w]; cases l;
      simp add: Message_find_page_def)+


lemma api_messages_negative:
  assumes "parseInt off = Num s" and "s < 0"
  shows "api_messages (Some off) lim room w = Json_error 500 ''Failed to fetch messages''"
proof -
  define take_n where "take_n = (case lim of None \<Rightarrow> Num 50 | Some s \<Rightarrow> parseInt s)"
  define r where "r = (case room of None \<Rightarrow> ''general'' | Some r \<Rightarrow> r)"
  obtain res w1 where first:
    "db (Message_find_page (\<lambda>m. m_room m = r) (Num s) take_n) w = (res, w1)"
    by (cases "db (Message_find_page (\<lambda>m. m_room m = r) (Num s) take_n) w")
  with negative_skip_rejected(1) [OF assms(2), of "\<lambda>m. m_room m = r" take_n w]
  obtain e where "res = Inl e" by auto
  with first show ?thesis
    by (simp add: api_messages_def api_messages_try_def assms(1) take_n_def r_def Let_def await_def)
qed

lemma load_messages_negative:
  assumes "s < 0"
  shows "outbox (load_messages sock (Some (Num s)) b c w) =
         outbox w @ [(sock, Error ''Failed to load messages'')]"
proof -
  define limit where "limit = (case b of None \<Rightarrow> Num 50 | Some n \<Rightarrow> n)"
  define q where "q = room_query (case c of None \<Rightarrow> ''general'' | Some r \<Rightarrow> r)"
  obtain res w1 where first: "db (Message_find_page q (Num s) limit) w = (res, w1)"
    by (cases "db (Message_find_page q (Num s) limit) w")
  with negative_skip_rejected [OF assms, of q limit w]
  obtain e where "res = Inl e" and "outbox w1 = outbox w" by auto
  with first show ?thesis
    by (simp add: load_messages_def load_messages_try_def limit_def q_def Let_def await_def
          try_catch_def socket_emit_def)
qed

lemma parseInt_defaults: "parseInt ''0'' = Num 0" "parseInt ''50'' = Num 50"
  by code_simp+

text \<open>The two store calls of the read path, one after the other: the socket gets the page,
  or the \<^verbatim>\<open>error\<close> event, and nothing else.\<close>

lemma page_or_error:
  assumes first: "outbox (snd (m w)) = outbox w"
  shows "(\<exists>page more.
            outbox (try_catch
              (await m (\<lambda>messages.
               await (db (Message_countDocuments q)) (\<lambda>totalCount.
               effect (socket_emit sock (Messages_loaded (rev messages) (more_of totalCount))))))
              (\<lambda>error. socket_emit sock (Error msg)) w)
            = outbox w @ [(sock, Messages_loaded page more)])
       \<or> outbox (try_catch
              (await m (\<lambda>messages.
               await (db (Message_countDocuments q)) (\<lambda>totalCount.
               effect (socket_emit sock (Messages_loaded (rev messages) (more_of totalCount))))))
              (\<lambda>error. socket_emit sock (Error msg)) w)
            = outbox w @ [(sock, Error msg)]"
proof -
  obtain res w1 where mw: "m w = (res, w1)" by (cases "m w")
  with first have out1: "outbox w1 = outbox w" by simp
  show ?thesis
  proof (cases res)
    case (Inl e)
    with mw out1 show ?thesis
      by (simp add: await_def try_catch_def socket_emit_def)
  next
    case (Inr messages)
    show ?thesis
    proof (cases rule: db_cases [of "Message_countDocuments q" w1])
      case down
      with mw Inr out1 show ?thesis
        by (simp add: await_def try_catch_def socket_emit_def)
    next
      case (up k)
      with mw Inr out1 show ?thesis
        by (simp add: await_def try_catch_def socket_emit_def Message_countDocuments_def effect_def)
    qed
  qed
qed

lemma find_page_outbox: "outbox (snd (db (Message_find_page q a b) w)) = outbox w"
  by (cases rule: db_cases [of "Message_find_page q a b" w]) (simp_all add: Message_find_page_def)

lemma on_load_messages_shape:
  "\<exists>w'. on_load_messages cast text_less sock (Some p) w = Inr w'
       \<and> ((\<exists>page more. outbox w' = outbox w @ [(sock, Messages_loaded page more)])
          \<or> outbox w' = outbox w @ [(sock, Error ''Failed to load messages'')])"
proof -
  define offset where "offset = (case lp_offset p of None \<Rightarrow> Number (Num 0) | Some x \<Rightarrow> x)"
  define limit where "limit = (case lp_limit p of None \<Rightarrow> Number (Num 50) | Some x \<Rightarrow> x)"
  define q where "q = room_query (case lp_roomId p of None \<Rightarrow> ''general'' | Some r \<Rightarrow> r)"
  define m where "m = (case query_operand cast offset of
           Inl e \<Rightarrow> throw e
         | Inr skip \<Rightarrow>
             (case query_operand cast limit of
                Inl e \<Rightarrow> throw e
              | Inr lim \<Rightarrow> db (Message_find_page q skip lim)))"
  have block: "on_load_messages_try cast text_less sock p =
      await m (\<lambda>messages.
      await (db (Message_countDocuments q)) (\<lambda>totalCount.
      effect (socket_emit sock
        (Messages_loaded (rev messages) (has_more text_less offset limit totalCount)))))"
    unfolding on_load_messages_try_def Let_def m_def offset_def limit_def q_def by (rule refl)
  have first: "outbox (snd (m w)) = outbox w"
    by (simp add: m_def throw_def find_page_outbox split: sum.splits)
  show ?thesis
    using page_or_error [of m w q sock "has_more text_less offset limit" "''Failed to load messages''",
            OF first]
    by (simp add: on_load_messages_def block)
qed

lemma on_load_messages_numbers:
  "on_load_messages cast text_less sock
     (Some \<lparr>lp_offset = map_option Number a, lp_limit = map_option Number b, lp_roomId = c\<rparr>) w
   = Inr (load_messages sock a b c w)"
proof -
  have "on_load_messages_try cast text_less sock
          \<lparr>lp_offset = map_option Number a, lp_limit = map_option Number b, lp_roomId = c\<rparr>
        = load_messages_try sock a b c"
    by (cases a; cases b)
       (simp_all add: on_load_messages_try_def load_messages_try_def query_operand_def has_more_def
          Let_def)
  then show ?thesis by (simp add: on_load_messages_def load_messages_def)
qed

lemma on_load_messages_text:
  assumes "cast s = Inl e"
  shows "on_load_messages cast text_less sock
           (Some \<lparr>lp_offset = Some (Text s), lp_limit = b, lp_roomId = c\<rparr>) w
         = Inr (socket_emit sock (Error ''Failed to load messages'') w)"
    and "on_load_messages cast text_less sock
           (Some \<lparr>lp_offset = Some (Number n), lp_limit = Some (Text s), lp_roomId = c\<rparr>) w
         = Inr (socket_emit sock (Error ''Failed to load messages'') w)"
  using assms
  by (simp_all add: on_load_messages_def on_load_messages_try_def query_operand_def throw_def
        await_def try_catch_def)

text \<open>
  C8, as the code has it. For offsets and limits of any kind, sent as query parameters of
  \<^verbatim>\<open>GET /api/messages\<close> or in the payload object of \<^verbatim>\<open>load_messages\<close>, and whatever the
  store does, the read path gives one answer: the route a page or status 500, the socket
  handler one page or one \<^verbatim>\<open>error\<close> event. Nothing is clamped and nothing falls back: a
  negative offset goes to the store as it is, the store rejects it, and the answer is the
  error; so it is for a string in the payload that \<^verbatim>\<open>.skip\<close> cannot cast. The defaults 0 and
  50 stand in for a missing parameter only. An event \<^verbatim>\<open>load_messages\<close> without a payload is outside the
  \<^verbatim>\<open>try\<close>: the listener's promise is rejected with a \<^verbatim>\<open>TypeError\<close> that nothing catches.
\<close>

theorem read_path_total:
  "((\<exists>page more n. api_messages off lim room w = Json_messages page more n)
      \<or> api_messages off lim room w = Json_error 500 ''Failed to fetch messages'')
   \<and> (\<exists>w'. on_load_messages cast text_less sock (Some p) w = Inr w'
          \<and> ((\<exists>page more. outbox w' = outbox w @ [(sock, Messages_loaded page more)])
             \<or> outbox w' = outbox w @ [(sock, Error ''Failed to load messages'')]))
   \<and> on_load_messages cast text_less sock None w = Inl TypeError
   \<and> on_load_messages cast text_less sock
         (Some \<lparr>lp_offset = map_option Number a, lp_limit = map_option Number b, lp_roomId = c\<rparr>) w
       = Inr (load_messages sock a b c w)
   \<and> ((\<exists>page more. outbox (load_messages sock a b c w) =
                     outbox w @ [(sock, Messages_loaded page more)])
      \<or> outbox (load_messages sock a b c w) = outbox w @ [(sock, Error ''Failed to load messages'')])
   \<and> (\<forall>s. parseInt str = Num s \<and> s < 0 \<longrightarrow>
         api_messages (Some str) lim room w = Json_error 500 ''Failed to fetch messages'')
   \<and> (\<forall>s. s < 0 \<longrightarrow>
         outbox (load_messages sock (Some (Num s)) b c w) =
           outbox w @ [(sock, Error ''Failed to load messages'')])
   \<and> (\<forall>e. cast str = Inl e \<longrightarrow>
         on_load_messages cast text_less sock
           (Some \<lparr>lp_offset = Some (Text str), lp_limit = lp_limit p, lp_roomId = c\<rparr>) w
         = Inr (socket_emit sock (Error ''Failed to load messages'') w))
   \<and> api_messages None None room w = api_messages (Some ''0'') (Some ''50'') room w
   \<and> load_messages sock None None c w = load_messages sock (Some (Num 0)) (Some (Num 50)) c w"
proof -
  have defaults: "api_messages None None room w = api_messages (Some ''0'') (Some ''50'') room w"
    by (simp add: api_messages_def api_messages_try_def parseInt_defaults)
  have defaults': "load_messages sock None None c w
                   = load_messages sock (Some (Num 0)) (Some (Num 50)) c w"
    by (simp add: load_messages_def load_messages_try_def)
  have missing: "on_load_messages cast text_less sock None w = Inl TypeError"
    by (simp add: on_load_messages_def)
  show ?thesis
    using api_messages_shape [of off lim room w] load_messages_shape [of sock a b c w]
      api_messages_negative [of str _ lim room w] load_messages_negative [of _ sock b c w]
      on_load_messages_shape [of cast text_less sock p w]
      on_load_messages_numbers [of cast text_less sock a b c w]
      on_load_messages_text(1) [of cast str _ text_less sock "lp_limit p" c w]
      missing defaults defaults'
    by blast
qed

theorem read_path_total_witness:
  "parseInt ''-5'' = Num (- 5) \<and> (- 5 :: int) < 0
   \<and> api_messages (Some ''-5'') (Some ''10'') None (history_world 3)
       = Json_error 500 ''Failed to fetch messages''
   \<and> outbox (load_messages ''s1'' (Some (Num (- 5))) (Some (Num 10)) None (history_world 3))
       = [(''s1'', Error ''Failed to load messages'')]
   \<and> on_load_messages (\<lambda>s. Inl CastError) (\<lambda>x y n. False) ''s1''
         (Some \<lparr>lp_offset = Some (Text ''abc''), lp_limit = None, lp_roomId = None\<rparr>)
         (history_world 3)
       = Inr (socket_emit ''s1'' (Error ''Failed to load messages'') (history_world 3))
   \<and> on_load_messages (\<lambda>s. Inl CastError) (\<lambda>x y n. False) ''s1''
         (Some \<lparr>lp_offset = Some (Number (Num 1)), lp_limit = Some (Number (Num 1)),
                 lp_roomId = None\<rparr>) (history_world 3)
       = Inr (socket_emit ''s1'' (Messages_loaded [stored_message 1 ''alice'' ''hi''] True)
                (history_world 3))
   \<and> on_load_messages (\<lambda>s. Inl CastError) (\<lambda>x y n. False) ''s1'' None (history_world 3)
       = Inl TypeError"
proof -
  have p: "parseInt ''-5'' = Num (- 5)" by code_simp
  have o: "outbox (history_world 3) = []" by (simp add: history_world_def demo_world_def)
  have c: "(\<lambda>s. Inl CastError :: exn + jsnum) ''abc'' = Inl CastError" by simp
  have page: "on_load_messages (\<lambda>s. Inl CastError) (\<lambda>x y n. False) ''s1''
         (Some \<lparr>lp_offset = Some (Number (Num 1)), lp_limit = Some (Number (Num 1)),
                 lp_roomId = None\<rparr>) (history_world 3)
       = Inr (socket_emit ''s1'' (Messages_loaded [stored_message 1 ''alice'' ''hi''] True)
                (history_world 3))"
    by code_simp
  note negative = read_path_total [of "Some ''-5''" "Some ''10''" None "history_world 3"
      "\<lambda>s. Inl CastError" "\<lambda>x y n. False" "''s1''"
      "\<lparr>lp_offset = Some (Text ''abc''), lp_limit = None, lp_roomId = None\<rparr>"
      "Some (Num (- 5))" "Some (Num 10)" None "''-5''"]
  note strings = read_path_total [of "Some ''0''" "Some ''10''" None "history_world 3"
      "\<lambda>s. Inl CastError" "\<lambda>x y n. False" "''s1''"
      "\<lparr>lp_offset = Some (Text ''abc''), lp_limit = None, lp_roomId = None\<rparr>"
      "Some (Num (- 5))" "Some (Num 10)" None "''abc''"]
  from negative p have one:
    "api_messages (Some ''-5'') (Some ''10'') None (history_world 3)
       = Json_error 500 ''Failed to fetch messages''"
    "outbox (load_messages ''s1'' (Some (Num (- 5))) (Some (Num 10)) None (history_world 3))
       = [(''s1'', Error ''Failed to load messages'')]"
    "on_load_messages (\<lambda>s. Inl CastError) (\<lambda>x y n. False) ''s1'' None (history_world 3)
       = Inl TypeError"
    using o by simp_all
  from strings c have two:
    "on_load_messages (\<lambda>s. Inl CastError) (\<lambda>x y n. False) ''s1''
         (Some \<lparr>lp_offset = Some (Text ''abc''), lp_limit = None, lp_roomId = None\<rparr>)
         (history_world 3)
       = Inr (socket_emit ''s1'' (Error ''Failed to load messages'') (history_world 3))"
    by simp
  from p one two page show ?thesis by simp
qed

theorem read_path_total_counterexample:
  "parseInt ''-5'' = Num (- 5) \<and> parseInt ''abc'' = NaN
   \<and> api_messages (Some ''-5'') (Some ''10'') None (history_world 3)
       = Json_error 500 ''Failed to fetch messages''
   \<and> api_messages (Some ''0'') (Some ''10'') None (history_world 3)
       = Json_messages [stored_message 0 ''alice'' ''hi'', stored_message 1 ''alice'' ''hi'',
                         stored_message 2 ''alice'' ''hi''] False 3
   \<and> api_messages (Some ''0'') (Some ''50'') None (history_world 3)
       = Json_messages [stored_message 0 ''alice'' ''hi'', stored_message 1 ''alice'' ''hi'',
                         stored_message 2 ''alice'' ''hi''] False 3
   \<and> outbox (load_messages ''s1'' (Some (Num (- 5))) (Some (Num 10)) None (history_world 3))
       = [(''s1'', Error ''Failed to load messages'')]
   \<and> on_load_messages (\<lambda>s. Inl CastError) (\<lambda>x y n. False) ''s1'' None (history_world 3)
       = Inl TypeError"
  by code_simp

section \<open>Searching messages\<close>

lemma rx_compile_plain: "plain_query q \<Longrightarrow> rx_compile q = Some (map Lit q)"
  by (induction q) (auto simp: plain_query_def regex_meta_def)

lemma rx_prefix_lits: "rx_prefix (map Lit q) s = prefix (toLowerCase q) (toLowerCase s)"
proof (induction q arbitrary: s)
  case Nil
  then show ?case by (simp add: toLowerCase_def)
next
  case (Cons c q)
  show ?case
  proof (cases s)
    case Nil
    then show ?thesis by (simp add: toLowerCase_def)
  next
    case (Cons d s')
    with Cons.IH [of s'] show ?thesis by (auto simp: toLowerCase_def)
  qed
qed

lemma rx_search_lits: "rx_search (map Lit q) s = contains_ci q s"
proof (induction s)
  case Nil
  show ?case
    by (cases q) (simp_all add: contains_ci_def toLowerCase_def)
next
  case (Cons d s)
  have "contains_ci q (d # s) =
        (prefix (toLowerCase q) (toLowerCase (d # s)) \<or> contains_ci q s)"
    by (simp add: contains_ci_def toLowerCase_def sublist_Cons_right)
  with Cons show ?case by (simp add: rx_prefix_lits)
qed

lemma regex_plain:
  "plain_query q \<Longrightarrow> regex_i pcre q = Some (contains_ci q)"
  by (simp add: regex_i_def rx_compile_plain rx_search_lits [abs_def])

lemma find_search_plain:
  assumes "plain_query q"
  shows "Message_find_search pcre q room w =
         (Inr (take 50 (sort_newest_first (filter (search_hit q room) (messages_coll w)))), w)"
  using assms
  by (simp add: Message_find_search_def regex_plain cursor_limit_def search_hit_def [abs_def])

text \<open>
  C6, as the code has it. The query is handed to the store as a regular expression. When it
  contains no metacharacter and every store call is answered, the search returns the
  messages whose text or sender contains it, letters compared without case, in the given
  room when one is given, newest first, and the first 50 of them at most;
  \<^verbatim>\<open>GET /api/search\<close> returns the same list for a query that is not empty.
\<close>

theorem search_plain_query:
  assumes "fault w = None" and "plain_query q"
  shows "search_messages pcre sock q roomId w =
           socket_emit sock
             (Search_results
                (take 50 (sort_newest_first
                   (filter (search_hit q (truthy_string roomId)) (messages_coll w)))) q) w
       \<and> (q \<noteq> [] \<longrightarrow>
            api_search pcre (Some q) roomId w =
              Json_search
                (take 50 (sort_newest_first
                   (filter (search_hit q (truthy_string roomId)) (messages_coll w)))) q)
       \<and> sorted_wrt (\<lambda>a b. m_timestamp b \<le> m_timestamp a)
            (take 50 (sort_newest_first
               (filter (search_hit q (truthy_string roomId)) (messages_coll w))))
       \<and> length (take 50 (sort_newest_first
               (filter (search_hit q (truthy_string roomId)) (messages_coll w)))) \<le> 50"
  using assms
  by (simp add: search_messages_def search_messages_try_def try_catch_def await_def db_up
        find_search_plain effect_def api_search_def api_search_try_def truthy_string_def
        newest_first_sorted)

theorem search_plain_query_witness:
  "fault search_world = None \<and> plain_query ''hello'' \<and> ''hello'' \<noteq> []
   \<and> search_messages (\<lambda>p. None) ''s1'' ''hello'' None search_world =
        socket_emit ''s1''
          (Search_results [stored_message 2 ''Hello123'' ''bye'',
                           stored_message 1 ''bob'' ''Hello there''] ''hello'') search_world
   \<and> api_search (\<lambda>p. None) (Some ''hello'') None search_world =
        Json_search [stored_message 2 ''Hello123'' ''bye'',
                     stored_message 1 ''bob'' ''Hello there''] ''hello''"
proof -
  have h: "fault search_world = None" "plain_query ''hello''" "''hello'' \<noteq> []" by code_simp+
  have hits: "take 50 (sort_newest_first
                (filter (search_hit ''hello'' (truthy_string None)) (messages_coll search_world)))
              = [stored_message 2 ''Hello123'' ''bye'', stored_message 1 ''bob'' ''Hello there'']"
    by code_simp
  from search_plain_query [OF h(1) h(2), of "\<lambda>p. None" "''s1''" None] h hits
  show ?thesis by simp
qed

theorem search_plain_query_counterexample:
  "\<not> contains_ci ''.'' ''good night'' \<and> \<not> contains_ci ''.'' ''carol''
   \<and> outbox (search_messages (\<lambda>p. None) ''s1'' ''.'' None search_world) =
        [(''s1'', Search_results [stored_message 3 ''carol'' ''good night'',
                                  stored_message 2 ''Hello123'' ''bye'',
                                  stored_message 1 ''bob'' ''Hello there''] ''.'')]
   \<and> api_search (\<lambda>p. None) (Some ''.'') None search_world =
        Json_search [stored_message 3 ''carol'' ''good night'',
                     stored_message 2 ''Hello123'' ''bye'',
                     stored_message 1 ''bob'' ''Hello there''] ''.''
   \<and> api_search (\<lambda>p. None) (Some []) None search_world =
        Json_error 400 (''Query parameter '' @ [CHR 0x22] @ ''q'' @ [CHR 0x22] @ '' is required'')"
  by code_simp

section \<open>Private messages and the general room\<close>

lemma private_message_stored:
  assumes "fault w = None"
  shows "fault (private_message sock to body now w) = None"
    and "messages_coll (private_message sock to body now w) =
           messages_coll w @
           [(Message_defaults now)
              \<lparr>m_id := fresh_id (messages_coll w),
               m_sender := or_else (map_option u_username (find (\<lambda>u. u_socketId u = sock) (users_coll w)))
                            ''Anonymous'',
               m_senderId := sock, m_message := body, m_recipient := Some to,
               m_isPrivate := True, m_delivered := True, m_timestamp := now\<rparr>]"
  using assms
  by (simp_all add: private_message_def private_message_try_def try_catch_def await_def db_up
        User_findOne_def Message_create_def effect_def Let_def socket_emit_def io_to_emit_def)

lemma search_messages_plain:
  assumes "fault w = None" and "plain_query q"
  shows "search_messages pcre sock q roomId w =
           socket_emit sock
             (Search_results
                (take 50 (sort_newest_first
                   (filter (search_hit q (truthy_string roomId)) (messages_coll w)))) q) w"
  using assms
  by (simp add: search_messages_def search_messages_try_def try_catch_def await_def db_up
        find_search_plain effect_def)

lemma window_member:
  assumes "i < length S" and "offset \<le> i" and "i < offset + limit"
  shows "S ! i \<in> set (rev (take limit (drop offset S)))"
proof -
  have "i - offset < length (take limit (drop offset S))" using assms by simp arith
  moreover have "take limit (drop offset S) ! (i - offset) = S ! i" using assms by simp
  ultimately show ?thesis by (metis nth_mem set_rev)
qed

text \<open>
  C10, as the code has it. With every store call answered, \<^verbatim>\<open>private_message\<close> stores one message, private,
  addressed to the recipient, and with \<^verbatim>\<open>room\<close> equal to \<open>''general''\<close>, the schema default.
  That message has a rank among the messages of the general room, newest first, and every
  page of the general room whose window covers the rank contains it; a search whose query
  has no metacharacter and occurs in its text or sender, in no room or in the general room,
  returns it (when at most 50 messages match).
\<close>

theorem private_message_in_general:
  assumes "fault w = None"
  shows "\<exists>m i.
      messages_coll (private_message sock to body now w) = messages_coll w @ [m]
    \<and> m_room m = ''general'' \<and> m_isPrivate m \<and> m_recipient m = Some to \<and> m_message m = body
    \<and> i < messages_in ''general'' (private_message sock to body now w)
    \<and> (\<forall>offset limit reader. offset \<le> i \<and> i < offset + limit \<longrightarrow>
          (\<exists>page more.
             load_messages reader (Some (Num (int offset))) (Some (Num (int limit))) (Some ''general'')
               (private_message sock to body now w)
               = socket_emit reader (Messages_loaded page more) (private_message sock to body now w)
           \<and> m \<in> set page))
    \<and> (\<forall>q roomId reader.
          plain_query q \<and> (contains_ci q body \<or> contains_ci q (m_sender m))
          \<and> (truthy_string roomId = None \<or> truthy_string roomId = Some ''general'')
          \<and> length (filter (search_hit q (truthy_string roomId))
                (messages_coll (private_message sock to body now w))) \<le> 50 \<longrightarrow>
          (\<exists>found.
             search_messages pcre reader q roomId (private_message sock to body now w)
               = socket_emit reader (Search_results found q) (private_message sock to body now w)
           \<and> m \<in> set found))"
proof -
  let ?w = "private_message sock to body now w"
  let ?m = "(Message_defaults now)
              \<lparr>m_id := fresh_id (messages_coll w),
               m_sender := or_else (map_option u_username (find (\<lambda>u. u_socketId u = sock) (users_coll w)))
                            ''Anonymous'',
               m_senderId := sock, m_message := body, m_recipient := Some to,
               m_isPrivate := True, m_delivered := True, m_timestamp := now\<rparr>"
  let ?S = "sort_newest_first (filter (\<lambda>m. m_room m = ''general'') (messages_coll ?w))"
  note stored = private_message_stored [OF assms, of sock to body now]
  have fields: "m_room ?m = ''general''" "m_isPrivate ?m" "m_recipient ?m = Some to"
    "m_message ?m = body"
    by (simp_all add: Message_defaults_def)
  have "?m \<in> set ?S" by (simp add: sort_newest_first_def stored(2) fields)
  then obtain i where i: "i < length ?S" "?S ! i = ?m" by (auto simp: in_set_conv_nth)
  have rank: "i < messages_in ''general'' ?w" using i(1) by (simp add: messages_in_def)
  have pages: "\<exists>page more.
             load_messages reader (Some (Num (int offset))) (Some (Num (int limit))) (Some ''general'') ?w
               = socket_emit reader (Messages_loaded page more) ?w \<and> ?m \<in> set page"
    if "offset \<le> i" "i < offset + limit" for offset limit reader
  proof -
    have pos: "0 < limit" using that by simp
    have mem: "?m \<in> set (rev (take limit (drop offset ?S)))"
      using window_member [OF i(1) that] i(2) by simp
    have "load_messages reader (Some (Num (int offset))) (Some (Num (int limit))) (Some ''general'') ?w
          = socket_emit reader
              (Messages_loaded (rev (take limit (drop offset ?S)))
                 (int offset + int limit
                    < int (length (filter (room_query ''general'') (messages_coll ?w))))) ?w"
      using load_messages_page [OF stored(1), of "int offset" reader "int limit" "''general''"] pos
      by (simp add: room_query_def cursor_limit_def)
    with mem show ?thesis by blast
  qed
  have hits: "\<exists>found.
             search_messages pcre reader q roomId ?w = socket_emit reader (Search_results found q) ?w
           \<and> ?m \<in> set found"
    if "plain_query q" "contains_ci q body \<or> contains_ci q (m_sender ?m)"
      "truthy_string roomId = None \<or> truthy_string roomId = Some ''general''"
      "length (filter (search_hit q (truthy_string roomId)) (messages_coll ?w)) \<le> 50"
    for q roomId reader
  proof -
    have hit: "search_hit q (truthy_string roomId) ?m"
      using that(2,3) fields by (auto simp: search_hit_def)
    then have "?m \<in> set (take 50 (sort_newest_first
                 (filter (search_hit q (truthy_string roomId)) (messages_coll ?w))))"
      using that(4) by (simp add: sort_newest_first_def stored(2))
    then show ?thesis
      using search_messages_plain [OF stored(1) that(1), of pcre reader roomId] by blast
  qed
  show ?thesis
    apply (rule exI [of _ ?m], rule exI [of _ i])
    using stored(2) fields rank pages hits by (simp only: simp_thms) blast
qed


theorem private_message_in_general_witness:
  "fault search_world = None
   \<and> (let sent = private_message ''s1'' ''s2'' ''psst'' 9 search_world;
           pm = \<lparr>m_id = 4, m_sender = ''alice'', m_senderId = ''s1'', m_message = ''psst'',
                 m_room = ''general'', m_fileName = None, m_fileUrl = None, m_fileType = None,
                 m_isFile = False, m_isPrivate = True, m_recipient = Some ''s2'',
                 m_delivered = True, m_read = False, m_reactions = [], m_timestamp = 9\<rparr>
       in messages_coll sent = messages_coll search_world @ [pm]
        \<and> outbox (load_messages ''s2'' None None None sent)
            = outbox sent @ [(''s2'', Messages_loaded (messages_coll search_world @ [pm]) False)]
        \<and> outbox (load_messages ''s2'' (Some (Num 0)) (Some (Num 1)) (Some ''general'') sent)
            = outbox sent @ [(''s2'', Messages_loaded [pm] True)]
        \<and> api_messages None None None sent
            = Json_messages (messages_coll search_world @ [pm]) False 4
        \<and> outbox (search_messages (\<lambda>p. None) ''s2'' ''PSST'' None sent)
            = outbox sent @ [(''s2'', Search_results [pm] ''PSST'')]
        \<and> outbox (search_messages (\<lambda>p. None) ''s2'' ''e'' (Some ''general'') sent)
            = outbox sent @ [(''s2'', Search_results
                 [pm, stored_message 2 ''Hello123'' ''bye'', stored_message 1 ''bob'' ''Hello there'']
                 ''e'')])"
proof -
  have up: "fault search_world = None" by code_simp
  have computed: "(let sent = private_message ''s1'' ''s2'' ''psst'' 9 search_world;
           pm = \<lparr>m_id = 4, m_sender = ''alice'', m_senderId = ''s1'', m_message = ''psst'',
                 m_room = ''general'', m_fileName = None, m_fileUrl = None, m_fileType = None,
                 m_isFile = False, m_isPrivate = True, m_recipient = Some ''s2'',
                 m_delivered = True, m_read = False, m_reactions = [], m_timestamp = 9\<rparr>
       in messages_coll sent = messages_coll search_world @ [pm]
        \<and> outbox (load_messages ''s2'' None None None sent)
            = outbox sent @ [(''s2'', Messages_loaded (messages_coll search_world @ [pm]) False)]
        \<and> outbox (load_messages ''s2'' (Some (Num 0)) (Some (Num 1)) (Some ''general'') sent)
            = outbox sent @ [(''s2'', Messages_loaded [pm] True)]
        \<and> api_messages None None None sent
            = Json_messages (messages_coll search_world @ [pm]) False 4
        \<and> outbox (search_messages (\<lambda>p. None) ''s2'' ''PSST'' None sent)
            = outbox sent @ [(''s2'', Search_results [pm] ''PSST'')]
        \<and> outbox (search_messages (\<lambda>p. None) ''s2'' ''e'' (Some ''general'') sent)
            = outbox sent @ [(''s2'', Search_results
                 [pm, stored_message 2 ''Hello123'' ''bye'', stored_message 1 ''bob'' ''Hello there'']
                 ''e'')])"
    by code_simp
  from private_message_in_general [OF up, of "''s1''" "''s2''" "''psst''" 9 "\<lambda>p. None"]
    up computed
  show ?thesis by blast
qed

text \<open>A private message followed by a public one: the page of the general room that holds
  the newest message only, and the search for a word of the public message, leave the
  private message out.\<close>

theorem private_message_in_general_counterexample:
  "(let sent = private_message ''s1'' ''s2'' ''psst'' 9 demo_world;
        after = send_message ''s1'' (Some ''later'') None 10 sent;
        pm = \<lparr>m_id = 1, m_sender = ''alice'', m_senderId = ''s1'', m_message = ''psst'',
              m_room = ''general'', m_fileName = None, m_fileUrl = None, m_fileType = None,
              m_isFile = False, m_isPrivate = True, m_recipient = Some ''s2'',
              m_delivered = True, m_read = False, m_reactions = [], m_timestamp = 9\<rparr>;
        public = \<lparr>m_id = 2, m_sender = ''alice'', m_senderId = ''s1'', m_message = ''later'',
              m_room = ''general'', m_fileName = None, m_fileUrl = None, m_fileType = None,
              m_isFile = False, m_isPrivate = False, m_recipient = None,
              m_delivered = True, m_read = False, m_reactions = [], m_timestamp = 10\<rparr>
    in messages_coll after = [pm, public]
     \<and> outbox (load_messages ''s2'' (Some (Num 0)) (Some (Num 1)) (Some ''general'') after)
         = outbox after @ [(''s2'', Messages_loaded [public] True)]
     \<and> api_messages (Some ''0'') (Some ''1'') (Some ''general'') after
         = Json_messages [public] True 2
     \<and> outbox (search_messages (\<lambda>p. None) ''s2'' ''later'' None after)
         = outbox after @ [(''s2'', Search_results [public] ''later'')])"
  by code_simp

end
